(* ===== verification/Prelude.thy ===== *)
theory Prelude
  imports Complex_Main "HOL-Library.Word" "HOL-Library.AList" "HOL-Library.Char_ord"
    "HOL-Library.List_Lexorder"
begin

text \<open>
  The shared vocabulary of the development. It holds:
  \<^item> the proof collections \<open>wp\<close> (weakest-precondition equations of the error monad), \<open>hoare\<close>
    (rules for invariants of actions) and \<open>bounds\<close> (saturating arithmetic);
  \<^item> fixed-width unsigned arithmetic as the Rust source uses it: \<open>checked_add\<close>,
    \<open>saturating_add\<close>, \<open>saturating_sub\<close>, \<open>saturating_mul\<close> on \<open>u64\<close>/\<open>usize\<close> (the runtime is
    built for \<open>linux/amd64\<close>, so \<open>usize\<close> is 64 bits wide) and durations in nanoseconds;
  \<^item> decimal printing of numbers (\<open>format!\<close>), with its injectivity;
  \<^item> the error monad in which the \<open>?\<close> operator of the source is \<open>bindE\<close>: a computation that
    fails keeps the state changes made before the failure, as the mutation in the source does;
  \<^item> chains of checks: the early returns of the source's validation routines.
\<close>

named_theorems wp
named_theorems bounds
named_theorems hoare

subsection \<open>Fixed-width unsigned arithmetic\<close>

type_synonym u64 = nat
type_synonym usize = nat
type_synonym byte = "8 word"
type_synonym duration = nat

definition u64_max :: nat where
  "u64_max = 2 ^ 64 - 1"

definition checked_add :: "nat \<Rightarrow> nat \<Rightarrow> nat option" where
  "checked_add a b = (if a + b \<le> u64_max then Some (a + b) else None)"

definition saturating_add :: "nat \<Rightarrow> nat \<Rightarrow> nat" where
  "saturating_add a b = (if a + b \<le> u64_max then a + b else u64_max)"

definition saturating_sub :: "nat \<Rightarrow> nat \<Rightarrow> nat" where
  "saturating_sub a b = (if b \<le> a then a - b else 0)"

text \<open>\<open>Duration\<close>: whole nanoseconds, at most \<open>u64::MAX\<close> seconds and 999,999,999 nanoseconds.\<close>

definition duration_max :: duration where
  "duration_max = u64_max * 1000000000 + 999999999"

definition from_secs :: "nat \<Rightarrow> duration" where
  "from_secs n = n * 1000000000"

definition from_millis :: "nat \<Rightarrow> duration" where
  "from_millis n = n * 1000000"

definition duration_saturating_mul :: "duration \<Rightarrow> nat \<Rightarrow> duration" where
  "duration_saturating_mul d k = (if d * k \<le> duration_max then d * k else duration_max)"

lemma checked_add_Some [bounds]:
  "checked_add a b = Some c \<longleftrightarrow> c = a + b \<and> a + b \<le> u64_max"
  by (auto simp: checked_add_def)

lemma checked_add_None [bounds]: "checked_add a b = None \<longleftrightarrow> u64_max < a + b"
  by (auto simp: checked_add_def)

lemma saturating_add_le [bounds]: "saturating_add a b \<le> u64_max"
  by (simp add: saturating_add_def)

lemma saturating_add_bound: "c < u64_max \<Longrightarrow> saturating_add a b \<le> c \<longleftrightarrow> a + b \<le> c"
  by (auto simp: saturating_add_def)

lemma saturating_add_exact: "a + b \<le> u64_max \<Longrightarrow> saturating_add a b = a + b"
  by (simp add: saturating_add_def)

lemma saturating_add_mono: "a \<le> u64_max \<Longrightarrow> a \<le> saturating_add a b"
  by (auto simp: saturating_add_def)

lemma saturating_sub_eq [simp]: "saturating_sub a b = a - b"
  by (simp add: saturating_sub_def)

subsection \<open>Decimal printing\<close>

definition digit_char :: "nat \<Rightarrow> char" where
  "digit_char d = char_of (48 + d)"

fun string_of_nat :: "nat \<Rightarrow> string" where
  "string_of_nat n =
     (if n < 10 then [digit_char n] else string_of_nat (n div 10) @ [digit_char (n mod 10)])"

declare string_of_nat.simps [simp del]

lemma of_char_digit: "d < 10 \<Longrightarrow> of_char (digit_char d) = 48 + d"
  by (simp add: digit_char_def)

lemma string_of_nat_value:
  "foldl (\<lambda>a c. 10 * a + (of_char c - 48)) 0 (string_of_nat n) = n"
proof (induction n rule: string_of_nat.induct)
  case (1 n)
  show ?case
  proof (cases "n < 10")
    case True
    then show ?thesis
      by (subst string_of_nat.simps) (simp add: of_char_digit)
  next
    case False
    with "1.IH" show ?thesis
      by (subst string_of_nat.simps) (simp add: of_char_digit)
  qed
qed

lemma string_of_nat_inj [simp]: "string_of_nat m = string_of_nat n \<longleftrightarrow> m = n"
  by (metis string_of_nat_value)

lemma string_of_nat_digits: "c \<in> set (string_of_nat n) \<Longrightarrow> (48::nat) \<le> of_char c \<and> of_char c < (58::nat)"
proof (induction n rule: string_of_nat.induct)
  case (1 n)
  show ?case
  proof (cases "n < 10")
    case True
    with "1.prems" show ?thesis
      by (subst (asm) string_of_nat.simps) (auto simp: of_char_digit)
  next
    case False
    have "n mod 10 < 10" by simp
    with False "1.prems" "1.IH" show ?thesis
      by (subst (asm) string_of_nat.simps) (auto simp: of_char_digit)
  qed
qed

lemma string_of_nat_nonempty [simp]: "string_of_nat n \<noteq> []"
  by (subst string_of_nat.simps) simp

subsection \<open>The error monad\<close>

text \<open>
  A handler of the source takes \<open>&mut self\<close> and returns \<open>Result\<close>: it is a function from the
  state to a result and a new state. \<open>bindE\<close> is the \<open>?\<close> operator: on an error the rest is
  skipped and the state stays as the failing call left it.
\<close>

type_synonym ('s, 'e, 'a) action = "'s \<Rightarrow> ('e + 'a) \<times> 's"

definition returnE :: "'a \<Rightarrow> ('s, 'e, 'a) action" where
  "returnE x = (\<lambda>s. (Inr x, s))"

definition throwE :: "'e \<Rightarrow> ('s, 'e, 'a) action" where
  "throwE e = (\<lambda>s. (Inl e, s))"

definition bindE :: "('s, 'e, 'a) action \<Rightarrow> ('a \<Rightarrow> ('s, 'e, 'b) action) \<Rightarrow> ('s, 'e, 'b) action" where
  "bindE m f = (\<lambda>s. case m s of (Inl e, s') \<Rightarrow> (Inl e, s') | (Inr a, s') \<Rightarrow> f a s')"

definition thenE :: "('s, 'e, 'a) action \<Rightarrow> ('s, 'e, 'b) action \<Rightarrow> ('s, 'e, 'b) action" where
  "thenE m n = bindE m (\<lambda>_. n)"

definition modifyE :: "('s \<Rightarrow> 's) \<Rightarrow> ('s, 'e, unit) action" where
  "modifyE f = (\<lambda>s. (Inr (), f s))"

definition readE :: "('s \<Rightarrow> 'x) \<Rightarrow> ('x \<Rightarrow> ('s, 'e, 'a) action) \<Rightarrow> ('s, 'e, 'a) action" where
  "readE g f = (\<lambda>s. f (g s) s)"

definition liftE :: "'e + 'a \<Rightarrow> ('s, 'e, 'a) action" where
  "liftE r = (\<lambda>s. (r, s))"

definition wpE :: "('s, 'e, 'a) action \<Rightarrow> ('a \<Rightarrow> 's \<Rightarrow> bool) \<Rightarrow> ('e \<Rightarrow> 's \<Rightarrow> bool) \<Rightarrow> 's \<Rightarrow> bool" where
  "wpE m Q E s = (case m s of (Inl e, s') \<Rightarrow> E e s' | (Inr a, s') \<Rightarrow> Q a s')"

lemma wpE_returnE [wp]: "wpE (returnE x) Q E s = Q x s"
  by (simp add: wpE_def returnE_def)

lemma wpE_throwE [wp]: "wpE (throwE e) Q E s = E e s"
  by (simp add: wpE_def throwE_def)

lemma wpE_bindE [wp]: "wpE (bindE m f) Q E s = wpE m (\<lambda>a. wpE (f a) Q E) E s"
  by (simp add: wpE_def bindE_def split: prod.split sum.split)

lemma wpE_thenE [wp]: "wpE (thenE m n) Q E s = wpE m (\<lambda>_. wpE n Q E) E s"
  by (simp add: thenE_def wpE_bindE)

lemma wpE_modifyE [wp]: "wpE (modifyE f) Q E s = Q () (f s)"
  by (simp add: wpE_def modifyE_def)

lemma wpE_readE [wp]: "wpE (readE g f) Q E s = wpE (f (g s)) Q E s"
  by (simp add: wpE_def readE_def)

lemma wpE_liftE [wp]: "wpE (liftE r) Q E s = (case r of Inl e \<Rightarrow> E e s | Inr a \<Rightarrow> Q a s)"
  by (simp add: wpE_def liftE_def)

lemma wpE_if [wp]:
  "wpE (if b then m else n) Q E s = (if b then wpE m Q E s else wpE n Q E s)"
  by simp

text \<open>The same equations for a postcondition that is itself a weakest precondition.\<close>

lemma wp_fun:
  "wpE (thenE m f) Q E = wpE m (\<lambda>_. wpE f Q E) E" "wpE (modifyE g) R E = (\<lambda>s. R () (g s))"
  "wpE (returnE x) P E = P x"
  by (simp_all add: fun_eq_iff wp)

lemma wpE_true: "wpE m (\<lambda>_ _. True) (\<lambda>_ _. True) s"
  by (auto simp: wpE_def split: prod.split sum.split)

lemma wpE_mono:
  assumes "wpE m Q E s" and "\<And>a t. Q a t \<Longrightarrow> Q' a t" and "\<And>e t. E e t \<Longrightarrow> E' e t"
  shows "wpE m Q' E' s"
  using assms by (auto simp: wpE_def split: prod.splits sum.splits)

lemma wpE_conj:
  "wpE m Q E s \<Longrightarrow> wpE m Q' E' s \<Longrightarrow> wpE m (\<lambda>a t. Q a t \<and> Q' a t) (\<lambda>e t. E e t \<and> E' e t) s"
  by (auto simp: wpE_def split: prod.splits sum.splits)

lemma wpE_result:
  "wpE m Q E s \<Longrightarrow> m s = (r, t) \<Longrightarrow> (case r of Inl e \<Rightarrow> E e t | Inr a \<Rightarrow> Q a t)"
  by (auto simp: wpE_def split: sum.splits)

text \<open>The monad laws: \<open>?\<close> is associative, which is why handlers may be cut into helpers.\<close>

lemma bindE_assoc: "bindE (bindE m f) g = bindE m (\<lambda>a. bindE (f a) g)"
  by (auto simp: bindE_def fun_eq_iff split: prod.split sum.split)

lemma bindE_returnE [simp]: "bindE (returnE x) f = f x" "bindE m returnE = m"
  by (auto simp: bindE_def returnE_def fun_eq_iff split: prod.split sum.split)

fun seqE :: "('s, 'e, unit) action list \<Rightarrow> ('s, 'e, unit) action" where
  "seqE [] = returnE ()"
| "seqE (m # ms) = thenE m (seqE ms)"

text \<open>
  \<open>hoare J I m\<close>: from a state in \<open>J\<close> the action ends in \<open>J\<close> when it succeeds and in \<open>I\<close> when it
  fails half-way. The rules below are the proof collection \<open>hoare\<close>.
\<close>

definition hoare :: "('s \<Rightarrow> bool) \<Rightarrow> ('s \<Rightarrow> bool) \<Rightarrow> ('s, 'e, 'a) action \<Rightarrow> bool" where
  "hoare J I m \<longleftrightarrow> (\<forall>s. J s \<longrightarrow> wpE m (\<lambda>_. J) (\<lambda>_. I) s)"

lemma hoareI: "(\<And>s. J s \<Longrightarrow> wpE m (\<lambda>_. J) (\<lambda>_. I) s) \<Longrightarrow> hoare J I m"
  by (simp add: hoare_def)

lemma hoareD: "hoare J I m \<Longrightarrow> J s \<Longrightarrow> wpE m (\<lambda>_. J) (\<lambda>_. I) s"
  by (simp add: hoare_def)

lemma hoare_result:
  "hoare J I m \<Longrightarrow> J s \<Longrightarrow> m s = (r, t) \<Longrightarrow> (case r of Inl _ \<Rightarrow> I t | Inr _ \<Rightarrow> J t)"
  using wpE_result [OF hoareD, of J I m s r t] by simp

lemma hoare_returnE [hoare]: "hoare J I (returnE x)"
  by (simp add: hoare_def wp)

lemma hoare_bindE [hoare]: "hoare J I m \<Longrightarrow> (\<And>x. hoare J I (f x)) \<Longrightarrow> hoare J I (bindE m f)"
  unfolding hoare_def wpE_bindE by (auto intro: wpE_mono [of m "\<lambda>_. J" "\<lambda>_. I"])

lemma hoare_thenE [hoare]: "hoare J I m \<Longrightarrow> hoare J I n \<Longrightarrow> hoare J I (thenE m n)"
  by (simp add: thenE_def hoare_bindE)

lemma hoare_modifyE [hoare]: "(\<And>s. J s \<Longrightarrow> J (f s)) \<Longrightarrow> hoare J I (modifyE f)"
  by (simp add: hoare_def wp)

lemma hoare_readE [hoare]: "(\<And>x. hoare J I (f x)) \<Longrightarrow> hoare J I (readE g f)"
  by (simp add: hoare_def wp)

lemma hoare_if [hoare]: "(b \<Longrightarrow> hoare J I m) \<Longrightarrow> (\<not> b \<Longrightarrow> hoare J I n) \<Longrightarrow> hoare J I (if b then m else n)"
  by simp

lemma hoare_seqE [hoare]: "(\<And>m. m \<in> set ms \<Longrightarrow> hoare J I m) \<Longrightarrow> hoare J I (seqE ms)"
  by (induction ms) (auto intro: hoare_returnE hoare_thenE)

lemma hoare_throwE: "(\<And>s. J s \<Longrightarrow> I s) \<Longrightarrow> hoare J I (throwE e)"
  by (simp add: hoare_def wp)

lemma hoare_conj:
  "hoare J I m \<Longrightarrow> hoare J' I' m \<Longrightarrow> hoare (\<lambda>s. J s \<and> J' s) (\<lambda>s. I s \<and> I' s) m"
  unfolding hoare_def by (auto intro: wpE_conj)

subsection \<open>Chains of checks\<close>

text \<open>
  Validation in the source is a sequence of guarded early returns: \<open>require b e\<close> is
  \<open>if !b { return Err(e) }\<close>, \<open>andR\<close> is the sequencing of two such statements and \<open>each\<close> the
  \<open>for\<close> loop whose body may return early.
\<close>

definition require :: "bool \<Rightarrow> 'e \<Rightarrow> 'e + unit" where
  "require b e = (if b then Inr () else Inl e)"

definition andR :: "'e + unit \<Rightarrow> 'e + 'a \<Rightarrow> 'e + 'a" where
  "andR r n = (case r of Inl e \<Rightarrow> Inl e | Inr _ \<Rightarrow> n)"

fun each :: "('a \<Rightarrow> 'e + unit) \<Rightarrow> 'a list \<Rightarrow> 'e + unit" where
  "each f [] = Inr ()"
| "each f (x # xs) = (case f x of Inl e \<Rightarrow> Inl e | Inr _ \<Rightarrow> each f xs)"

fun checks :: "('e + unit) list \<Rightarrow> 'e + unit" where
  "checks [] = Inr ()"
| "checks (r # rs) = (case r of Inl e \<Rightarrow> Inl e | Inr _ \<Rightarrow> checks rs)"

definition map_err :: "('e \<Rightarrow> 'f) \<Rightarrow> 'e + 'a \<Rightarrow> 'f + 'a" where
  "map_err f r = (case r of Inl e \<Rightarrow> Inl (f e) | Inr a \<Rightarrow> Inr a)"

lemma each_cong [fundef_cong]:
  "xs = ys \<Longrightarrow> (\<And>x. x \<in> set ys \<Longrightarrow> f x = g x) \<Longrightarrow> each f xs = each g ys"
  by (induction ys arbitrary: xs) (auto split: sum.split)

declare each.simps(2) [simp del]

lemma require_simps [simp]:
  "require b e = Inr u \<longleftrightarrow> b" "require b e = Inl e' \<longleftrightarrow> \<not> b \<and> e' = e"
  by (auto simp: require_def)

lemma andR_simps [simp]:
  "andR r n = Inr a \<longleftrightarrow> r = Inr () \<and> n = Inr a"
  "andR r n = Inl e \<longleftrightarrow> r = Inl e \<or> (r = Inr () \<and> n = Inl e)"
  by (auto simp: andR_def split: sum.split)

lemma each_Inr [simp]: "each f xs = Inr u \<longleftrightarrow> (\<forall>x \<in> set xs. f x = Inr ())"
  by (induction xs) (auto simp: each.simps split: sum.split)

lemma each_Inl: "each f xs = Inl e \<Longrightarrow> \<exists>x \<in> set xs. f x = Inl e"
  by (induction xs) (auto simp: each.simps split: sum.splits)

lemma find_Some_set: "find P xs = Some x \<Longrightarrow> x \<in> set xs \<and> P x"
  by (induction xs) (auto split: if_splits)

lemma checks_Inr: "checks rs = Inr u \<longleftrightarrow> (\<forall>r \<in> set rs. r = Inr ())"
  by (induction rs) (auto split: sum.split)

lemma checks_Inl: "checks rs = Inl e \<Longrightarrow> Inl e \<in> set rs"
  by (induction rs) (auto split: sum.splits)

lemma map_err_simps [simp]:
  "map_err f r = Inr a \<longleftrightarrow> r = Inr a" "map_err f r = Inl e \<longleftrightarrow> (\<exists>d. r = Inl d \<and> e = f d)"
  by (auto simp: map_err_def split: sum.split)

lemmas check_eval = each.simps require_def andR_def map_err_def

lemmas errorE_defs = returnE_def throwE_def bindE_def thenE_def modifyE_def readE_def liftE_def

end
