(* ===== verification/Containers.thy ===== *)
theory Containers
  imports Prelude
begin

text \<open>
  The containers the runtime is written with, as data: bounded FIFO channels
  (\<open>tokio::sync::mpsc\<close>), hash tables (\<open>HashMap\<close>, an association list with distinct keys) and
  ordered tables (\<open>BTreeMap\<close>, an association list sorted by key). The interfaces their clients
  rely on are the locales \<open>bounded_lane\<close> and \<open>keyed_table\<close>; both are interpreted here on the
  containers of the model.
\<close>

subsection \<open>Bounded channels\<close>

datatype try_send_error = Full | Closed

text \<open>
  A channel is the log of everything ever accepted, the number of messages its receiver has taken
  and its capacity. \<open>chan_closed\<close>: the receiver is gone. Keeping the log makes statements about
  the whole trace of a lane direct; the buffered messages are the rest of the log.
\<close>

record 'a chan =
  chan_sent :: "'a list"
  chan_taken :: nat
  chan_cap :: nat
  chan_closed :: bool

text \<open>
  The most permits a semaphore, and the most places a channel, of the asynchronous runtime can have:
  constructors panic beyond it.
\<close>

definition MAX_PERMITS :: nat where
  "MAX_PERMITS = u64_max div 8"

definition chan_new :: "nat \<Rightarrow> 'a chan" where
  "chan_new n = \<lparr>chan_sent = [], chan_taken = 0, chan_cap = n, chan_closed = False\<rparr>"

definition chan_pending :: "'a chan \<Rightarrow> 'a list" where
  "chan_pending c = drop (chan_taken c) (chan_sent c)"

definition chan_try_send :: "'a chan \<Rightarrow> 'a \<Rightarrow> try_send_error + 'a chan" where
  "chan_try_send c x =
     (if chan_closed c then Inl Closed
      else if length (chan_pending c) < chan_cap c
           then Inr (c\<lparr>chan_sent := chan_sent c @ [x]\<rparr>)
           else Inl Full)"

definition chan_recv :: "'a chan \<Rightarrow> ('a \<times> 'a chan) option" where
  "chan_recv c =
     (case chan_pending c of
        [] \<Rightarrow> None
      | x # _ \<Rightarrow> Some (x, c\<lparr>chan_taken := Suc (chan_taken c)\<rparr>))"

definition chan_wf :: "'a chan \<Rightarrow> bool" where
  "chan_wf c \<longleftrightarrow>
     chan_taken c \<le> length (chan_sent c) \<and> length (chan_sent c) - chan_taken c \<le> chan_cap c"

locale bounded_lane =
  fixes try_send :: "'c \<Rightarrow> 'a \<Rightarrow> try_send_error + 'c"
    and recv :: "'c \<Rightarrow> ('a \<times> 'c) option"
    and pending :: "'c \<Rightarrow> 'a list"
    and capacity :: "'c \<Rightarrow> nat"
    and closed :: "'c \<Rightarrow> bool"
    and invar :: "'c \<Rightarrow> bool"
  assumes send_room: "invar c \<Longrightarrow> \<not> closed c \<Longrightarrow> length (pending c) < capacity c \<Longrightarrow>
      \<exists>c'. try_send c x = Inr c' \<and> invar c' \<and> pending c' = pending c @ [x]
         \<and> capacity c' = capacity c \<and> \<not> closed c'"
    and send_full: "invar c \<Longrightarrow> \<not> closed c \<Longrightarrow> \<not> length (pending c) < capacity c \<Longrightarrow>
      try_send c x = Inl Full"
    and send_closed: "closed c \<Longrightarrow> try_send c x = Inl Closed"
    and recv_empty: "invar c \<Longrightarrow> pending c = [] \<Longrightarrow> recv c = None"
    and recv_next: "invar c \<Longrightarrow> pending c = x # xs \<Longrightarrow>
      \<exists>c'. recv c = Some (x, c') \<and> invar c' \<and> pending c' = xs
         \<and> capacity c' = capacity c \<and> closed c' = closed c"
    and bounded: "invar c \<Longrightarrow> length (pending c) \<le> capacity c"
begin

lemma send_cases:
  assumes "invar c"
  obtains (sent) c' where "\<not> closed c" "length (pending c) < capacity c" "try_send c x = Inr c'"
      "invar c'" "pending c' = pending c @ [x]" "capacity c' = capacity c" "\<not> closed c'"
  | (full) "\<not> closed c" "length (pending c) = capacity c" "try_send c x = Inl Full"
  | (closed) "closed c" "try_send c x = Inl Closed"
proof (cases "closed c")
  case True
  then show ?thesis using send_closed that(3) by blast
next
  case False
  show ?thesis
  proof (cases "length (pending c) < capacity c")
    case True
    with send_room [OF assms False True, of x] that(1) False show ?thesis by blast
  next
    case full: False
    with bounded [OF assms] have "length (pending c) = capacity c" by linarith
    with send_full [OF assms False full] that(2) False show ?thesis by blast
  qed
qed

lemma send_ok_iff:
  "invar c \<Longrightarrow> (\<exists>c'. try_send c x = Inr c') \<longleftrightarrow> \<not> closed c \<and> length (pending c) < capacity c"
  by (rule send_cases [of c x]) auto

lemma send_keeps_order:
  assumes "invar c" "try_send c x = Inr c'" "pending c = y # ys"
  shows "\<exists>c''. recv c' = Some (y, c'') \<and> pending c'' = ys @ [x]"
proof -
  have "invar c' \<and> pending c' = y # (ys @ [x])"
    using assms by (cases rule: send_cases [OF assms(1), of x]) auto
  then show ?thesis using recv_next by blast
qed

lemma recv_makes_room:
  assumes "invar c" "\<not> closed c" "recv c = Some (y, c')"
  shows "\<exists>c''. try_send c' x = Inr c''"
proof -
  obtain ys where p: "pending c = y # ys"
    using assms recv_empty recv_next by (cases "pending c") fastforce+
  then obtain d where "recv c = Some (y, d)" "invar d" "pending d = ys" "capacity d = capacity c"
    "closed d = closed c" using recv_next [OF assms(1)] by blast
  with assms bounded [OF assms(1)] p show ?thesis by (auto simp: send_ok_iff)
qed

end

lemma chan_wf_new [simp]: "chan_wf (chan_new n)"
  by (simp add: chan_wf_def chan_new_def)

lemma chan_pending_new [simp]: "chan_pending (chan_new n) = []"
  by (simp add: chan_pending_def chan_new_def)

lemma chan_pending_send [simp]:
  "chan_taken c \<le> length (chan_sent c) \<Longrightarrow>
   chan_pending (c\<lparr>chan_sent := chan_sent c @ xs\<rparr>) = chan_pending c @ xs"
  by (simp add: chan_pending_def)

interpretation lane: bounded_lane chan_try_send chan_recv chan_pending chan_cap chan_closed chan_wf
proof
  fix c :: "'a chan" and x
  assume "chan_wf c" "\<not> chan_closed c" "length (chan_pending c) < chan_cap c"
  then show "\<exists>c'. chan_try_send c x = Inr c' \<and> chan_wf c' \<and> chan_pending c' = chan_pending c @ [x]
      \<and> chan_cap c' = chan_cap c \<and> \<not> chan_closed c'"
    by (auto simp: chan_try_send_def chan_wf_def chan_pending_def)
next
  fix c :: "'a chan" and x xs
  assume "chan_wf c" "chan_pending c = x # xs"
  then show "\<exists>c'. chan_recv c = Some (x, c') \<and> chan_wf c' \<and> chan_pending c' = xs
      \<and> chan_cap c' = chan_cap c \<and> chan_closed c' = chan_closed c"
    by (auto simp: chan_recv_def chan_wf_def chan_pending_def drop_Suc tl_drop dest: arg_cong [of _ _ length])
       (metis drop_Suc list.sel(3) tl_drop)+
qed (auto simp: chan_try_send_def chan_recv_def chan_wf_def chan_pending_def)

subsection \<open>Keyed tables\<close>

locale keyed_table =
  fixes insert_kv :: "'k \<Rightarrow> 'v \<Rightarrow> 'm \<Rightarrow> 'm"
    and remove :: "'k \<Rightarrow> 'm \<Rightarrow> 'm"
    and get :: "'m \<Rightarrow> 'k \<Rightarrow> 'v option"
    and len :: "'m \<Rightarrow> nat"
    and invar :: "'m \<Rightarrow> bool"
  assumes get_insert: "invar m \<Longrightarrow> get (insert_kv k v m) = (get m)(k \<mapsto> v)"
    and get_remove: "invar m \<Longrightarrow> get (remove k m) = (get m)(k := None)"
    and len_card: "invar m \<Longrightarrow> len m = card (dom (get m))"
    and finite_dom: "finite (dom (get m))"
    and invar_insert: "invar m \<Longrightarrow> invar (insert_kv k v m)"
    and invar_remove: "invar m \<Longrightarrow> invar (remove k m)"
begin

lemma len_insert:
  "invar m \<Longrightarrow> len (insert_kv k v m) = (if get m k = None then Suc (len m) else len m)"
  using finite_dom [of m]
  by (auto simp: len_card invar_insert get_insert card_insert_if domIff dest: domI)

lemma len_remove:
  "invar m \<Longrightarrow> len (remove k m) = (if get m k = None then len m else len m - 1)"
  using finite_dom [of m]
  by (auto simp: len_card invar_remove get_remove card_Diff_singleton_if domIff dest: domI)

lemma len_remove_le: "invar m \<Longrightarrow> len (remove k m) \<le> len m"
  by (simp add: len_remove)

lemma len_remove_present: "invar m \<Longrightarrow> get m k = Some v \<Longrightarrow> Suc (len (remove k m)) = len m"
  using finite_dom [of m] card_gt_0_iff [of "dom (get m)"]
  by (auto simp: len_remove len_card)

end

type_synonym ('k, 'v) hash_map = "('k \<times> 'v) list"
type_synonym ('k, 'v) btree_map = "('k \<times> 'v) list"

definition hash_wf :: "('k, 'v) hash_map \<Rightarrow> bool" where
  "hash_wf m \<longleftrightarrow> distinct (map fst m)"

lemma length_distinct_alist: "distinct (map fst m) \<Longrightarrow> length m = card (dom (map_of m))"
  by (metis distinct_card dom_map_of_conv_image_fst length_map list.set_map)

interpretation hash: keyed_table AList.update AList.delete map_of length hash_wf
  by unfold_locales
     (auto simp: hash_wf_def update_conv' delete_conv' length_distinct_alist
       finite_dom_map_of distinct_update distinct_delete)

lemma hash_wf_filter [simp]: "hash_wf m \<Longrightarrow> hash_wf (filter P m)"
  by (induction m) (auto simp: hash_wf_def)

lemma map_of_filter_Some:
  "hash_wf m \<Longrightarrow> map_of (filter P m) k = Some v \<longleftrightarrow> map_of m k = Some v \<and> P (k, v)"
  by (induction m) (auto simp: hash_wf_def dest: map_of_SomeD intro: rev_image_eqI split: if_splits)

fun btree_insert :: "'k::linorder \<Rightarrow> 'v \<Rightarrow> ('k, 'v) btree_map \<Rightarrow> ('k, 'v) btree_map" where
  "btree_insert k v [] = [(k, v)]"
| "btree_insert k v ((k', v') # m) =
     (if k < k' then (k, v) # (k', v') # m
      else if k = k' then (k, v) # m
      else (k', v') # btree_insert k v m)"

definition btree_of_list :: "('k::linorder \<times> 'v) list \<Rightarrow> ('k, 'v) btree_map" where
  "btree_of_list xs = foldl (\<lambda>m (k, v). btree_insert k v m) [] xs"

definition btree_wf :: "('k::linorder, 'v) btree_map \<Rightarrow> bool" where
  "btree_wf m \<longleftrightarrow> sorted_wrt (<) (map fst m)"

lemma map_of_btree_insert [simp]: "map_of (btree_insert k v m) = (map_of m)(k \<mapsto> v)"
  by (induction m) auto

lemma set_btree_insert: "fst ` set (btree_insert k v m) = insert k (fst ` set m)"
  by (induction k v m rule: btree_insert.induct) (simp_all add: insert_commute)

lemma btree_wf_insert: "btree_wf m \<Longrightarrow> btree_wf (btree_insert k v m)"
proof (induction m)
  case (Cons kv m)
  then show ?case
    using set_btree_insert [of k v m] by (cases kv) (auto simp: btree_wf_def)
qed (simp add: btree_wf_def)

lemma btree_wf_distinct: "btree_wf m \<Longrightarrow> distinct (map fst m)"
  by (simp add: btree_wf_def strict_sorted_iff)

lemma btree_wf_delete: "btree_wf m \<Longrightarrow> btree_wf (AList.delete k m)"
  by (simp add: btree_wf_def AList.delete_eq sorted_wrt_map sorted_wrt_filter)

interpretation btree: keyed_table btree_insert AList.delete map_of length btree_wf
  by unfold_locales
     (auto simp: delete_conv' length_distinct_alist finite_dom_map_of
       btree_wf_insert btree_wf_delete btree_wf_distinct)

lemma btree_wf_of_list: "btree_wf (btree_of_list xs)"
proof -
  have "btree_wf m \<Longrightarrow> btree_wf (foldl (\<lambda>m (k, v). btree_insert k v m) m xs)" for m
    by (induction xs arbitrary: m) (auto simp: btree_wf_insert split: prod.split)
  then show ?thesis by (simp add: btree_of_list_def btree_wf_def)
qed

lemma map_of_btree_of_list: "map_of (btree_of_list xs) k = map_of (rev xs) k"
proof -
  have "map_of (foldl (\<lambda>m (k, v). btree_insert k v m) m xs) k
      = (case map_of (rev xs) k of None \<Rightarrow> map_of m k | Some v \<Rightarrow> Some v)" for m
    by (induction xs arbitrary: m) (auto simp: map_add_def split: option.split)
  then show ?thesis by (simp add: btree_of_list_def split: option.split)
qed

end
