(* ===== verification/Json.thy ===== *)
theory Json
  imports Containers "HOL-Library.Log_Nat"
begin

text \<open>
  JSON values as the runtime sees them: the constructors of \<open>serde_json::Value\<close> (whose objects are
  ordered maps) and the accessors the source calls on them. A number is a nonnegative integer that
  fits \<open>u64\<close>, a negative integer that fits \<open>i64\<close>, or a finite binary64 value. Serialisation is
  third-party code: every definition that needs the bytes of a value takes the serialiser as an
  argument. \<open>f64\<close> is the language's binary64 type up to the sign of zero, which none of the
  comparisons of the source observes.
\<close>

datatype f64 = NaN | PosInf | NegInf | Finite rat

fun f64_is_finite :: "f64 \<Rightarrow> bool" where
  "f64_is_finite (Finite _) = True"
| "f64_is_finite _ = False"

fun f64_less :: "f64 \<Rightarrow> f64 \<Rightarrow> bool" where
  "f64_less NaN _ = False"
| "f64_less _ NaN = False"
| "f64_less (Finite a) (Finite b) = (a < b)"
| "f64_less NegInf b = (b \<noteq> NegInf)"
| "f64_less a PosInf = (a \<noteq> PosInf)"
| "f64_less _ _ = False"

fun f64_le :: "f64 \<Rightarrow> f64 \<Rightarrow> bool" where
  "f64_le NaN _ = False"
| "f64_le _ NaN = False"
| "f64_le (Finite a) (Finite b) = (a \<le> b)"
| "f64_le NegInf _ = True"
| "f64_le _ PosInf = True"
| "f64_le _ _ = False"

text \<open>The cast \<open>n as f64\<close>: round to nearest, ties to even, at 53 significant bits.\<close>

definition round_even_div :: "nat \<Rightarrow> nat \<Rightarrow> nat" where
  "round_even_div a b =
     (let q = a div b; r = a mod b
      in if 2 * r < b \<or> (2 * r = b \<and> even q) then q else Suc q)"

definition f64_of_nat :: "nat \<Rightarrow> f64" where
  "f64_of_nat n =
     (if n < 2 ^ 53 then Finite (of_nat n)
      else let e = floorlog 2 n - 53 in Finite (of_nat (round_even_div n (2 ^ e) * 2 ^ e)))"

definition f64_neg :: "f64 \<Rightarrow> f64" where
  "f64_neg x = (case x of Finite a \<Rightarrow> Finite (- a) | PosInf \<Rightarrow> NegInf | NegInf \<Rightarrow> PosInf | NaN \<Rightarrow> NaN)"

datatype json_number = PosInt nat | NegInt int | Float rat

datatype json =
    JNull
  | JBool bool
  | JNumber json_number
  | JString string
  | JArray "json list"
  | JObject "(string \<times> json) list"

text \<open>What the runtime uses of \<open>serde_json::to_vec\<close>: an error message or the length of the bytes.\<close>

type_synonym serializer = "json \<Rightarrow> string + nat"

fun as_str :: "json \<Rightarrow> string option" where
  "as_str (JString s) = Some s"
| "as_str _ = None"

fun as_object :: "json \<Rightarrow> (string \<times> json) list option" where
  "as_object (JObject m) = Some m"
| "as_object _ = None"

fun as_array :: "json \<Rightarrow> json list option" where
  "as_array (JArray xs) = Some xs"
| "as_array _ = None"

fun is_boolean :: "json \<Rightarrow> bool" where
  "is_boolean (JBool _) = True"
| "is_boolean _ = False"

fun is_number :: "json \<Rightarrow> bool" where
  "is_number (JNumber _) = True"
| "is_number _ = False"

fun as_u64 :: "json \<Rightarrow> nat option" where
  "as_u64 (JNumber (PosInt n)) = Some n"
| "as_u64 _ = None"

fun as_i64 :: "json \<Rightarrow> int option" where
  "as_i64 (JNumber (PosInt n)) = (if n < 2 ^ 63 then Some (int n) else None)"
| "as_i64 (JNumber (NegInt i)) = Some i"
| "as_i64 _ = None"

fun as_f64 :: "json \<Rightarrow> f64 option" where
  "as_f64 (JNumber (PosInt n)) = Some (f64_of_nat n)"
| "as_f64 (JNumber (NegInt i)) = Some (f64_neg (f64_of_nat (nat (- i))))"
| "as_f64 (JNumber (Float r)) = Some (Finite r)"
| "as_f64 _ = None"

abbreviation is_object :: "json \<Rightarrow> bool" where
  "is_object v \<equiv> as_object v \<noteq> None"

abbreviation is_array :: "json \<Rightarrow> bool" where
  "is_array v \<equiv> as_array v \<noteq> None"

abbreviation is_string :: "json \<Rightarrow> bool" where
  "is_string v \<equiv> as_str v \<noteq> None"

lemma as_str_Some [simp]: "as_str v = Some s \<longleftrightarrow> v = JString s"
  by (cases v) auto

lemma as_object_Some [simp]: "as_object v = Some m \<longleftrightarrow> v = JObject m"
  by (cases v) auto

lemma as_array_Some [simp]: "as_array v = Some xs \<longleftrightarrow> v = JArray xs"
  by (cases v) auto

lemma f64_le_total: "f64_is_finite a \<Longrightarrow> f64_is_finite b \<Longrightarrow> f64_le a b \<or> f64_less b a"
  by (cases a; cases b) auto

lemma f64_less_le: "f64_is_finite a \<Longrightarrow> f64_is_finite b \<Longrightarrow> \<not> f64_le a b \<longleftrightarrow> f64_less b a"
  by (cases a; cases b) auto

lemma f64_le_trans [trans]: "f64_le a b \<Longrightarrow> f64_le b c \<Longrightarrow> f64_le a c"
  by (cases a; cases b; cases c) auto

lemma f64_le_refl [simp]: "f64_is_finite a \<Longrightarrow> f64_le a a"
  by (cases a) auto

lemma f64_less_imp_le: "f64_less a b \<Longrightarrow> f64_le a b"
  by (cases a; cases b) auto

end
