(* ===== verification/Domain.thy ===== *)
theory Domain
  imports Json
begin

text \<open>
  Failures that cross a component boundary (\<open>error.rs\<close>), the tenant context and the identifier
  grammar (\<open>domain.rs\<close>). Strings are byte strings (UTF-8), so \<open>length\<close> is Rust's \<open>len\<close>.
\<close>

subsection \<open>Runtime errors\<close>

datatype RuntimeError =
    InvalidRequest string
  | Protocol string
  | GenerationMismatch (expected: u64) (received: u64)
  | InvalidState string
  | AtCapacity
  | Draining
  | SessionConflict
  | MailboxFull (lane: string)
  | EventSpoolFull
  | OutputBackpressure
  | Provider (stage: string) (message: string)
  | Tool string
  | EventDelivery string
  | Io string
  | Json string
  | Internal string

type_synonym 'a result = "RuntimeError + 'a"

text \<open>The messages of \<open>#[error(...)]\<close>, which \<open>to_string\<close> prints.\<close>

fun error_to_string :: "RuntimeError \<Rightarrow> string" where
  "error_to_string (InvalidRequest m) = ''invalid request: '' @ m"
| "error_to_string (Protocol m) = ''protocol violation: '' @ m"
| "error_to_string (GenerationMismatch e r) =
     ''runtime generation mismatch: expected '' @ string_of_nat e @ '', received '' @ string_of_nat r"
| "error_to_string (InvalidState m) = ''session state does not permit this operation: '' @ m"
| "error_to_string AtCapacity = ''runtime shard is at capacity''"
| "error_to_string Draining = ''runtime shard is draining''"
| "error_to_string SessionConflict = ''session already admitted''"
| "error_to_string (MailboxFull l) = ''bounded '' @ l @ '' lane is full''"
| "error_to_string EventSpoolFull = ''event spool is full''"
| "error_to_string OutputBackpressure = ''outbound client queue is full''"
| "error_to_string (Provider s m) = ''provider stage '' @ s @ '' failed: '' @ m"
| "error_to_string (Tool m) = ''tool execution failed: '' @ m"
| "error_to_string (EventDelivery m) = ''event delivery failed: '' @ m"
| "error_to_string (Io m) = ''I/O failed: '' @ m"
| "error_to_string (Json m) = ''JSON failed: '' @ m"
| "error_to_string (Internal m) = ''internal runtime invariant failed: '' @ m"

fun error_code :: "RuntimeError \<Rightarrow> string" where
  "error_code (InvalidRequest _) = ''invalid_request''"
| "error_code (Protocol _) = ''protocol_error''"
| "error_code (GenerationMismatch _ _) = ''runtime_generation_mismatch''"
| "error_code (InvalidState _) = ''invalid_session_state''"
| "error_code AtCapacity = ''runtime_at_capacity''"
| "error_code Draining = ''runtime_draining''"
| "error_code SessionConflict = ''session_conflict''"
| "error_code (MailboxFull _) = ''runtime_overloaded''"
| "error_code EventSpoolFull = ''event_spool_full''"
| "error_code OutputBackpressure = ''client_backpressure''"
| "error_code (Provider _ _) = ''provider_error''"
| "error_code (Tool _) = ''tool_error''"
| "error_code (EventDelivery _) = ''event_delivery_error''"
| "error_code (Io _) = ''internal_error''"
| "error_code (Json _) = ''internal_error''"
| "error_code (Internal _) = ''internal_error''"

definition error_details :: "RuntimeError \<Rightarrow> (string, json) btree_map option" where
  "error_details e =
     (case e of
        GenerationMismatch ex re \<Rightarrow>
          Some (btree_of_list [(''expected'', JNumber (PosInt ex)), (''received'', JNumber (PosInt re))])
      | MailboxFull l \<Rightarrow> Some (btree_of_list [(''lane'', JString l)])
      | _ \<Rightarrow> None)"

definition public_message :: "RuntimeError \<Rightarrow> string" where
  "public_message e =
     (case e of
        Io _ \<Rightarrow> ''The runtime encountered an internal error''
      | Json _ \<Rightarrow> ''The runtime encountered an internal error''
      | Internal _ \<Rightarrow> ''The runtime encountered an internal error''
      | Provider _ _ \<Rightarrow> ''A provider stage failed''
      | Tool _ \<Rightarrow> ''Tool execution failed''
      | EventDelivery _ \<Rightarrow> ''Runtime event delivery failed''
      | _ \<Rightarrow> error_to_string e)"

subsection \<open>Identifiers\<close>

definition is_ascii_lowercase :: "char \<Rightarrow> bool" where
  "is_ascii_lowercase c \<longleftrightarrow> CHR ''a'' \<le> c \<and> c \<le> CHR ''z''"

definition is_ascii_uppercase :: "char \<Rightarrow> bool" where
  "is_ascii_uppercase c \<longleftrightarrow> CHR ''A'' \<le> c \<and> c \<le> CHR ''Z''"

definition is_ascii_digit :: "char \<Rightarrow> bool" where
  "is_ascii_digit c \<longleftrightarrow> CHR ''0'' \<le> c \<and> c \<le> CHR ''9''"

definition is_ascii_alphabetic :: "char \<Rightarrow> bool" where
  "is_ascii_alphabetic c \<longleftrightarrow> is_ascii_lowercase c \<or> is_ascii_uppercase c"

definition is_ascii_alphanumeric :: "char \<Rightarrow> bool" where
  "is_ascii_alphanumeric c \<longleftrightarrow> is_ascii_alphabetic c \<or> is_ascii_digit c"

definition is_ascii_hexdigit :: "char \<Rightarrow> bool" where
  "is_ascii_hexdigit c \<longleftrightarrow> is_ascii_digit c \<or> (CHR ''a'' \<le> c \<and> c \<le> CHR ''f'') \<or> (CHR ''A'' \<le> c \<and> c \<le> CHR ''F'')"

text \<open>\<open>str::split_once\<close> and \<open>str::split\<close> with a one-byte separator.\<close>

fun split_once :: "char \<Rightarrow> string \<Rightarrow> (string \<times> string) option" where
  "split_once d [] = None"
| "split_once d (c # cs) =
     (if c = d then Some ([], cs)
      else map_option (\<lambda>(p, q). (c # p, q)) (split_once d cs))"

fun split_on :: "char \<Rightarrow> string \<Rightarrow> string list" where
  "split_on d [] = [[]]"
| "split_on d (c # cs) =
     (if c = d then [] # split_on d cs
      else case split_on d cs of [] \<Rightarrow> [[c]] | w # ws \<Rightarrow> (c # w) # ws)"

definition is_resource_id :: "string \<Rightarrow> bool" where
  "is_resource_id v \<longleftrightarrow>
     8 \<le> length v \<and> length v \<le> 80 \<and>
     (case split_once (CHR ''_'') v of
        None \<Rightarrow> False
      | Some (prefix, suffix) \<Rightarrow>
          prefix \<noteq> [] \<and> list_all is_ascii_lowercase prefix \<and>
          suffix \<noteq> [] \<and>
          list_all (\<lambda>c. is_ascii_alphanumeric c \<or> c = CHR ''_'' \<or> c = CHR ''-'') suffix)"

definition is_slug :: "string \<Rightarrow> bool" where
  "is_slug v \<longleftrightarrow>
     2 \<le> length v \<and> length v \<le> 63 \<and>
     list_all (\<lambda>seg. seg \<noteq> [] \<and> list_all (\<lambda>c. is_ascii_lowercase c \<or> is_ascii_digit c) seg)
       (split_on (CHR ''-'') v)"

subsection \<open>Tool declarations and the tenant context\<close>

datatype ToolSideEffect = SideEffectNone | Idempotent | CommitOnce

datatype ToolExecution =
    Builtin (integration: string)
  | Https (url: string) (secret_ref: "string option")
  | Local

record ToolDefinition =
  tool_name :: string
  tool_description :: string
  input_schema :: "(string, json) btree_map"
  timeout_ms :: u64
  side_effect :: ToolSideEffect
  execution :: ToolExecution

definition default_tool_timeout_ms :: u64 where
  "default_tool_timeout_ms = 10000"

record TenantContext =
  organization_id :: string
  project_id :: string
  deployment_id :: string
  session_id :: string
  runtime_generation :: u64
  correlation_id :: string

definition context_validate :: "TenantContext \<Rightarrow> unit result" where
  "context_validate c =
     (case find (\<lambda>(_, v). \<not> is_resource_id v)
             [(''organizationId'', organization_id c), (''projectId'', project_id c),
              (''deploymentId'', deployment_id c), (''sessionId'', session_id c)] of
        Some (name, _) \<Rightarrow> Inl (InvalidRequest (name @ '' is not a Calluwu resource ID''))
      | None \<Rightarrow>
          if correlation_id c = [] \<or> length (correlation_id c) > 160
          then Inl (InvalidRequest ''correlationId must contain 1 to 160 bytes'')
          else Inr ())"

lemmas ascii_defs = is_ascii_lowercase_def is_ascii_uppercase_def is_ascii_digit_def
  is_ascii_alphabetic_def is_ascii_alphanumeric_def is_ascii_hexdigit_def

lemmas ident_eval = is_resource_id_def is_slug_def ascii_defs less_eq_char_def

subsection \<open>Facts about the grammar\<close>

lemma split_once_Some:
  "split_once d v = Some (p, q) \<longleftrightarrow> v = p @ d # q \<and> d \<notin> set p"
proof (induction v arbitrary: p)
  case (Cons c cs)
  show ?case by (cases p) (auto simp: Cons.IH)
qed simp

lemma split_once_None: "split_once d v = None \<longleftrightarrow> d \<notin> set v"
  by (induction v) auto

lemma split_on_nonempty [simp]: "split_on d v \<noteq> []"
  by (induction v) (auto split: list.split)

lemma split_on_no_sep: "seg \<in> set (split_on d v) \<Longrightarrow> d \<notin> set seg"
  by (induction v arbitrary: seg) (auto split: list.splits if_splits)

lemma split_on_chars: "(\<Union>seg \<in> set (split_on d v). set seg) = set v - {d}"
proof (induction v)
  case (Cons c cs)
  obtain w ws where "split_on d cs = w # ws" by (cases "split_on d cs") simp_all
  with Cons.IH show ?case by (simp add: insert_Diff_if)
qed simp

text \<open>No segment is empty exactly when no separator stands at an end or next to another one.\<close>

fun separated :: "char \<Rightarrow> bool \<Rightarrow> string \<Rightarrow> bool" where
  "separated d b [] = b"
| "separated d b (c # cs) = (if c = d then b \<and> separated d False cs else separated d True cs)"

lemma split_on_segments:
  "(\<forall>seg \<in> set (split_on d v). seg \<noteq> []) \<longleftrightarrow> separated d False v"
  "(\<forall>seg \<in> set (tl (split_on d v)). seg \<noteq> []) \<longleftrightarrow> separated d True v"
  by (induction v) (auto split: list.splits)

lemma separated_iff:
  "separated d b v \<longleftrightarrow>
     (if v = [] then b
      else (b \<or> hd v \<noteq> d) \<and> last v \<noteq> d \<and> successively (\<lambda>x y. \<not> (x = d \<and> y = d)) v)"
  by (induction v arbitrary: b) (auto simp: successively_Cons)

lemma is_slug_iff:
  "is_slug v \<longleftrightarrow> 2 \<le> length v \<and> length v \<le> 63 \<and>
     (\<forall>c \<in> set v. is_ascii_lowercase c \<or> is_ascii_digit c \<or> c = CHR ''-'') \<and>
     hd v \<noteq> CHR ''-'' \<and> last v \<noteq> CHR ''-'' \<and>
     successively (\<lambda>x y. \<not> (x = CHR ''-'' \<and> y = CHR ''-'')) v"
proof -
  let ?segs = "split_on (CHR ''-'') v" and ?ok = "\<lambda>c. is_ascii_lowercase c \<or> is_ascii_digit c"
  have "(\<forall>seg \<in> set ?segs. \<forall>c \<in> set seg. ?ok c) \<longleftrightarrow> (\<forall>c \<in> set v - {CHR ''-''}. ?ok c)"
    unfolding split_on_chars [of "CHR ''-''" v, symmetric] by blast
  then have "is_slug v \<longleftrightarrow> 2 \<le> length v \<and> length v \<le> 63 \<and>
      separated (CHR ''-'') False v \<and> (\<forall>c \<in> set v - {CHR ''-''}. ?ok c)"
    by (simp only: is_slug_def list_all_iff ball_conj_distrib split_on_segments(1))
  then show ?thesis by (auto simp: separated_iff)
qed

lemma is_resource_id_iff:
  "is_resource_id v \<longleftrightarrow> 8 \<le> length v \<and> length v \<le> 80 \<and>
     (\<exists>p s. v = p @ CHR ''_'' # s \<and> p \<noteq> [] \<and> s \<noteq> [] \<and> list_all is_ascii_lowercase p \<and>
        list_all (\<lambda>c. is_ascii_alphanumeric c \<or> c = CHR ''_'' \<or> c = CHR ''-'') s)"
proof -
  have low: "list_all is_ascii_lowercase p \<Longrightarrow> CHR ''_'' \<notin> set p" for p
    by (auto simp: list_all_iff is_ascii_lowercase_def less_eq_char_def)
  have "is_resource_id v \<longleftrightarrow> 8 \<le> length v \<and> length v \<le> 80 \<and>
     (\<exists>p s. split_once (CHR ''_'') v = Some (p, s) \<and> p \<noteq> [] \<and> s \<noteq> [] \<and> list_all is_ascii_lowercase p \<and>
        list_all (\<lambda>c. is_ascii_alphanumeric c \<or> c = CHR ''_'' \<or> c = CHR ''-'') s)"
    by (auto simp: is_resource_id_def split: option.splits)
  then show ?thesis using low by (auto simp: split_once_Some)
qed

lemma context_validate_ok:
  "context_validate c = Inr () \<longleftrightarrow>
     is_resource_id (organization_id c) \<and> is_resource_id (project_id c) \<and>
     is_resource_id (deployment_id c) \<and> is_resource_id (session_id c) \<and>
     correlation_id c \<noteq> [] \<and> length (correlation_id c) \<le> 160"
  by (auto simp: context_validate_def split: option.splits)

end
