(* ===== verification/Text.thy ===== *)
theory Text
  imports Domain
begin

text \<open>
  The operations of \<open>str\<close> the runtime uses that see characters rather than bytes. A string is its
  UTF-8 byte sequence; \<open>utf8_chars\<close> cuts it into the encodings of its characters, on which
  whitespace, control characters, \<open>trim\<close> and \<open>split_whitespace\<close> are defined.
\<close>

abbreviation byte_of :: "char \<Rightarrow> nat" where
  "byte_of c \<equiv> of_char c"

definition is_continuation :: "char \<Rightarrow> bool" where
  "is_continuation c \<longleftrightarrow> 128 \<le> byte_of c \<and> byte_of c < 192"

text \<open>\<open>chars\<close>: every byte that is not a continuation byte starts a character.\<close>

fun utf8_chars :: "string \<Rightarrow> string list" where
  "utf8_chars [] = []"
| "utf8_chars (c # cs) =
     (case utf8_chars cs of
        (d # ds) # rest \<Rightarrow> if is_continuation d then (c # d # ds) # rest else [c] # (d # ds) # rest
      | rest \<Rightarrow> [c] # rest)"

definition chars_count :: "string \<Rightarrow> nat" where
  "chars_count s = length (utf8_chars s)"

text \<open>\<open>str::from_utf8\<close>: the well-formed sequences of the Unicode standard (Table 3-7).\<close>

definition byte_in :: "nat \<Rightarrow> nat \<Rightarrow> char \<Rightarrow> bool" where
  "byte_in lo hi c \<longleftrightarrow> lo \<le> byte_of c \<and> byte_of c \<le> hi"

fun valid_utf8_char :: "string \<Rightarrow> bool" where
  "valid_utf8_char [a] \<longleftrightarrow> byte_in 0 127 a"
| "valid_utf8_char [a, b] \<longleftrightarrow> byte_in 194 223 a \<and> is_continuation b"
| "valid_utf8_char [a, b, c] \<longleftrightarrow> is_continuation c \<and>
     (byte_in 224 224 a \<and> byte_in 160 191 b \<or> byte_in 225 236 a \<and> is_continuation b \<or>
      byte_in 237 237 a \<and> byte_in 128 159 b \<or> byte_in 238 239 a \<and> is_continuation b)"
| "valid_utf8_char [a, b, c, d] \<longleftrightarrow> is_continuation c \<and> is_continuation d \<and>
     (byte_in 240 240 a \<and> byte_in 144 191 b \<or> byte_in 241 243 a \<and> is_continuation b \<or>
      byte_in 244 244 a \<and> byte_in 128 143 b)"
| "valid_utf8_char _ \<longleftrightarrow> False"

definition valid_utf8 :: "string \<Rightarrow> bool" where
  "valid_utf8 s \<longleftrightarrow> list_all valid_utf8_char (utf8_chars s)"

text \<open>\<open>char::is_whitespace\<close> (the property \<open>White_Space\<close>) and \<open>char::is_control\<close> (category Cc).\<close>

definition char_is_whitespace :: "string \<Rightarrow> bool" where
  "char_is_whitespace ch \<longleftrightarrow>
     (case map byte_of ch of
        [a] \<Rightarrow> 9 \<le> a \<and> a \<le> 13 \<or> a = 32
      | [a, b] \<Rightarrow> a = 194 \<and> (b = 133 \<or> b = 160)
      | [a, b, c] \<Rightarrow>
          a = 225 \<and> b = 154 \<and> c = 128 \<or>
          a = 226 \<and> b = 128 \<and> (128 \<le> c \<and> c \<le> 138 \<or> c = 168 \<or> c = 169 \<or> c = 175) \<or>
          a = 226 \<and> b = 129 \<and> c = 159 \<or>
          a = 227 \<and> b = 128 \<and> c = 128
      | _ \<Rightarrow> False)"

definition char_is_control :: "string \<Rightarrow> bool" where
  "char_is_control ch \<longleftrightarrow>
     (case map byte_of ch of
        [a] \<Rightarrow> a \<le> 31 \<or> a = 127
      | [a, b] \<Rightarrow> a = 194 \<and> 128 \<le> b \<and> b \<le> 159
      | _ \<Rightarrow> False)"

definition trim_start_chars :: "string list \<Rightarrow> string list" where
  "trim_start_chars = dropWhile char_is_whitespace"

definition trim :: "string \<Rightarrow> string" where
  "trim s = concat (rev (trim_start_chars (rev (trim_start_chars (utf8_chars s)))))"

function words_of :: "string list \<Rightarrow> string list" where
  "words_of [] = []"
| "words_of (ch # chs) =
     (if char_is_whitespace ch then words_of chs
      else concat (takeWhile (\<lambda>d. \<not> char_is_whitespace d) (ch # chs)) #
           words_of (dropWhile (\<lambda>d. \<not> char_is_whitespace d) chs))"
  by pat_completeness auto
termination
  by (relation "measure length") (auto simp: length_dropWhile_le less_Suc_eq_le)

definition split_whitespace :: "string \<Rightarrow> string list" where
  "split_whitespace s = words_of (utf8_chars s)"

text \<open>\<open>str::strip_prefix\<close>, \<open>ends_with\<close> and \<open>join\<close>.\<close>

definition strip_prefix :: "string \<Rightarrow> string \<Rightarrow> string option" where
  "strip_prefix p s = (if take (length p) s = p then Some (drop (length p) s) else None)"

fun join_with :: "string \<Rightarrow> string list \<Rightarrow> string" where
  "join_with sep [] = []"
| "join_with sep [w] = w"
| "join_with sep (w # v # ws) = w @ sep @ join_with sep (v # ws)"

lemma concat_utf8_chars [simp]: "concat (utf8_chars s) = s"
  by (induction s) (auto split: list.split)

lemma utf8_chars_nonempty: "ch \<in> set (utf8_chars s) \<Longrightarrow> ch \<noteq> []"
  by (induction s arbitrary: ch) (auto split: list.splits if_splits)

lemma chars_count_le: "chars_count s \<le> length s"
  unfolding chars_count_def by (induction s) (auto split: list.split)

lemma strip_prefix_Some: "strip_prefix p s = Some r \<longleftrightarrow> s = p @ r"
  by (auto simp: strip_prefix_def) (metis append_take_drop_id)

lemma words_of_nonempty:
  "w \<in> set (words_of chs) \<Longrightarrow> (\<forall>ch \<in> set chs. ch \<noteq> []) \<Longrightarrow> w \<noteq> []"
  by (induction chs arbitrary: w rule: words_of.induct)
    (auto split: if_splits dest: set_dropWhileD)

lemma split_whitespace_nonempty: "w \<in> set (split_whitespace s) \<Longrightarrow> w \<noteq> []"
  unfolding split_whitespace_def by (rule words_of_nonempty) (auto dest: utf8_chars_nonempty)

end
