(* ===== verification/Provider.thy ===== *)
theory Provider
  imports Text
begin

text \<open>
  The provider-neutral contracts of \<open>provider.rs\<close>: failures, capabilities, the messages of a
  conversation and the requests and stream items that cross a provider boundary. A stream is the
  list of the items it yields; the token that may cancel it is a function that says at which of
  its polls the cancellation branch is taken.
\<close>

subsection \<open>Failures\<close>

datatype ProviderErrorKind = Transient | Permanent | Cancelled

record ProviderError =
  perr_stage :: string
  perr_kind :: ProviderErrorKind
  perr_message :: string

definition provider_error_cancelled :: "string \<Rightarrow> ProviderError" where
  "provider_error_cancelled st =
     \<lparr>perr_stage = st, perr_kind = Cancelled, perr_message = ''operation cancelled''\<rparr>"

definition is_retryable :: "ProviderError \<Rightarrow> bool" where
  "is_retryable e \<longleftrightarrow> perr_kind e = Transient"

definition runtime_error_of_provider :: "ProviderError \<Rightarrow> RuntimeError" where
  "runtime_error_of_provider e = RuntimeError.Provider (perr_stage e) (perr_message e)"

subsection \<open>Capabilities\<close>

datatype ProviderCapability =
  BatchStt | StreamingStt | StreamingReasoning | StreamingTts | ToolExecution | RealtimeSpeech

fun capability_as_str :: "ProviderCapability \<Rightarrow> string" where
  "capability_as_str BatchStt = ''batch-stt''"
| "capability_as_str StreamingStt = ''streaming-stt''"
| "capability_as_str StreamingReasoning = ''streaming-reasoning''"
| "capability_as_str StreamingTts = ''streaming-tts''"
| "capability_as_str ToolExecution = ''tool-execution''"
| "capability_as_str RealtimeSpeech = ''realtime-speech''"

text \<open>\<open>derive(PartialOrd, Ord)\<close>: capabilities are ordered as they are declared.\<close>

fun capability_rank :: "ProviderCapability \<Rightarrow> nat" where
  "capability_rank BatchStt = 0"
| "capability_rank StreamingStt = 1"
| "capability_rank StreamingReasoning = 2"
| "capability_rank StreamingTts = 3"
| "capability_rank ToolExecution = 4"
| "capability_rank RealtimeSpeech = 5"

lemma capability_rank_inj: "capability_rank a = capability_rank b \<longleftrightarrow> a = b"
  by (cases a; cases b) simp_all

instantiation ProviderCapability :: linorder
begin

definition less_eq_ProviderCapability :: "ProviderCapability \<Rightarrow> ProviderCapability \<Rightarrow> bool" where
  "less_eq_ProviderCapability a b \<longleftrightarrow> capability_rank a \<le> capability_rank b"

definition less_ProviderCapability :: "ProviderCapability \<Rightarrow> ProviderCapability \<Rightarrow> bool" where
  "less_ProviderCapability a b \<longleftrightarrow> capability_rank a < capability_rank b"

instance
  by standard
    (auto simp: less_eq_ProviderCapability_def less_ProviderCapability_def capability_rank_inj)

end

text \<open>A \<open>BTreeSet\<close> is the sorted list of its elements.\<close>

type_synonym 'a btree_set = "'a list"

definition btree_set_extend :: "'a::linorder btree_set \<Rightarrow> 'a btree_set \<Rightarrow> 'a btree_set" where
  "btree_set_extend a b = fold insort_insert b a"

lemma set_btree_set_extend [simp]: "set (btree_set_extend a b) = set a \<union> set b"
  unfolding btree_set_extend_def by (induction b arbitrary: a) (auto simp: set_insort_insert)

lemma sorted_btree_set_extend [simp]: "sorted a \<Longrightarrow> sorted (btree_set_extend a b)"
  unfolding btree_set_extend_def by (induction b arbitrary: a) (auto simp: sorted_insort_insert)

lemma distinct_btree_set_extend [simp]: "distinct a \<Longrightarrow> distinct (btree_set_extend a b)"
  unfolding btree_set_extend_def by (induction b arbitrary: a) (auto simp: distinct_insort_insert)

lemma capability_as_str_inj [simp]: "capability_as_str a = capability_as_str b \<longleftrightarrow> a = b"
  by (cases a; cases b) simp_all

subsection \<open>Requests and stream items\<close>

type_synonym cancellation = "nat \<Rightarrow> bool"
type_synonym 'a provider_stream = "(ProviderError + 'a) list"

text \<open>\<open>Bytes\<close> are words of 8 bits; \<open>bytes_to_string\<close> reads them as a string of the model.\<close>

definition bytes_to_string :: "byte list \<Rightarrow> string" where
  "bytes_to_string bs = map (\<lambda>b. char_of (unat b)) bs"

definition string_to_bytes :: "string \<Rightarrow> byte list" where
  "string_to_bytes s = map (\<lambda>c. of_nat (of_char c)) s"

record AudioInput =
  input_bytes :: "byte list"
  input_sample_rate_hz :: nat

record TranscriptSegment =
  segment_text :: string
  is_final :: bool

datatype ConversationMessage =
    User string
  | Assistant string
  | AssistantToolCall string string json
  | Tool string string json

record ReasoningRequest =
  instructions :: string
  messages :: "ConversationMessage list"

record RequestedToolCall =
  call_id :: string
  call_name :: string
  call_input :: json

datatype ReasoningEvent = Delta string | ToolCall RequestedToolCall | Completed

record SynthesisRequest =
  synthesis_text :: string
  synthesis_voice_id :: string
  synthesis_sample_rate_hz :: nat

datatype RealtimeSpeechEvent = Transcript string | SpeechText string | SpeechAudio "byte list" | SpeechCompleted

record RealtimeSpeechRequest =
  speech_audio :: "byte list"
  speech_instructions :: string
  speech_history :: "ConversationMessage list"

record ToolInvocation =
  inv_call_id :: string
  inv_tool_name :: string
  inv_input :: json
  inv_idempotency_key :: string

end
