(* ===== verification/Tools.thy ===== *)
theory Tools
  imports Provider
begin

text \<open>
  Tool execution (\<open>tool.rs\<close>): the JSON-schema subset that deployments may use, the validation of
  an invocation's input against it, and the coordinator that enforces declaration, bounds,
  concurrency, deadlines and the idempotency ledger. The executor is third-party: its outcome is
  an argument. \<open>ser\<close> is the JSON serializer: the length of the encoding of a value, or its error.

  Nothing panics while the ledger is locked and the semaphore is never closed, so the two
  branches for a poisoned lock and for a closed semaphore have no counterpart here.
\<close>

subsection \<open>Data\<close>

record CoordinatedToolOutput =
  out_value :: json
  out_cached :: bool
  out_side_effect :: ToolSideEffect

datatype ToolError =
    Undeclared
  | MissingIdempotencyKey
  | InvalidInput string
  | AlreadyInFlight
  | CommitOnceUncertain string
  | Timeout
  | Cancelled
  | Provider string
  | LedgerUnavailable
  | LedgerCapacity
  | OutputTooLarge

fun tool_error_to_string :: "ToolError \<Rightarrow> string" where
  "tool_error_to_string Undeclared = ''tool is not declared by this deployment''"
| "tool_error_to_string MissingIdempotencyKey = ''tool invocation requires an idempotency key''"
| "tool_error_to_string (InvalidInput m) = ''tool invocation input does not match its declared schema: '' @ m"
| "tool_error_to_string AlreadyInFlight = ''the same tool invocation is already in flight''"
| "tool_error_to_string (CommitOnceUncertain m) =
     ''commit-once invocation previously ended with an uncertain result: '' @ m"
| "tool_error_to_string Timeout = ''tool invocation timed out''"
| "tool_error_to_string ToolError.Cancelled = ''tool invocation was cancelled''"
| "tool_error_to_string (ToolError.Provider m) = ''tool provider failed: '' @ m"
| "tool_error_to_string LedgerUnavailable = ''tool idempotency ledger is unavailable''"
| "tool_error_to_string LedgerCapacity = ''tool idempotency ledger reached its session bound''"
| "tool_error_to_string OutputTooLarge = ''tool provider output exceeds the session byte bound''"

datatype LedgerEntry = InFlight | Completed json | CommitOnceUncertain string

record ToolCoordinator =
  definitions :: "(string, ToolDefinition) hash_map"
  ledger :: "(string, LedgerEntry) hash_map"
  permits :: usize
  max_ledger_entries :: usize

definition MAX_TOOL_VALUE_BYTES :: usize where
  "MAX_TOOL_VALUE_BYTES = 64 * 1024"

definition MAX_TOOL_LEDGER_ENTRIES :: usize where
  "MAX_TOOL_LEDGER_ENTRIES = 1024"

definition MAX_SCHEMA_DEPTH :: usize where
  "MAX_SCHEMA_DEPTH = 8"

text \<open>\<open>None\<close>: the assertion on the concurrency fails, or the semaphore cannot have so many permits.\<close>

definition with_concurrency :: "ToolDefinition list \<Rightarrow> usize \<Rightarrow> ToolCoordinator option" where
  "with_concurrency defs max_concurrent =
     (if 0 < max_concurrent \<and> max_concurrent \<le> MAX_PERMITS
      then Some \<lparr>definitions = fold (\<lambda>d m. AList.update (tool_name d) d m) defs [],
                 ledger = [], permits = max_concurrent,
                 max_ledger_entries = MAX_TOOL_LEDGER_ENTRIES\<rparr>
      else None)"

subsection \<open>Schemas\<close>

definition ALLOWED_KEYWORDS :: "string list" where
  "ALLOWED_KEYWORDS = [''type'', ''properties'', ''required'', ''additionalProperties'', ''items'',
     ''enum'', ''description'', ''minLength'', ''maxLength'', ''minimum'', ''maximum'']"

definition schema_types :: "string list" where
  "schema_types = [''object'', ''array'', ''string'', ''number'', ''integer'', ''boolean'', ''null'']"

definition schema_keywords_ok :: "(string, json) btree_map \<Rightarrow> string + unit" where
  "schema_keywords_ok schema =
     (case find (\<lambda>k. k \<notin> set ALLOWED_KEYWORDS) (map fst schema) of
        Some keyword \<Rightarrow> Inl (''keyword '' @ keyword @ '' is not supported'')
      | None \<Rightarrow> Inr ())"

definition schema_type_ok :: "(string, json) btree_map \<Rightarrow> string + unit" where
  "schema_type_ok schema =
     (case map_of schema ''type'' of
        None \<Rightarrow> Inr ()
      | Some v \<Rightarrow>
          (case as_str v of
             None \<Rightarrow> Inl ''type must be a string''
           | Some kind \<Rightarrow>
               require (kind \<in> set schema_types) (''type '' @ kind @ '' is not supported'')))"

definition schema_properties :: "(string, json) btree_map \<Rightarrow> string + (string \<times> json) list option" where
  "schema_properties schema =
     (case map_of schema ''properties'' of
        None \<Rightarrow> Inr None
      | Some (JObject ps) \<Rightarrow> Inr (Some ps)
      | Some _ \<Rightarrow> Inl ''properties must be an object'')"

text \<open>The loop over \<open>required\<close>; \<open>unique\<close> is the set of names seen so far.\<close>

fun schema_required_loop :: "(string \<times> json) list option \<Rightarrow> string list \<Rightarrow> json list \<Rightarrow> string + unit" where
  "schema_required_loop properties unique [] = Inr ()"
| "schema_required_loop properties unique (entry # rest) =
     (case as_str entry of
        None \<Rightarrow> Inl ''required entries must be strings''
      | Some name \<Rightarrow>
          if name \<in> set unique then Inl ''required entries must be unique''
          else if (case properties of None \<Rightarrow> True | Some ps \<Rightarrow> map_of ps name = None)
          then Inl (''required property '' @ name @ '' is not declared'')
          else schema_required_loop properties (name # unique) rest)"

definition schema_required_ok ::
  "(string, json) btree_map \<Rightarrow> (string \<times> json) list option \<Rightarrow> string + unit" where
  "schema_required_ok schema properties =
     (case map_of schema ''required'' of
        None \<Rightarrow> Inr ()
      | Some (JArray entries) \<Rightarrow> schema_required_loop properties [] entries
      | Some _ \<Rightarrow> Inl ''required must be an array'')"

definition schema_scalars_ok :: "(string, json) btree_map \<Rightarrow> string + unit" where
  "schema_scalars_ok schema =
     checks
       ([require (case map_of schema ''enum'' of
            None \<Rightarrow> True
          | Some (JArray values) \<Rightarrow> values \<noteq> [] \<and> length values \<le> 128
          | Some _ \<Rightarrow> False) ''enum must contain 1 to 128 values'',
         require (case map_of schema ''description'' of
            None \<Rightarrow> True
          | Some (JString text) \<Rightarrow> length text \<le> 2000
          | Some _ \<Rightarrow> False) ''description must be a string of at most 2,000 bytes''] @
        map (\<lambda>key. require (case map_of schema key of None \<Rightarrow> True | Some v \<Rightarrow> as_u64 v \<noteq> None)
               (key @ '' must be a nonnegative integer'')) [''minLength'', ''maxLength''] @
        map (\<lambda>key. require (case map_of schema key of None \<Rightarrow> True | Some v \<Rightarrow> as_f64 v \<noteq> None)
               (key @ '' must be a finite number'')) [''minimum'', ''maximum''])"

function validate_schema_node :: "(string, json) btree_map \<Rightarrow> nat \<Rightarrow> string + unit" where
  "validate_schema_node schema depth =
     (if depth > MAX_SCHEMA_DEPTH then Inl ''schema nesting exceeds 8 levels''
      else if schema = [] then Inr ()
      else andR (schema_keywords_ok schema) (andR (schema_type_ok schema)
        (case schema_properties schema of
           Inl e \<Rightarrow> Inl e
         | Inr properties \<Rightarrow>
             andR
               (case properties of
                  None \<Rightarrow> Inr ()
                | Some ps \<Rightarrow>
                    if length ps > 128 then Inl ''properties exceeds 128 entries''
                    else each (\<lambda>(name, child).
                      if name = [] \<or> length name > 160 then Inl ''property name is invalid''
                      else case child of
                        JObject c \<Rightarrow> validate_schema_node c (depth + 1)
                      | _ \<Rightarrow> Inl (''property '' @ name @ '' schema must be an object'')) ps)
               (andR (schema_required_ok schema properties)
                 (andR
                   (require (case map_of schema ''additionalProperties'' of
                               None \<Rightarrow> True | Some v \<Rightarrow> is_boolean v)
                      ''additionalProperties must be boolean'')
                   (andR
                     (case map_of schema ''items'' of
                        None \<Rightarrow> Inr ()
                      | Some (JObject items) \<Rightarrow> validate_schema_node items (depth + 1)
                      | Some _ \<Rightarrow> Inl ''items must be an object schema'')
                     (schema_scalars_ok schema)))))))"
  by pat_completeness auto
termination
  by (relation "measure (\<lambda>(_, depth). MAX_SCHEMA_DEPTH + 1 - depth)") auto

definition serialized_size :: "serializer \<Rightarrow> json \<Rightarrow> ToolError + nat" where
  "serialized_size ser v =
     (case ser v of
        Inr n \<Rightarrow> Inr n
      | Inl _ \<Rightarrow> Inl (InvalidInput ''tool value is not serializable''))"

definition validate_input_schema_contract ::
  "serializer \<Rightarrow> (string, json) btree_map \<Rightarrow> unit result" where
  "validate_input_schema_contract ser schema =
     (case ser (JObject schema) of
        Inl e \<Rightarrow> Inl (RuntimeError.Json e)
      | Inr n \<Rightarrow>
          if n > MAX_TOOL_VALUE_BYTES then Inl (InvalidRequest ''tool inputSchema exceeds 64 KiB'')
          else map_err (\<lambda>m. InvalidRequest (''unsupported tool inputSchema: '' @ m))
                 (validate_schema_node schema 0))"

subsection \<open>Instances\<close>

definition instance_type_ok :: "string \<Rightarrow> json \<Rightarrow> bool" where
  "instance_type_ok kind v \<longleftrightarrow>
     (if kind = ''object'' then is_object v
      else if kind = ''array'' then is_array v
      else if kind = ''string'' then is_string v
      else if kind = ''number'' then is_number v
      else if kind = ''integer'' then as_i64 v \<noteq> None \<or> as_u64 v \<noteq> None
      else if kind = ''boolean'' then is_boolean v
      else if kind = ''null'' then v = JNull
      else False)"

definition instance_head_ok :: "(string, json) btree_map \<Rightarrow> json \<Rightarrow> string + unit" where
  "instance_head_ok schema v =
     andR
       (require (case map_of schema ''enum'' of Some (JArray values) \<Rightarrow> v \<in> set values | _ \<Rightarrow> True)
          ''value is not in the declared enum'')
       (case map_of schema ''type'' of
          Some (JString kind) \<Rightarrow> require (instance_type_ok kind v) (''expected '' @ kind)
        | _ \<Rightarrow> Inr ())"

definition property_schemas :: "(string, json) btree_map \<Rightarrow> (string \<times> json) list option" where
  "property_schemas schema =
     (case map_of schema ''properties'' of Some v \<Rightarrow> as_object v | None \<Rightarrow> None)"

definition declared_property :: "(string, json) btree_map \<Rightarrow> string \<Rightarrow> bool" where
  "declared_property schema name \<longleftrightarrow>
     (case property_schemas schema of None \<Rightarrow> False | Some ps \<Rightarrow> map_of ps name \<noteq> None)"

text \<open>Required properties are present; with \<open>additionalProperties: false\<close> no other one is.\<close>

definition instance_object_ok :: "(string, json) btree_map \<Rightarrow> (string \<times> json) list \<Rightarrow> string + unit" where
  "instance_object_ok schema obj =
     andR
       (case map_of schema ''required'' of
          Some (JArray required) \<Rightarrow>
            each (\<lambda>name. require (map_of obj name \<noteq> None) (''missing required property '' @ name))
              (List.map_filter as_str required)
        | _ \<Rightarrow> Inr ())
       (if map_of schema ''additionalProperties'' = Some (JBool False)
        then each (\<lambda>name. require (declared_property schema name) (''unexpected property '' @ name))
               (map fst obj)
        else Inr ())"

definition below_minimum :: "('a \<Rightarrow> 'a \<Rightarrow> bool) \<Rightarrow> 'a option \<Rightarrow> 'a \<Rightarrow> bool" where
  "below_minimum lt m x \<longleftrightarrow> (case m of None \<Rightarrow> False | Some b \<Rightarrow> lt x b)"

definition keyword :: "(json \<Rightarrow> 'a option) \<Rightarrow> (string, json) btree_map \<Rightarrow> string \<Rightarrow> 'a option" where
  "keyword as_a schema key = (case map_of schema key of None \<Rightarrow> None | Some v \<Rightarrow> as_a v)"

definition instance_scalar_ok :: "(string, json) btree_map \<Rightarrow> json \<Rightarrow> string + unit" where
  "instance_scalar_ok schema v =
     andR
       (case as_str v of
          None \<Rightarrow> Inr ()
        | Some text \<Rightarrow>
            let n = chars_count text in
            require (\<not> below_minimum (<) (keyword as_u64 schema ''minLength'') n \<and>
                     \<not> below_minimum (>) (keyword as_u64 schema ''maxLength'') n)
              ''string length is outside declared bounds'')
       (case as_f64 v of
          None \<Rightarrow> Inr ()
        | Some x \<Rightarrow>
            require (\<not> below_minimum f64_less (keyword as_f64 schema ''minimum'') x \<and>
                     \<not> below_minimum (\<lambda>a b. f64_less b a) (keyword as_f64 schema ''maximum'') x)
              ''number is outside declared bounds'')"

function validate_instance :: "(string, json) btree_map \<Rightarrow> json \<Rightarrow> nat \<Rightarrow> string + unit" where
  "validate_instance schema v depth =
     (if schema = [] then Inr ()
      else if depth > MAX_SCHEMA_DEPTH then Inl ''input nesting exceeds schema bound''
      else andR (instance_head_ok schema v)
       (andR
         (case v of
            JObject obj \<Rightarrow>
              andR (instance_object_ok schema obj)
                (case property_schemas schema of
                   None \<Rightarrow> Inr ()
                 | Some ps \<Rightarrow>
                     each (\<lambda>(name, w).
                       case map_of ps name of
                         Some (JObject child) \<Rightarrow> validate_instance child w (depth + 1)
                       | _ \<Rightarrow> Inr ()) obj)
          | JArray xs \<Rightarrow>
              (case map_of schema ''items'' of
                 Some (JObject items) \<Rightarrow> each (\<lambda>w. validate_instance items w (depth + 1)) xs
               | _ \<Rightarrow> Inr ())
          | _ \<Rightarrow> Inr ())
         (instance_scalar_ok schema v)))"
  by pat_completeness auto
termination
  by (relation "measure (\<lambda>(_, _, depth). MAX_SCHEMA_DEPTH + 1 - depth)") auto

declare validate_schema_node.simps [simp del] validate_instance.simps [simp del]

definition validate_tool_input :: "(string, json) btree_map \<Rightarrow> json \<Rightarrow> ToolError + unit" where
  "validate_tool_input schema v = map_err InvalidInput (validate_instance schema v 0)"

subsection \<open>The coordinator\<close>

definition execute_check ::
  "serializer \<Rightarrow> ToolCoordinator \<Rightarrow> ToolInvocation \<Rightarrow> ToolError + ToolDefinition" where
  "execute_check ser c iv =
     (case map_of (definitions c) (inv_tool_name iv) of
        None \<Rightarrow> Inl Undeclared
      | Some d \<Rightarrow>
          if inv_idempotency_key iv = [] \<or> length (inv_idempotency_key iv) > 200
          then Inl MissingIdempotencyKey
          else if inv_call_id iv = [] \<or> length (inv_call_id iv) > 160 \<or> length (inv_tool_name iv) > 64
          then Inl (InvalidInput ''tool call identifiers or input exceed supported bounds'')
          else case serialized_size ser (inv_input iv) of
            Inl e \<Rightarrow> Inl e
          | Inr n \<Rightarrow>
              if n > MAX_TOOL_VALUE_BYTES
              then Inl (InvalidInput ''tool call identifiers or input exceed supported bounds'')
              else andR (validate_tool_input (input_schema d) (inv_input iv)) (Inr d))"

definition ledger_key_of :: "ToolInvocation \<Rightarrow> string" where
  "ledger_key_of iv = inv_tool_name iv @ '':'' @ inv_idempotency_key iv"

text \<open>
  The locked section before the executor runs. \<open>Some r\<close>: the call returns \<open>r\<close> at once (and its
  permit is released by the caller below); \<open>None\<close>: the key is now in flight.
\<close>

definition ledger_admit ::
  "ToolCoordinator \<Rightarrow> ToolInvocation \<Rightarrow> ToolDefinition \<Rightarrow>
   (ToolError + CoordinatedToolOutput) option \<times> ToolCoordinator" where
  "ledger_admit c iv d =
     (case map_of (ledger c) (ledger_key_of iv) of
        Some InFlight \<Rightarrow> (Some (Inl AlreadyInFlight), c)
      | Some (LedgerEntry.Completed v) \<Rightarrow>
          (Some (Inr \<lparr>out_value = v, out_cached = True, out_side_effect = side_effect d\<rparr>), c)
      | Some (LedgerEntry.CommitOnceUncertain m) \<Rightarrow> (Some (Inl (ToolError.CommitOnceUncertain m)), c)
      | None \<Rightarrow>
          if length (ledger c) \<ge> max_ledger_entries c then (Some (Inl LedgerCapacity), c)
          else (None, c\<lparr>ledger := AList.update (ledger_key_of iv) InFlight (ledger c)\<rparr>))"

text \<open>How the \<open>select!\<close> over the cancellation, the deadline and the executor ends.\<close>

datatype tool_outcome =
    ExecCancelled
  | ExecReturned "ProviderError + json"
  | ExecTimedOut

text \<open>\<open>Inl e\<close>: the \<open>?\<close> on the size of the output returns before the ledger is updated.\<close>

definition classify_outcome ::
  "serializer \<Rightarrow> tool_outcome \<Rightarrow> ToolError + (ToolError + json)" where
  "classify_outcome ser r =
     (case r of
        ExecCancelled \<Rightarrow> Inr (Inl ToolError.Cancelled)
      | ExecReturned (Inr v) \<Rightarrow>
          (case serialized_size ser v of
             Inl e \<Rightarrow> Inl e
           | Inr n \<Rightarrow> Inr (if n > MAX_TOOL_VALUE_BYTES then Inl OutputTooLarge else Inr v))
      | ExecReturned (Inl e) \<Rightarrow>
          Inr (Inl (if perr_kind e = ProviderErrorKind.Cancelled then ToolError.Cancelled
                    else ToolError.Provider (perr_message e)))
      | ExecTimedOut \<Rightarrow> Inr (Inl Timeout))"

definition release_permit :: "ToolCoordinator \<Rightarrow> ToolCoordinator" where
  "release_permit c = c\<lparr>permits := Suc (permits c)\<rparr>"

definition execute_finish ::
  "serializer \<Rightarrow> ToolCoordinator \<Rightarrow> string \<Rightarrow> ToolDefinition \<Rightarrow> tool_outcome \<Rightarrow>
   (ToolError + CoordinatedToolOutput) \<times> ToolCoordinator" where
  "execute_finish ser c key d r =
     (let c = release_permit c in
      case classify_outcome ser r of
        Inl e \<Rightarrow> (Inl e, c)
      | Inr (Inr v) \<Rightarrow>
          (Inr \<lparr>out_value = v, out_cached = False, out_side_effect = side_effect d\<rparr>,
           c\<lparr>ledger := AList.update key (LedgerEntry.Completed v) (ledger c)\<rparr>)
      | Inr (Inl e) \<Rightarrow>
          (Inl e,
           if side_effect d = CommitOnce
           then c\<lparr>ledger := AList.update key
                  (LedgerEntry.CommitOnceUncertain (tool_error_to_string e)) (ledger c)\<rparr>
           else c\<lparr>ledger := AList.delete key (ledger c)\<rparr>))"

text \<open>
  From the permit to the executor. \<open>None\<close>: the call waits for a permit. \<open>Some (Some r, c)\<close>: it
  returned \<open>r\<close>. \<open>Some (None, c)\<close>: the executor has been called.
\<close>

definition execute_admit ::
  "ToolCoordinator \<Rightarrow> ToolInvocation \<Rightarrow> ToolDefinition \<Rightarrow> bool \<Rightarrow>
   ((ToolError + CoordinatedToolOutput) option \<times> ToolCoordinator) option" where
  "execute_admit c iv d cancelled =
     (if cancelled then Some (Some (Inl ToolError.Cancelled), c)
      else if permits c = 0 then None
      else case ledger_admit (c\<lparr>permits := permits c - 1\<rparr>) iv d of
        (Some r, c') \<Rightarrow> Some (Some r, release_permit c')
      | (None, c') \<Rightarrow> Some (None, c'))"

text \<open>The whole call, when no other call of the coordinator interleaves with it.\<close>

definition execute ::
  "serializer \<Rightarrow> ToolCoordinator \<Rightarrow> ToolInvocation \<Rightarrow> bool \<Rightarrow> (ToolInvocation \<Rightarrow> tool_outcome) \<Rightarrow>
   ((ToolError + CoordinatedToolOutput) \<times> ToolCoordinator) option" where
  "execute ser c iv cancelled executor =
     (case execute_check ser c iv of
        Inl e \<Rightarrow> Some (Inl e, c)
      | Inr d \<Rightarrow>
          (case execute_admit c iv d cancelled of
             None \<Rightarrow> None
           | Some (Some r, c') \<Rightarrow> Some (r, c')
           | Some (None, c') \<Rightarrow> Some (execute_finish ser c' (ledger_key_of iv) d (executor iv))))"

subsection \<open>Concurrent calls\<close>

text \<open>
  Several calls share a coordinator. A call waits for a permit (\<open>tw_waiting\<close>), runs its executor
  (\<open>tw_running\<close>) and returns (\<open>tw_returned\<close>); its future may also be dropped at an await point,
  which releases the permit and nothing else. \<open>tw_started\<close> logs the executor calls and
  \<open>tw_completed\<close> the keys whose executor succeeded.
\<close>

record tool_call =
  tc_inv :: ToolInvocation
  tc_def :: ToolDefinition

record tool_world =
  tw_coordinator :: ToolCoordinator
  tw_waiting :: "tool_call list"
  tw_running :: "tool_call list"
  tw_returned :: "(ToolInvocation \<times> (ToolError + CoordinatedToolOutput)) list"
  tw_started :: "tool_call list"
  tw_completed :: "string list"

definition tool_world_init :: "ToolCoordinator \<Rightarrow> tool_world" where
  "tool_world_init c = \<lparr>tw_coordinator = c, tw_waiting = [], tw_running = [], tw_returned = [],
     tw_started = [], tw_completed = []\<rparr>"

definition tc_key :: "tool_call \<Rightarrow> string" where
  "tc_key t = ledger_key_of (tc_inv t)"

definition drop_nth :: "nat \<Rightarrow> 'a list \<Rightarrow> 'a list" where
  "drop_nth i xs = take i xs @ drop (Suc i) xs"

datatype tool_cmd =
    Invoke ToolInvocation
  | Admit nat bool
  | Finish nat tool_outcome
  | DropWaiting nat
  | DropRunning nat

fun tool_step :: "serializer \<Rightarrow> tool_world \<Rightarrow> tool_cmd \<Rightarrow> tool_world option" where
  "tool_step ser w (Invoke iv) =
     Some (case execute_check ser (tw_coordinator w) iv of
        Inl e \<Rightarrow> w\<lparr>tw_returned := tw_returned w @ [(iv, Inl e)]\<rparr>
      | Inr d \<Rightarrow> w\<lparr>tw_waiting := tw_waiting w @ [\<lparr>tc_inv = iv, tc_def = d\<rparr>]\<rparr>)"
| "tool_step ser w (Admit i cancelled) =
     (if i < length (tw_waiting w) then
        let t = tw_waiting w ! i; w = w\<lparr>tw_waiting := drop_nth i (tw_waiting w)\<rparr> in
        case execute_admit (tw_coordinator w) (tc_inv t) (tc_def t) cancelled of
          None \<Rightarrow> None
        | Some (Some r, c) \<Rightarrow> Some (w\<lparr>tw_coordinator := c, tw_returned := tw_returned w @ [(tc_inv t, r)]\<rparr>)
        | Some (None, c) \<Rightarrow> Some (w\<lparr>tw_coordinator := c, tw_running := tw_running w @ [t],
                                    tw_started := tw_started w @ [t]\<rparr>)
      else None)"
| "tool_step ser w (Finish i r) =
     (if i < length (tw_running w) then
        let t = tw_running w ! i;
            (result, c) = execute_finish ser (tw_coordinator w) (tc_key t) (tc_def t) r in
        Some (w\<lparr>tw_running := drop_nth i (tw_running w), tw_coordinator := c,
                tw_returned := tw_returned w @ [(tc_inv t, result)],
                tw_completed := tw_completed w @ (case result of Inl _ \<Rightarrow> [] | Inr _ \<Rightarrow> [tc_key t])\<rparr>)
      else None)"
| "tool_step ser w (DropWaiting i) =
     (if i < length (tw_waiting w) then Some (w\<lparr>tw_waiting := drop_nth i (tw_waiting w)\<rparr>) else None)"
| "tool_step ser w (DropRunning i) =
     (if i < length (tw_running w)
      then Some (w\<lparr>tw_running := drop_nth i (tw_running w),
                   tw_coordinator := release_permit (tw_coordinator w)\<rparr>)
      else None)"

inductive tool_reachable :: "serializer \<Rightarrow> ToolCoordinator \<Rightarrow> tool_world \<Rightarrow> bool"
  for ser c where
  init: "tool_reachable ser c (tool_world_init c)"
| step: "tool_reachable ser c w \<Longrightarrow> tool_step ser w cmd = Some w' \<Longrightarrow> tool_reachable ser c w'"

subsection \<open>The ledger invariant\<close>

text \<open>
  Three parts, over the lookup function \<open>l\<close> of the ledger: calls that run hold distinct keys, all
  in flight; the keys that completed are recorded as such; and every commit-once call that ever
  started keeps its entry, at most one call having started per key.
\<close>

definition is_commit :: "tool_call \<Rightarrow> bool" where
  "is_commit t \<longleftrightarrow> side_effect (tc_def t) = CommitOnce"

definition running_ok :: "(string \<rightharpoonup> LedgerEntry) \<Rightarrow> tool_call list \<Rightarrow> bool" where
  "running_ok l run \<longleftrightarrow> distinct (map tc_key run) \<and> (\<forall>t \<in> set run. l (tc_key t) = Some InFlight)"

definition completed_ok :: "(string \<rightharpoonup> LedgerEntry) \<Rightarrow> string list \<Rightarrow> bool" where
  "completed_ok l ks \<longleftrightarrow> distinct ks \<and> (\<forall>k \<in> set ks. \<exists>v. l k = Some (LedgerEntry.Completed v))"

definition commit_ok :: "(string \<rightharpoonup> LedgerEntry) \<Rightarrow> tool_call list \<Rightarrow> tool_call list \<Rightarrow> bool" where
  "commit_ok l run started \<longleftrightarrow>
     distinct (map tc_key (filter is_commit started)) \<and>
     (\<forall>t \<in> set started. is_commit t \<longrightarrow> l (tc_key t) \<noteq> None) \<and>
     (\<forall>t \<in> set started. \<forall>u \<in> set run. is_commit t \<longrightarrow> tc_key u = tc_key t \<longrightarrow> is_commit u)"

definition tool_inv :: "nat \<Rightarrow> tool_world \<Rightarrow> bool" where
  "tool_inv n w \<longleftrightarrow>
     (let c = tw_coordinator w; l = map_of (ledger c) in
      permits c + length (tw_running w) = n \<and>
      hash_wf (ledger c) \<and> length (ledger c) \<le> max_ledger_entries c \<and>
      max_ledger_entries c = MAX_TOOL_LEDGER_ENTRIES \<and>
      running_ok l (tw_running w) \<and> completed_ok l (tw_completed w) \<and>
      commit_ok l (tw_running w) (tw_started w))"

lemma parts_start:
  assumes "l (tc_key t) = None" "running_ok l run" "completed_ok l ks" "commit_ok l run started"
  shows "running_ok (l(tc_key t \<mapsto> InFlight)) (run @ [t]) \<and> completed_ok (l(tc_key t \<mapsto> InFlight)) ks \<and>
    commit_ok (l(tc_key t \<mapsto> InFlight)) (run @ [t]) (started @ [t])"
proof (intro conjI)
  have run: "u \<in> set run \<Longrightarrow> tc_key u \<noteq> tc_key t" for u using assms(1,2) by (auto simp: running_ok_def)
  have st: "u \<in> set started \<Longrightarrow> is_commit u \<Longrightarrow> tc_key u \<noteq> tc_key t" for u
    using assms(1,4) unfolding commit_ok_def by fastforce
  show "running_ok (l(tc_key t \<mapsto> InFlight)) (run @ [t])"
    using run assms(2) by (force simp: running_ok_def)
  show "completed_ok (l(tc_key t \<mapsto> InFlight)) ks" using assms(1,3) by (force simp: completed_ok_def)
  have "distinct (map tc_key (filter is_commit (started @ [t])))"
    using st assms(4) unfolding commit_ok_def by force
  then show "commit_ok (l(tc_key t \<mapsto> InFlight)) (run @ [t]) (started @ [t])"
    using run st assms(4) unfolding commit_ok_def by (force simp del: filter_append)
qed

lemma parts_finish:
  assumes "run = as @ t # bs" "\<And>k. k \<noteq> tc_key t \<Longrightarrow> l' k = l k"
    and "is_commit t \<Longrightarrow> l' (tc_key t) \<noteq> None"
    and "ok \<Longrightarrow> \<exists>v. l' (tc_key t) = Some (LedgerEntry.Completed v)"
    and "running_ok l run" "completed_ok l ks" "commit_ok l run started"
  shows "running_ok l' (as @ bs) \<and> completed_ok l' (ks @ (if ok then [tc_key t] else [])) \<and>
    commit_ok l' (as @ bs) started"
proof (intro conjI)
  have run: "u \<in> set (as @ bs) \<Longrightarrow> tc_key u \<noteq> tc_key t" for u
    using assms(1,5) by (auto simp: running_ok_def image_iff; metis)
  have "l (tc_key t) = Some InFlight" using assms(1,5) by (simp add: running_ok_def)
  then have ks: "tc_key t \<notin> set ks" using assms(6) by (auto simp: completed_ok_def)
  show "running_ok l' (as @ bs)"
    using run assms(1,2,5) by (auto simp: running_ok_def)
  have "l' k = l k" if "k \<in> set ks" for k using that ks assms(2) by metis
  then show "completed_ok l' (ks @ (if ok then [tc_key t] else []))"
    using ks assms(4,6) by (auto simp: completed_ok_def)
  have "is_commit u \<Longrightarrow> u \<in> set started \<Longrightarrow> l' (tc_key u) \<noteq> None" for u
    using assms(1,2,3,7) unfolding commit_ok_def by (cases "tc_key u = tc_key t") auto
  then show "commit_ok l' (as @ bs) started" using assms(1,7) unfolding commit_ok_def by auto
qed

lemma parts_drop:
  assumes "run = as @ t # bs" "running_ok l run" "commit_ok l run started"
  shows "running_ok l (as @ bs) \<and> commit_ok l (as @ bs) started"
  using assms unfolding running_ok_def commit_ok_def by auto

lemma drop_nth_split:
  assumes "i < length xs"
  obtains as bs where "xs = as @ xs ! i # bs" "drop_nth i xs = as @ bs"
  using id_take_nth_drop [OF assms] by (simp add: drop_nth_def that)

lemma execute_admit_returned:
  "execute_admit c iv d cancelled = Some (Some r, c') \<Longrightarrow> c' = c"
  by (auto simp: execute_admit_def ledger_admit_def release_permit_def
      split: if_splits option.splits LedgerEntry.splits)

lemma execute_admit_started:
  assumes "execute_admit c iv d cancelled = Some (None, c')"
  shows "0 < permits c \<and> map_of (ledger c) (ledger_key_of iv) = None
    \<and> length (ledger c) < max_ledger_entries c
    \<and> c' = c\<lparr>permits := permits c - 1, ledger := AList.update (ledger_key_of iv) InFlight (ledger c)\<rparr>"
  using assms
  by (auto simp: execute_admit_def ledger_admit_def split: if_splits option.splits LedgerEntry.splits)

lemma execute_finish_ledger:
  assumes f: "execute_finish ser c key d r = (result, c')" and wf: "hash_wf (ledger c)"
    and fl: "map_of (ledger c) key = Some InFlight"
  shows "hash_wf (ledger c') \<and> length (ledger c') \<le> length (ledger c) \<and>
    permits c' = Suc (permits c) \<and> max_ledger_entries c' = max_ledger_entries c \<and>
    (\<forall>k. k \<noteq> key \<longrightarrow> map_of (ledger c') k = map_of (ledger c) k) \<and>
    (\<forall>out. result = Inr out \<longrightarrow> map_of (ledger c') key = Some (LedgerEntry.Completed (out_value out))) \<and>
    (side_effect d = CommitOnce \<longrightarrow> map_of (ledger c') key \<noteq> None)"
  using f wf fl
  by (auto simp: execute_finish_def release_permit_def Let_def update_conv' delete_conv'
      hash.invar_insert hash.invar_remove hash.len_insert hash.len_remove_le
      split: sum.splits if_splits)

lemma tool_inv_init:
  "with_concurrency defs n = Some c \<Longrightarrow> tool_inv n (tool_world_init c)"
  by (auto simp: with_concurrency_def tool_inv_def tool_world_init_def hash_wf_def Let_def
      running_ok_def completed_ok_def commit_ok_def split: if_splits)

lemma tool_inv_admit:
  assumes inv: "tool_inv n w" and s: "tool_step ser w (Admit i cancelled) = Some w'"
  shows "tool_inv n w'"
proof -
  let ?c = "tw_coordinator w" and ?t = "tw_waiting w ! i"
  have i: "i < length (tw_waiting w)" using s by (simp split: if_splits)
  show ?thesis
  proof (cases "execute_admit ?c (tc_inv ?t) (tc_def ?t) cancelled")
    case None
    then show ?thesis using s i by (simp add: Let_def)
  next
    case (Some rc)
    obtain r c where rc: "rc = (r, c)" by (cases rc)
    show ?thesis
    proof (cases r)
      case (Some res)
      with rc \<open>execute_admit _ _ _ _ = _\<close> have "c = ?c" using execute_admit_returned by fast
      then show ?thesis using s i rc Some \<open>execute_admit _ _ _ _ = _\<close> inv
        by (auto simp: Let_def tool_inv_def)
    next
      case None
      with rc \<open>execute_admit _ _ _ _ = _\<close>
      have a: "0 < permits ?c" "map_of (ledger ?c) (tc_key ?t) = None"
          "length (ledger ?c) < max_ledger_entries ?c"
        and c: "c = ?c\<lparr>permits := permits ?c - 1, ledger := AList.update (tc_key ?t) InFlight (ledger ?c)\<rparr>"
        using execute_admit_started [of ?c "tc_inv ?t" "tc_def ?t" cancelled c]
        by (simp_all add: tc_key_def)
      have w': "w' = w\<lparr>tw_waiting := drop_nth i (tw_waiting w), tw_coordinator := c,
          tw_running := tw_running w @ [?t], tw_started := tw_started w @ [?t]\<rparr>"
        using s i rc None \<open>execute_admit _ _ _ _ = _\<close> by (auto simp: Let_def)
      from inv a show ?thesis
        unfolding w' c
        using parts_start [of "map_of (ledger ?c)" ?t "tw_running w" "tw_completed w" "tw_started w"]
        by (simp add: tool_inv_def Let_def update_conv' hash.invar_insert hash.len_insert)
    qed
  qed
qed

lemma tool_inv_finish:
  assumes inv: "tool_inv n w" and s: "tool_step ser w (Finish i r) = Some w'"
  shows "tool_inv n w'"
proof -
  let ?c = "tw_coordinator w" and ?t = "tw_running w ! i" and ?rest = "drop_nth i (tw_running w)"
  have i: "i < length (tw_running w)" using s by (simp split: if_splits)
  obtain res c where f: "execute_finish ser ?c (tc_key ?t) (tc_def ?t) r = (res, c)" by fastforce
  have w': "w' = w\<lparr>tw_running := ?rest, tw_coordinator := c,
      tw_returned := tw_returned w @ [(tc_inv ?t, res)],
      tw_completed := tw_completed w @ (case res of Inl _ \<Rightarrow> [] | Inr _ \<Rightarrow> [tc_key ?t])\<rparr>"
    using s i f by (auto simp: Let_def)
  obtain as bs where split: "tw_running w = as @ ?t # bs" "?rest = as @ bs"
    using i by (rule drop_nth_split)
  have "?t \<in> set (tw_running w)" using i by simp
  then have fl: "map_of (ledger ?c) (tc_key ?t) = Some InFlight" and wf: "hash_wf (ledger ?c)"
    using inv by (simp_all add: tool_inv_def running_ok_def Let_def)
  note led = execute_finish_ledger [OF f wf fl]
  have "running_ok (map_of (ledger c)) ?rest \<and>
      completed_ok (map_of (ledger c)) (tw_completed w @ (if isl res then [] else [tc_key ?t])) \<and>
      commit_ok (map_of (ledger c)) ?rest (tw_started w)"
    unfolding split(2) if_not_P [symmetric]
    using parts_finish [OF split(1), of "map_of (ledger c)" "map_of (ledger ?c)" "\<not> isl res"
        "tw_completed w" "tw_started w"] inv led
    by (cases res) (simp_all add: tool_inv_def Let_def is_commit_def)
  moreover have "length (tw_running w) = Suc (length ?rest)"
    using i by (simp add: drop_nth_def)
  moreover have "tw_completed w' = tw_completed w @ (if isl res then [] else [tc_key ?t])"
    by (cases res) (simp_all add: w')
  ultimately show ?thesis using inv led by (simp add: tool_inv_def Let_def w')
qed

lemma tool_inv_step: "tool_inv n w \<Longrightarrow> tool_step ser w cmd = Some w' \<Longrightarrow> tool_inv n w'"
proof (cases cmd)
  case (DropRunning i)
  assume inv: "tool_inv n w" and s: "tool_step ser w cmd = Some w'"
  have i: "i < length (tw_running w)"
    and w': "w' = w\<lparr>tw_running := drop_nth i (tw_running w),
      tw_coordinator := release_permit (tw_coordinator w)\<rparr>"
    using s DropRunning by (auto split: if_splits)
  obtain as bs where split: "tw_running w = as @ tw_running w ! i # bs"
    "drop_nth i (tw_running w) = as @ bs" using i by (rule drop_nth_split)
  have "length (tw_running w) = Suc (length (drop_nth i (tw_running w)))"
    using i by (simp add: drop_nth_def)
  with inv show ?thesis
    using parts_drop [OF split(1), of "map_of (ledger (tw_coordinator w))" "tw_started w"]
    by (simp add: split(2) w' tool_inv_def Let_def release_permit_def)
next
  case (Admit i b)
  then show "tool_inv n w \<Longrightarrow> tool_step ser w cmd = Some w' \<Longrightarrow> tool_inv n w'" using tool_inv_admit by fast
next
  case (Finish i r)
  then show "tool_inv n w \<Longrightarrow> tool_step ser w cmd = Some w' \<Longrightarrow> tool_inv n w'" using tool_inv_finish by fast
qed (auto simp: tool_inv_def Let_def split: sum.splits if_splits)

lemma tool_run_reachable:
  "foldl (\<lambda>w cmd. Option.bind w (\<lambda>w. tool_step ser w cmd)) (Some (tool_world_init c)) cmds = Some w \<Longrightarrow>
   tool_reachable ser c w"
proof (induction cmds arbitrary: w rule: rev_induct)
  case Nil
  then show ?case by (auto intro: tool_reachable.init)
next
  case (snoc cmd cmds)
  then obtain v where "tool_reachable ser c v" "tool_step ser v cmd = Some w"
    by (auto simp: Option.bind_eq_Some_conv)
  then show ?case by (rule tool_reachable.step)
qed

lemma tool_reachable_inv:
  assumes "tool_reachable ser c w" "with_concurrency defs n = Some c"
  shows "tool_inv n w"
  using assms by (induction rule: tool_reachable.induct) (auto intro: tool_inv_init tool_inv_step)

subsection \<open>Schemas and instances\<close>

lemma schema_node_property:
  assumes "validate_schema_node schema d = Inr ()" "property_schemas schema = Some ps"
    "map_of ps name = Some (JObject child)"
  shows "validate_schema_node child (d + 1) = Inr ()"
proof -
  have nonempty: "schema \<noteq> []" and props: "map_of schema ''properties'' = Some (JObject ps)"
    using assms(2) by (auto simp: property_schemas_def split: option.splits)
  have mem: "(name, JObject child) \<in> set ps" using assms(3) by (rule map_of_SomeD)
  show ?thesis
    using assms(1) nonempty mem
    by (subst (asm) validate_schema_node.simps)
      (auto simp: schema_properties_def props split: if_splits dest: bspec)
qed

lemma schema_node_items:
  assumes "validate_schema_node schema d = Inr ()" "map_of schema ''items'' = Some (JObject items)"
  shows "validate_schema_node items (d + 1) = Inr ()"
proof -
  have "schema \<noteq> []" using assms(2) by auto
  with assms show ?thesis
    by (subst (asm) validate_schema_node.simps) (auto split: if_splits sum.splits)
qed

lemma schema_node_depth: "validate_schema_node schema d = Inr () \<Longrightarrow> d \<le> MAX_SCHEMA_DEPTH"
  by (subst (asm) validate_schema_node.simps) (auto split: if_splits)

abbreviation depth_error :: string where
  "depth_error \<equiv> ''input nesting exceeds schema bound''"

lemma local_checks_no_depth_error:
  "instance_head_ok schema v \<noteq> Inl depth_error"
  "instance_object_ok schema obj \<noteq> Inl depth_error"
  "instance_scalar_ok schema v \<noteq> Inl depth_error"
  by (auto simp: instance_head_ok_def instance_object_ok_def instance_scalar_ok_def Let_def
      split: option.splits json.splits if_splits dest!: each_Inl)

lemma instance_depth:
  "validate_schema_node schema d = Inr () \<Longrightarrow> validate_instance schema v d \<noteq> Inl depth_error"
proof (induction schema v d rule: validate_instance.induct)
  case (1 schema v d)
  show ?case
  proof (cases "schema = []")
    case True
    then show ?thesis by (simp add: validate_instance.simps)
  next
    case False
    have d: "\<not> d > MAX_SCHEMA_DEPTH" using schema_node_depth [OF "1.prems"] by simp
    have obj: "validate_instance child w (d + 1) \<noteq> Inl depth_error"
      if "v = JObject ob" "property_schemas schema = Some ps" "(name, w) \<in> set ob"
        "map_of ps name = Some (JObject child)" for ob ps name w child
      using "1.IH"(2) [OF False d that(1,2,3) refl that(4) refl] schema_node_property [OF "1.prems" that(2,4)]
      by blast
    have arr: "validate_instance items w (d + 1) \<noteq> Inl depth_error"
      if "v = JArray xs" "map_of schema ''items'' = Some (JObject items)" "w \<in> set xs" for xs items w
      using "1.IH"(1) [OF False d that(1,2) refl that(3)] schema_node_items [OF "1.prems" that(2)]
      by blast
    show ?thesis
      using False d obj arr local_checks_no_depth_error
      by (subst validate_instance.simps)
        (auto split: json.splits option.splits dest!: each_Inl)
  qed
qed

subsection \<open>One call after another\<close>

lemma execute_success:
  assumes wf: "hash_wf (ledger c)" and e: "execute ser c iv False executor = Some (Inr out, c')"
  shows "0 < permits c' \<and> map_of (ledger c') (ledger_key_of iv) = Some (LedgerEntry.Completed (out_value out))"
proof -
  obtain d r c1 where d: "execute_check ser c iv = Inr d" "execute_admit c iv d False = Some (r, c1)"
    using e by (auto simp: execute_def split: sum.splits option.splits)
  have "permits c \<noteq> 0" using d(2) by (auto simp: execute_admit_def split: if_splits)
  show ?thesis
  proof (cases r)
    case (Some res)
    with d e have "c' = c" "res = Inr out"
      using execute_admit_returned [of c iv d False res c1] by (auto simp: execute_def)
    with Some d(2) \<open>permits c \<noteq> 0\<close> show ?thesis
      by (auto simp: execute_admit_def ledger_admit_def split: option.splits LedgerEntry.splits if_splits)
  next
    case None
    with d have st: "map_of (ledger c1) (ledger_key_of iv) = Some InFlight" "hash_wf (ledger c1)"
      using execute_admit_started [of c iv d False c1] wf
      by (auto simp: update_conv' hash.invar_insert)
    have "execute_finish ser c1 (ledger_key_of iv) d (executor iv) = (Inr out, c')"
      using e d None by (simp add: execute_def)
    from execute_finish_ledger [OF this st(2,1)] show ?thesis by simp
  qed
qed

lemma execute_started:
  assumes "execute_check ser c iv = Inr d" "map_of (ledger c) (ledger_key_of iv) = None"
    "0 < permits c" "length (ledger c) < max_ledger_entries c"
  shows "execute ser c iv False executor = Some (execute_finish ser
    (c\<lparr>permits := permits c - 1, ledger := AList.update (ledger_key_of iv) InFlight (ledger c)\<rparr>)
    (ledger_key_of iv) d (executor iv))"
  using assms by (simp add: execute_def execute_admit_def ledger_admit_def)

lemma execute_check_cong:
  "definitions c' = definitions c \<Longrightarrow> execute_check ser c' iv = execute_check ser c iv"
  by (simp add: execute_check_def)

text \<open>Tool names of a valid deployment contain no colon, so ledger keys do not collide.\<close>

lemma ledger_key_inj:
  assumes "CHR '':'' \<notin> set (inv_tool_name a)" "CHR '':'' \<notin> set (inv_tool_name b)"
    "ledger_key_of a = ledger_key_of b"
  shows "inv_tool_name a = inv_tool_name b \<and> inv_idempotency_key a = inv_idempotency_key b"
  using assms split_once_Some [of "CHR '':''" "ledger_key_of a" "inv_tool_name a" "inv_idempotency_key a"]
    split_once_Some [of "CHR '':''" "ledger_key_of a" "inv_tool_name b" "inv_idempotency_key b"]
  by (auto simp: ledger_key_of_def)

subsection \<open>A deployment with one commit-once tool\<close>

abbreviation demo_tool :: ToolDefinition where
  "demo_tool \<equiv> \<lparr>tool_name = ''book'', tool_description = ''Book'',
     input_schema = [(''properties'', JObject [(''day'', JObject [])]), (''required'', JArray [JString ''day'']), 
       (''type'', JString ''object'')], timeout_ms = 1000, side_effect = CommitOnce, execution = Local\<rparr>"

abbreviation demo_coordinator :: ToolCoordinator where
  "demo_coordinator \<equiv> \<lparr>definitions = [(''book'', demo_tool)], ledger = [], permits = 1,
     max_ledger_entries = MAX_TOOL_LEDGER_ENTRIES\<rparr>"

abbreviation demo_call :: ToolInvocation where
  "demo_call \<equiv> \<lparr>inv_call_id = ''c1'', inv_tool_name = ''book'',
     inv_input = JObject [(''day'', JString ''mon'')], inv_idempotency_key = ''k1''\<rparr>"

abbreviation demo_ser :: serializer where
  "demo_ser \<equiv> (\<lambda>_. Inr 20)"

lemma demo_schema: "validate_input_schema_contract demo_ser (input_schema demo_tool) = Inr ()"
  by (simp add: validate_input_schema_contract_def MAX_TOOL_VALUE_BYTES_def validate_schema_node.simps
      MAX_SCHEMA_DEPTH_def schema_keywords_ok_def ALLOWED_KEYWORDS_def schema_type_ok_def schema_types_def
      schema_properties_def schema_required_ok_def schema_scalars_ok_def check_eval)

lemma demo_check:
  "definitions c = [(''book'', demo_tool)] \<Longrightarrow> execute_check demo_ser c demo_call = Inr demo_tool"
  by (simp add: execute_check_def serialized_size_def MAX_TOOL_VALUE_BYTES_def validate_tool_input_def
      validate_instance.simps MAX_SCHEMA_DEPTH_def instance_head_ok_def instance_type_ok_def
      instance_object_ok_def instance_scalar_ok_def property_schemas_def check_eval)

subsection \<open>Properties\<close>

text \<open>
  C9 (safety). Whatever the interleaving of concurrent, cancelled, timed-out and dropped tool
  calls, the executor is started at most once per ledger key of a commit-once tool, no key
  completes twice, at most max_concurrent executors run and the ledger stays within 1,024
  entries.
\<close>

theorem commit_once_executes_once:
  assumes "with_concurrency defs n = Some c" "tool_reachable ser c w"
  shows "distinct (map tc_key (filter (\<lambda>t. side_effect (tc_def t) = CommitOnce) (tw_started w))) \<and>
    distinct (tw_completed w) \<and> length (tw_running w) \<le> n \<and>
    length (ledger (tw_coordinator w)) \<le> MAX_TOOL_LEDGER_ENTRIES"
proof -
  have "(\<lambda>t. side_effect (tc_def t) = CommitOnce) = is_commit" by (simp add: is_commit_def fun_eq_iff)
  with tool_reachable_inv [OF assms(2,1)] show ?thesis
    by (auto simp: tool_inv_def Let_def commit_ok_def completed_ok_def)
qed

theorem commit_once_executes_once_witness:
  "\<exists>w. tool_reachable demo_ser demo_coordinator w \<and> map tc_key (tw_started w) = [''book:k1''] \<and>
     snd (last (tw_returned w)) = Inl (ToolError.CommitOnceUncertain ''tool invocation timed out'') \<and>
     distinct (map tc_key (filter (\<lambda>t. side_effect (tc_def t) = CommitOnce) (tw_started w)))"
proof -
  let ?t = "\<lparr>tc_inv = demo_call, tc_def = demo_tool\<rparr>"
  let ?l = "[(''book:k1'', LedgerEntry.CommitOnceUncertain ''tool invocation timed out'')]"
  let ?w = "\<lparr>tw_coordinator = demo_coordinator\<lparr>ledger := ?l\<rparr>, tw_waiting = [], tw_running = [],
     tw_returned = [(demo_call, Inl Timeout),
        (demo_call, Inl (ToolError.CommitOnceUncertain ''tool invocation timed out''))],
     tw_started = [?t], tw_completed = []\<rparr>"
  have "foldl (\<lambda>w cmd. Option.bind w (\<lambda>w. tool_step demo_ser w cmd)) (Some (tool_world_init demo_coordinator))
      [Invoke demo_call, Admit 0 False, Finish 0 ExecTimedOut, Invoke demo_call, Admit 0 False] = Some ?w"
    by (simp add: tool_world_init_def demo_check execute_admit_def ledger_admit_def Let_def drop_nth_def
        MAX_TOOL_LEDGER_ENTRIES_def ledger_key_of_def execute_finish_def classify_outcome_def
        release_permit_def tc_key_def)
  then have reach: "tool_reachable demo_ser demo_coordinator ?w"
    by (rule tool_run_reachable)
  have "with_concurrency [demo_tool] 1 = Some demo_coordinator"
    by (simp add: with_concurrency_def MAX_PERMITS_def u64_max_def)
  from commit_once_executes_once [OF this reach] reach show ?thesis
    by (intro exI [of _ ?w]) (simp add: tc_key_def ledger_key_of_def)
qed

text \<open>
  C10 (functional). After a successful call, any further valid call with the same tool and
  idempotency key returns the recorded value as cached, without calling the executor and without
  changing the coordinator.
\<close>

theorem completed_call_is_replayed:
  assumes wf: "hash_wf (ledger c)" and first: "execute ser c iv False executor = Some (Inr out, c')"
    and same: "inv_tool_name iv' = inv_tool_name iv" "inv_idempotency_key iv' = inv_idempotency_key iv"
    and ok: "execute_check ser c' iv' = Inr d"
  shows "execute ser c' iv' False executor' = Some (Inr \<lparr>out_value = out_value out, out_cached = True,
    out_side_effect = side_effect d\<rparr>, c')"
proof -
  have "ledger_key_of iv' = ledger_key_of iv" using same by (simp add: ledger_key_of_def)
  with execute_success [OF wf first] ok show ?thesis
    by (simp add: execute_def execute_admit_def ledger_admit_def release_permit_def)
qed

theorem completed_call_is_replayed_witness:
  "execute demo_ser (demo_coordinator\<lparr>ledger := [(''book:k1'', LedgerEntry.Completed (JBool True))]\<rparr>)
     demo_call False (\<lambda>_. ExecTimedOut)
   = Some (Inr \<lparr>out_value = JBool True, out_cached = True, out_side_effect = CommitOnce\<rparr>,
       demo_coordinator\<lparr>ledger := [(''book:k1'', LedgerEntry.Completed (JBool True))]\<rparr>)"
proof -
  have "execute demo_ser demo_coordinator demo_call False (\<lambda>_. ExecReturned (Inr (JBool True))) =
      Some (Inr \<lparr>out_value = JBool True, out_cached = False, out_side_effect = CommitOnce\<rparr>,
        demo_coordinator\<lparr>ledger := [(''book:k1'', LedgerEntry.Completed (JBool True))]\<rparr>)"
    by (simp add: execute_def demo_check execute_admit_def ledger_admit_def MAX_TOOL_LEDGER_ENTRIES_def
        ledger_key_of_def execute_finish_def classify_outcome_def release_permit_def
        serialized_size_def MAX_TOOL_VALUE_BYTES_def)
  from completed_call_is_replayed [OF _ this refl refl, of demo_tool]
  show ?thesis by (simp add: hash_wf_def demo_check)
qed

text \<open>
  C11 (error). A failed call releases its permit; a commit-once key is fenced by
  CommitOnceUncertain for good, while the key of any other tool is forgotten and the next call
  runs the executor again.
\<close>

theorem failed_call_fencing:
  assumes wf: "hash_wf (ledger c)" and chk: "execute_check ser c iv = Inr d"
    and fails: "classify_outcome ser (executor iv) = Inr (Inl e)"
    and absent: "map_of (ledger c) (ledger_key_of iv) = None"
    and room: "0 < permits c" "length (ledger c) < max_ledger_entries c"
  shows "\<exists>c'. execute ser c iv False executor = Some (Inl e, c') \<and> permits c' = permits c \<and>
    map_of (ledger c') = (map_of (ledger c))(ledger_key_of iv :=
      (if side_effect d = CommitOnce
       then Some (LedgerEntry.CommitOnceUncertain (tool_error_to_string e)) else None)) \<and>
    execute ser c' iv False executor' =
      (if side_effect d = CommitOnce
       then Some (Inl (ToolError.CommitOnceUncertain (tool_error_to_string e)), c')
       else Some (execute_finish ser
              (c'\<lparr>permits := permits c' - 1, ledger := AList.update (ledger_key_of iv) InFlight (ledger c')\<rparr>)
              (ledger_key_of iv) d (executor' iv)))"
proof -
  define c1 where "c1 = c\<lparr>permits := permits c - 1, ledger := AList.update (ledger_key_of iv) InFlight (ledger c)\<rparr>"
  obtain r c' where f: "execute_finish ser c1 (ledger_key_of iv) d (executor iv) = (r, c')" by fastforce
  have first: "execute ser c iv False executor = Some (r, c')"
    using execute_started [OF chk absent room, of executor] f by (simp add: c1_def)
  have r: "r = Inl e" and c': "permits c' = permits c" "definitions c' = definitions c"
      "max_ledger_entries c' = max_ledger_entries c"
      "map_of (ledger c') = (map_of (ledger c))(ledger_key_of iv := (if side_effect d = CommitOnce
         then Some (LedgerEntry.CommitOnceUncertain (tool_error_to_string e)) else None))"
    using f fails room(1) absent
    by (auto simp: execute_finish_def c1_def release_permit_def Let_def update_conv' delete_conv' fun_eq_iff
        split: if_splits)
  have "length (ledger c') \<le> length (ledger c)" if "side_effect d \<noteq> CommitOnce"
    using f fails that absent wf
    by (auto simp: execute_finish_def c1_def release_permit_def Let_def hash.len_remove hash.len_insert
        hash.invar_insert update_conv')
  then have "side_effect d \<noteq> CommitOnce \<Longrightarrow> execute ser c' iv False executor' = Some (execute_finish ser
      (c'\<lparr>permits := permits c' - 1, ledger := AList.update (ledger_key_of iv) InFlight (ledger c')\<rparr>)
      (ledger_key_of iv) d (executor' iv))"
    using c' room chk by (intro execute_started) (simp_all add: execute_check_cong [OF c'(2)])
  moreover have "side_effect d = CommitOnce \<Longrightarrow> execute ser c' iv False executor' =
      Some (Inl (ToolError.CommitOnceUncertain (tool_error_to_string e)), c')"
    using c' room chk
    by (simp add: execute_def execute_check_cong [OF c'(2)] execute_admit_def ledger_admit_def
        release_permit_def)
  ultimately show ?thesis using first r c' by auto
qed

theorem failed_call_fencing_witness:
  "\<exists>c'. execute demo_ser demo_coordinator demo_call False (\<lambda>_. ExecTimedOut) = Some (Inl Timeout, c') \<and>
     execute demo_ser c' demo_call False (\<lambda>_. ExecReturned (Inr JNull)) =
       Some (Inl (ToolError.CommitOnceUncertain ''tool invocation timed out''), c')"
  using failed_call_fencing [OF _ demo_check [of demo_coordinator], of "\<lambda>_. ExecTimedOut" Timeout "\<lambda>_. ExecReturned (Inr JNull)"]
  by (auto simp: hash_wf_def classify_outcome_def MAX_TOOL_LEDGER_ENTRIES_def)

text \<open>
  A schema that deployment validation accepts never makes an invocation fail with
  the nesting bound: the two depth limits agree.
\<close>

lemma deployed_schema_depth:
  assumes "validate_input_schema_contract ser schema = Inr ()"
  shows "validate_tool_input schema v \<noteq> Inl (InvalidInput ''input nesting exceeds schema bound'')"
  using assms instance_depth [of schema 0 v]
  by (auto simp: validate_input_schema_contract_def validate_tool_input_def split: sum.splits if_splits)

end
