(* ===== verification/Manifest.thy ===== *)
theory Manifest
  imports Tools
begin

text \<open>
  The immutable deployment contract (\<open>manifest.rs\<close>): its data, its defaults and its validation.
  \<open>ser\<close> is the JSON serializer, \<open>url_scheme\<close> the URL parser (\<open>reqwest::Url::parse\<close> followed by
  \<open>scheme\<close>), \<open>from_str\<close> the JSON decoder of a manifest: third-party code, hence parameters.
\<close>

subsection \<open>Data\<close>

definition CONTRACT_VERSION :: string where
  "CONTRACT_VERSION = ''2026-07-19''"

record ProviderReference =
  ref_provider :: string
  ref_model :: string
  ref_settings :: "(string, json) btree_map"

record AgentProviders =
  speech_to_text :: ProviderReference
  reasoning :: ProviderReference
  text_to_speech :: ProviderReference

record VoiceDefinition =
  voice_id :: string
  voice_language :: string
  voice_sample_rate_hz :: nat

definition default_language :: string where
  "default_language = ''en-US''"

definition default_sample_rate :: nat where
  "default_sample_rate = 16000"

record AgentLimits =
  max_session_seconds :: u64
  max_concurrent_tools :: usize
  max_history_messages :: usize

definition default_limits :: AgentLimits where
  "default_limits = \<lparr>max_session_seconds = 3600, max_concurrent_tools = 4, max_history_messages = 100\<rparr>"

record AgentDefinition =
  agent_name :: string
  agent_instructions :: string
  agent_providers :: AgentProviders
  agent_voice :: VoiceDefinition
  agent_tools :: "ToolDefinition list"
  agent_limits :: AgentLimits
  agent_metadata :: "(string, json) btree_map"

datatype ArtifactFormat = JavascriptEsm

record ArtifactReference =
  artifact_sha256 :: string
  artifact_size_bytes :: u64
  artifact_format :: ArtifactFormat

record AgentManifest =
  contract_version :: string
  agent_definition :: AgentDefinition
  required_capabilities :: "string list"
  manifest_artifact :: ArtifactReference

subsection \<open>Validation\<close>

definition valid_tool_name :: "string \<Rightarrow> bool" where
  "valid_tool_name name \<longleftrightarrow>
     1 \<le> length name \<and> length name \<le> 64 \<and>
     list_all (\<lambda>(index, c).
       if index = 0 then is_ascii_alphabetic c
       else is_ascii_alphanumeric c \<or> c = CHR ''_'' \<or> c = CHR ''-'') (enumerate 0 name)"

definition validate_tool ::
  "serializer \<Rightarrow> (string \<Rightarrow> string option) \<Rightarrow> ToolDefinition \<Rightarrow> unit result" where
  "validate_tool ser url_scheme t =
     (if \<not> valid_tool_name (tool_name t) \<or> tool_description t = [] \<or> length (tool_description t) > 2000
         \<or> \<not> (100 \<le> timeout_ms t \<and> timeout_ms t \<le> 30000)
      then Inl (InvalidRequest (''tool '' @ tool_name t @ '' has an invalid contract''))
      else andR (validate_input_schema_contract ser (input_schema t))
        (case execution t of
           Builtin integ \<Rightarrow>
             require (is_slug integ) (InvalidRequest ''builtin integration must be a slug'')
         | Https u secret \<Rightarrow>
             (case url_scheme u of
                None \<Rightarrow> Inl (InvalidRequest ''tool HTTPS URL is invalid'')
              | Some scheme \<Rightarrow>
                  andR (require (scheme = ''https'') (InvalidRequest ''remote tools require HTTPS''))
                    (require (case secret of None \<Rightarrow> True | Some v \<Rightarrow> v \<noteq> [] \<and> length v \<le> 128)
                       (InvalidRequest ''tool secretRef is invalid'')))
         | Local \<Rightarrow> Inr ()))"

definition reference_ok :: "ProviderReference \<Rightarrow> bool" where
  "reference_ok r \<longleftrightarrow> is_slug (ref_provider r) \<and> ref_model r \<noteq> [] \<and> length (ref_model r) \<le> 160"

text \<open>The loop over the capabilities; \<open>seen\<close> is the set built so far.\<close>

fun capabilities_loop :: "string btree_set \<Rightarrow> string list \<Rightarrow> string btree_set result" where
  "capabilities_loop seen [] = Inr seen"
| "capabilities_loop seen (c # cs) =
     (if \<not> is_slug c then Inl (InvalidRequest ''requiredCapabilities must contain valid slugs'')
      else if c \<in> set seen then Inl (InvalidRequest ''requiredCapabilities must not contain duplicates'')
      else capabilities_loop (insort_insert c seen) cs)"

definition allowed_capabilities :: "string list" where
  "allowed_capabilities = [''batch-stt'', ''streaming-stt'', ''streaming-reasoning'', ''streaming-tts'',
     ''tool-execution'', ''realtime-speech'']"

definition capability_set_ok :: "bool \<Rightarrow> string btree_set \<Rightarrow> unit result" where
  "capability_set_ok has_tools caps =
     andR
       (each (\<lambda>r. require (r \<in> set caps) (InvalidRequest (''requiredCapabilities is missing '' @ r)))
          [''batch-stt'', ''streaming-reasoning'', ''streaming-tts''])
       (andR
         (require (has_tools = (''tool-execution'' \<in> set caps))
            (InvalidRequest ''tool-execution capability must exactly match whether tools are declared''))
         (case find (\<lambda>c. c \<notin> set allowed_capabilities) caps of
            Some unsupported \<Rightarrow> Inl (InvalidRequest (''unsupported required capability '' @ unsupported))
          | None \<Rightarrow> Inr ()))"

fun tools_loop ::
  "serializer \<Rightarrow> (string \<Rightarrow> string option) \<Rightarrow> string list \<Rightarrow> ToolDefinition list \<Rightarrow> unit result" where
  "tools_loop ser url_scheme names [] = Inr ()"
| "tools_loop ser url_scheme names (t # ts) =
     (if tool_name t \<in> set names
      then Inl (InvalidRequest (''tool name '' @ tool_name t @ '' is declared more than once''))
      else andR (validate_tool ser url_scheme t) (tools_loop ser url_scheme (tool_name t # names) ts))"

definition artifact_ok :: "ArtifactReference \<Rightarrow> bool" where
  "artifact_ok a \<longleftrightarrow>
     length (artifact_sha256 a) = 64 \<and>
     list_all (\<lambda>c. is_ascii_hexdigit c \<and> \<not> is_ascii_uppercase c) (artifact_sha256 a) \<and>
     artifact_size_bytes a \<le> 10 * 1024 * 1024"

definition limits_ok :: "AgentLimits \<Rightarrow> bool" where
  "limits_ok l \<longleftrightarrow>
     10 \<le> max_session_seconds l \<and> max_session_seconds l \<le> 14400 \<and>
     1 \<le> max_concurrent_tools l \<and> max_concurrent_tools l \<le> 16 \<and>
     2 \<le> max_history_messages l \<and> max_history_messages l \<le> 1000"

definition manifest_validate ::
  "serializer \<Rightarrow> (string \<Rightarrow> string option) \<Rightarrow> AgentManifest \<Rightarrow> unit result" where
  "manifest_validate ser url_scheme m =
     (let d = agent_definition m; v = agent_voice d in
      if contract_version m \<noteq> CONTRACT_VERSION
      then Inl (InvalidRequest (''unsupported contractVersion '' @ contract_version m @ ''; expected '' @ CONTRACT_VERSION))
      else if \<not> is_slug (agent_name d) then Inl (InvalidRequest ''agent name must be a valid slug'')
      else if agent_instructions d = [] \<or> length (agent_instructions d) > 64000
      then Inl (InvalidRequest ''instructions must contain 1 to 64,000 bytes'')
      else andR
        (each (\<lambda>r. require (reference_ok r)
             (InvalidRequest ''provider references must contain a valid provider slug and model''))
           [speech_to_text (agent_providers d), reasoning (agent_providers d), text_to_speech (agent_providers d)])
        (if voice_id v = [] \<or> length (voice_id v) > 160 then Inl (InvalidRequest ''voice.id is invalid'')
         else if \<not> (2 \<le> length (voice_language v) \<and> length (voice_language v) \<le> 35)
         then Inl (InvalidRequest ''voice.language must contain 2 to 35 UTF-8 bytes'')
         else if \<not> (8000 \<le> voice_sample_rate_hz v \<and> voice_sample_rate_hz v \<le> 48000)
         then Inl (InvalidRequest ''voice.sampleRateHz must be between 8000 and 48000'')
         else if \<not> limits_ok (agent_limits d)
         then Inl (InvalidRequest ''agent session limits are outside supported bounds'')
         else if length (agent_tools d) > 64 \<or> length (required_capabilities m) > 128
         then Inl (InvalidRequest ''manifest declares too many tools or capabilities'')
         else case capabilities_loop [] (required_capabilities m) of
           Inl e \<Rightarrow> Inl e
         | Inr caps \<Rightarrow>
             andR (capability_set_ok (agent_tools d \<noteq> []) caps)
               (andR (tools_loop ser url_scheme [] (agent_tools d))
                 (require (artifact_ok (manifest_artifact m))
                    (InvalidRequest ''artifact digest or size is invalid'')))))"

definition parse_json ::
  "(string \<Rightarrow> string + AgentManifest) \<Rightarrow> serializer \<Rightarrow> (string \<Rightarrow> string option) \<Rightarrow> string \<Rightarrow> AgentManifest result" where
  "parse_json from_str ser url_scheme text =
     (case from_str text of
        Inl e \<Rightarrow> Inl (RuntimeError.Json e)
      | Inr m \<Rightarrow> andR (manifest_validate ser url_scheme m) (Inr m))"

subsection \<open>What a valid manifest guarantees\<close>

lemma tools_loop_ok:
  "tools_loop ser url_scheme names ts = Inr () \<longleftrightarrow>
     distinct (map tool_name ts) \<and> set (map tool_name ts) \<inter> set names = {} \<and>
     (\<forall>t \<in> set ts. validate_tool ser url_scheme t = Inr ())"
  by (induction ts arbitrary: names) auto

lemma capabilities_loop_ok:
  "capabilities_loop seen cs = Inr caps \<Longrightarrow>
     distinct cs \<and> set cs \<inter> set seen = {} \<and> (\<forall>c \<in> set cs. is_slug c) \<and> set caps = set seen \<union> set cs"
proof (induction cs arbitrary: seen)
  case (Cons c cs)
  from Cons.prems Cons.IH [of "insort_insert c seen"] show ?case
    by (auto simp: set_insort_insert split: if_splits)
qed simp

lemma valid_tool_name_no_colon: "valid_tool_name name \<Longrightarrow> CHR '':'' \<notin> set name"
proof
  assume v: "valid_tool_name name" and "CHR '':'' \<in> set name"
  then obtain i where i: "i < length name" "name ! i = CHR '':''" by (auto simp: in_set_conv_nth)
  then have "(i, CHR '':'') \<in> set (enumerate 0 name)" by (auto simp: in_set_enumerate_eq)
  with v show False
    by (auto simp: valid_tool_name_def list_all_iff ascii_defs less_eq_char_def split: if_splits)
qed

text \<open>The coordinator of a deployment holds every declared tool.\<close>

lemma definitions_of_list:
  "map_of (fold (\<lambda>d m. AList.update (tool_name d) d m) ds m0) n =
     (case find (\<lambda>d. tool_name d = n) (rev ds) of Some d \<Rightarrow> Some d | None \<Rightarrow> map_of m0 n)"
  by (induction ds rule: rev_induct) (auto simp: update_conv' find_None_iff split: option.split)

lemma definitions_distinct:
  assumes "distinct (map tool_name ds)" "d \<in> set ds"
  shows "map_of (fold (\<lambda>d m. AList.update (tool_name d) d m) ds []) (tool_name d) = Some d"
proof (cases "find (\<lambda>e. tool_name e = tool_name d) (rev ds)")
  case None
  then show ?thesis using assms(2) by (auto simp: find_None_iff)
next
  case (Some e)
  then have "e \<in> set ds" "tool_name e = tool_name d" using find_Some_set by fastforce+
  then have "e = d" using assms by (auto simp: distinct_map inj_on_def)
  then show ?thesis using Some by (simp add: definitions_of_list)
qed

lemma manifest_ok:
  assumes "manifest_validate ser url_scheme m = Inr ()"
  shows "limits_ok (agent_limits (agent_definition m)) \<and>
    distinct (map tool_name (agent_tools (agent_definition m))) \<and>
    (\<forall>t \<in> set (agent_tools (agent_definition m)). validate_tool ser url_scheme t = Inr ()) \<and>
    8000 \<le> voice_sample_rate_hz (agent_voice (agent_definition m)) \<and>
    voice_sample_rate_hz (agent_voice (agent_definition m)) \<le> 48000 \<and>
    distinct (required_capabilities m) \<and> set (required_capabilities m) \<subseteq> set allowed_capabilities \<and>
    {''batch-stt'', ''streaming-reasoning'', ''streaming-tts''} \<subseteq> set (required_capabilities m) \<and>
    (''tool-execution'' \<in> set (required_capabilities m) \<longleftrightarrow> agent_tools (agent_definition m) \<noteq> [])"
proof -
  from assms obtain caps where "capabilities_loop [] (required_capabilities m) = Inr caps"
    and rest: "capability_set_ok (agent_tools (agent_definition m) \<noteq> []) caps = Inr ()"
      "tools_loop ser url_scheme [] (agent_tools (agent_definition m)) = Inr ()"
      "limits_ok (agent_limits (agent_definition m))"
      "8000 \<le> voice_sample_rate_hz (agent_voice (agent_definition m))"
      "voice_sample_rate_hz (agent_voice (agent_definition m)) \<le> 48000"
    by (auto simp: manifest_validate_def Let_def split: if_splits sum.splits)
  then have caps: "distinct (required_capabilities m)" "set caps = set (required_capabilities m)"
    using capabilities_loop_ok by fastforce+
  then show ?thesis
    using rest by (auto simp: capability_set_ok_def tools_loop_ok find_None_iff split: option.splits)
qed

subsection \<open>Properties\<close>

text \<open>
  C12 (safety). A valid manifest always gives a tool coordinator: its concurrency assertion
  holds, every declared tool is found under its name, its schemas cannot hit the depth bound,
  and distinct (tool, idempotency key) pairs have distinct ledger keys.
\<close>

theorem valid_manifest_coordinator:
  assumes ok: "manifest_validate ser url_scheme m = Inr ()"
  defines "ts \<equiv> agent_tools (agent_definition m)"
    and "n \<equiv> max_concurrent_tools (agent_limits (agent_definition m))"
  shows "\<exists>c. with_concurrency ts n = Some c \<and> permits c = n \<and>
    (\<forall>t \<in> set ts. map_of (definitions c) (tool_name t) = Some t \<and>
       (\<forall>v. validate_tool_input (input_schema t) v
          \<noteq> Inl (InvalidInput ''input nesting exceeds schema bound''))) \<and>
    (\<forall>a b. inv_tool_name a \<in> tool_name ` set ts \<longrightarrow> inv_tool_name b \<in> tool_name ` set ts \<longrightarrow>
       ledger_key_of a = ledger_key_of b \<longrightarrow>
       inv_tool_name a = inv_tool_name b \<and> inv_idempotency_key a = inv_idempotency_key b)"
proof -
  have n: "0 < n" "n \<le> MAX_PERMITS" and dist: "distinct (map tool_name ts)"
    and tools: "\<And>t. t \<in> set ts \<Longrightarrow> validate_tool ser url_scheme t = Inr ()"
    using manifest_ok [OF ok] by (auto simp: limits_ok_def ts_def n_def MAX_PERMITS_def u64_max_def)
  have tool: "valid_tool_name (tool_name t) \<and> validate_schema_node (input_schema t) 0 = Inr ()"
    if "t \<in> set ts" for t
    using tools [OF that]
    by (auto simp: validate_tool_def validate_input_schema_contract_def split: if_splits sum.splits)
  have "validate_tool_input (input_schema t) v \<noteq> Inl (InvalidInput depth_error)" if "t \<in> set ts" for t v
    using tool [OF that] instance_depth by (auto simp: validate_tool_input_def)
  moreover have "CHR '':'' \<notin> set nm" if "nm \<in> tool_name ` set ts" for nm
    using that tool valid_tool_name_no_colon by auto
  moreover have "with_concurrency ts n = Some \<lparr>definitions = fold (\<lambda>d m. AList.update (tool_name d) d m) ts [],
      ledger = [], permits = n, max_ledger_entries = MAX_TOOL_LEDGER_ENTRIES\<rparr>"
    using n by (simp add: with_concurrency_def)
  ultimately show ?thesis
    using definitions_distinct [OF dist] ledger_key_inj by auto
qed

abbreviation demo_reference :: ProviderReference where
  "demo_reference \<equiv> \<lparr>ref_provider = ''scripted'', ref_model = ''scripted-v1'', ref_settings = []\<rparr>"

abbreviation demo_manifest :: AgentManifest where
  "demo_manifest \<equiv> \<lparr>contract_version = ''2026-07-19'',
     agent_definition = \<lparr>agent_name = ''clinic'', agent_instructions = ''Be brief.'',
       agent_providers = \<lparr>speech_to_text = demo_reference, reasoning = demo_reference,
         text_to_speech = demo_reference\<rparr>,
       agent_voice = \<lparr>voice_id = ''v1'', voice_language = ''en-US'', voice_sample_rate_hz = 16000\<rparr>,
       agent_tools = [demo_tool], agent_limits = default_limits, agent_metadata = []\<rparr>,
     required_capabilities = [''batch-stt'', ''streaming-reasoning'', ''streaming-tts'', ''tool-execution''],
     manifest_artifact = \<lparr>artifact_sha256 = replicate 64 (CHR ''a''), artifact_size_bytes = 100,
       artifact_format = JavascriptEsm\<rparr>\<rparr>"

lemma demo_slugs:
  "is_slug ''clinic''" "is_slug ''scripted''" "is_slug ''batch-stt''" "is_slug ''streaming-reasoning''"
  "is_slug ''streaming-tts''" "is_slug ''tool-execution''"
  by (simp_all add: ident_eval)

lemma demo_artifact: "artifact_ok (manifest_artifact demo_manifest)"
  by (simp add: artifact_ok_def ident_eval list_all_iff)

lemma demo_manifest_valid: "manifest_validate demo_ser (\<lambda>_. None) demo_manifest = Inr ()"
proof -
  have "validate_tool demo_ser (\<lambda>_. None) demo_tool = Inr ()"
    using demo_schema by (simp add: validate_tool_def valid_tool_name_def ident_eval)
  moreover have "capability_set_ok True (insort_insert ''tool-execution'' (insort_insert ''streaming-tts''
      (insort_insert ''streaming-reasoning'' (insort_insert ''batch-stt'' [])))) = Inr ()"
    by (auto simp: capability_set_ok_def set_insort_insert allowed_capabilities_def find_None_iff
        dest!: find_Some_set split: option.split)
  ultimately show ?thesis
    using demo_slugs demo_artifact
    by (simp add: manifest_validate_def Let_def CONTRACT_VERSION_def reference_ok_def limits_ok_def
        default_limits_def set_insort_insert)
qed

theorem valid_manifest_coordinator_witness:
  "\<exists>c. with_concurrency [demo_tool] 4 = Some c \<and> map_of (definitions c) ''book'' = Some demo_tool"
  using valid_manifest_coordinator [OF demo_manifest_valid] by (auto simp: default_limits_def)

end
