(* ===== verification/Protocol.thy ===== *)
theory Protocol
  imports Domain
begin

text \<open>
  The realtime wire protocol (\<open>protocol.rs\<close>): envelopes and their generation fence, client and
  server messages, the binary audio frame \<open>CWU1 | length | JSON header | PCM\<close> and the bounded
  history of playout acknowledgements. The JSON codec of the frame header is a parameter.
\<close>

subsection \<open>Envelopes and messages\<close>

definition PROTOCOL_VERSION :: nat where
  "PROTOCOL_VERSION = 1"

definition AUDIO_FRAME_MAGIC :: "byte list" where
  "AUDIO_FRAME_MAGIC = [67, 87, 85, 49]"

definition MAX_AUDIO_HEADER_BYTES :: usize where
  "MAX_AUDIO_HEADER_BYTES = 4 * 1024"

definition MAX_AUDIO_PAYLOAD_BYTES :: usize where
  "MAX_AUDIO_PAYLOAD_BYTES = 64 * 1024"

record RealtimeEnvelope =
  env_protocol_version :: nat
  env_session_id :: string
  env_message_id :: string
  env_runtime_generation :: u64

definition envelope_server :: "string \<Rightarrow> u64 \<Rightarrow> string \<Rightarrow> RealtimeEnvelope" where
  "envelope_server sid gen mid =
     \<lparr>env_protocol_version = PROTOCOL_VERSION, env_session_id = sid,
      env_message_id = mid, env_runtime_generation = gen\<rparr>"

definition envelope_validate :: "RealtimeEnvelope \<Rightarrow> string \<Rightarrow> u64 \<Rightarrow> unit result" where
  "envelope_validate e sid gen =
     (if env_protocol_version e \<noteq> PROTOCOL_VERSION
      then Inl (RuntimeError.Protocol (''unsupported protocolVersion '' @ string_of_nat (env_protocol_version e)))
      else if env_session_id e \<noteq> sid
      then Inl (RuntimeError.Protocol ''sessionId does not match connection'')
      else if env_runtime_generation e \<noteq> gen
      then Inl (GenerationMismatch gen (env_runtime_generation e))
      else if \<not> is_resource_id (env_session_id e)
      then Inl (RuntimeError.Protocol ''sessionId is invalid'')
      else if env_message_id e = [] \<or> length (env_message_id e) > 160
      then Inl (RuntimeError.Protocol ''messageId must contain 1 to 160 bytes'')
      else Inr ())"

datatype ClientMessage =
    SessionStart (client_envelope: RealtimeEnvelope)
  | InputText (client_envelope: RealtimeEnvelope) string
  | InputCommit (client_envelope: RealtimeEnvelope)
  | ResponseCancel (client_envelope: RealtimeEnvelope) string
  | PlayoutAck (client_envelope: RealtimeEnvelope) string f64
  | SessionEnd (client_envelope: RealtimeEnvelope) string

definition client_validate :: "ClientMessage \<Rightarrow> string \<Rightarrow> u64 \<Rightarrow> unit result" where
  "client_validate m sid gen =
     (case envelope_validate (client_envelope m) sid gen of
        Inl e \<Rightarrow> Inl e
      | Inr _ \<Rightarrow>
          (case m of
             InputText _ text \<Rightarrow>
               if text = [] \<or> length text > 16000
               then Inl (RuntimeError.Protocol ''input.text must contain 1 to 16,000 bytes'') else Inr ()
           | ResponseCancel _ rid \<Rightarrow>
               if rid = [] \<or> length rid > 160
               then Inl (RuntimeError.Protocol ''responseId is invalid'') else Inr ()
           | PlayoutAck _ rid played \<Rightarrow>
               if rid = [] \<or> length rid > 160
               then Inl (RuntimeError.Protocol ''responseId is invalid'')
               else if \<not> f64_is_finite played \<or> f64_less played (Finite 0)
               then Inl (RuntimeError.Protocol ''playedThroughMs must be finite and nonnegative'') else Inr ()
           | SessionEnd _ reason \<Rightarrow>
               if length reason > 500
               then Inl (RuntimeError.Protocol ''session.end reason exceeds 500 bytes'') else Inr ()
           | _ \<Rightarrow> Inr ()))"

datatype ServerMessage =
    SessionReady (server_envelope: RealtimeEnvelope) "string list"
  | SessionStarted (server_envelope: RealtimeEnvelope)
  | TranscriptDelta (server_envelope: RealtimeEnvelope) string string bool
  | ResponseDelta (server_envelope: RealtimeEnvelope) string u64 string
  | ResponseCompleted (server_envelope: RealtimeEnvelope) string u64 bool
  | Error (server_envelope: RealtimeEnvelope) string string "(string, json) btree_map option"

datatype AudioEncoding = Pcm16Le

record AudioChunkHeader =
  message_type :: string
  hdr_envelope :: RealtimeEnvelope
  hdr_response_id :: string
  hdr_epoch :: u64
  hdr_sequence :: u64
  hdr_encoding :: AudioEncoding
  hdr_sample_rate_hz :: nat
  hdr_channels :: nat

record AudioChunkFrame =
  frame_header :: AudioChunkHeader
  frame_audio :: "byte list"

datatype RealtimeOutput = Control ServerMessage | Audio AudioChunkFrame

subsection \<open>The binary audio frame\<close>

definition u32_to_be_bytes :: "nat \<Rightarrow> byte list" where
  "u32_to_be_bytes n =
     [of_nat (n div 2 ^ 24 mod 256), of_nat (n div 2 ^ 16 mod 256),
      of_nat (n div 2 ^ 8 mod 256), of_nat (n mod 256)]"

fun u32_from_be_bytes :: "byte list \<Rightarrow> nat" where
  "u32_from_be_bytes [a, b, c, d] = unat a * 2 ^ 24 + unat b * 2 ^ 16 + unat c * 2 ^ 8 + unat d"
| "u32_from_be_bytes _ = 0"

definition frame_validate :: "AudioChunkFrame \<Rightarrow> unit result" where
  "frame_validate f =
     (let h = frame_header f; n = length (frame_audio f) in
      if message_type h \<noteq> ''audio.chunk'' \<or> hdr_channels h \<noteq> 1
         \<or> \<not> (8000 \<le> hdr_sample_rate_hz h \<and> hdr_sample_rate_hz h \<le> 48000)
         \<or> hdr_response_id h = [] \<or> length (hdr_response_id h) > 160
         \<or> frame_audio f = [] \<or> n > MAX_AUDIO_PAYLOAD_BYTES \<or> odd n
      then Inl (RuntimeError.Protocol ''invalid audio frame metadata or PCM payload'')
      else envelope_validate (hdr_envelope h) (env_session_id (hdr_envelope h))
             (env_runtime_generation (hdr_envelope h)))"

definition frame_encode ::
  "(AudioChunkHeader \<Rightarrow> string + byte list) \<Rightarrow> AudioChunkFrame \<Rightarrow> byte list result" where
  "frame_encode to_vec f =
     (case frame_validate f of
        Inl e \<Rightarrow> Inl e
      | Inr _ \<Rightarrow>
          (case to_vec (frame_header f) of
             Inl e \<Rightarrow> Inl (RuntimeError.Json e)
           | Inr header \<Rightarrow>
               if length header > MAX_AUDIO_HEADER_BYTES
               then Inl (RuntimeError.Protocol ''audio frame header exceeds 4 KiB'')
               else if length header \<ge> 2 ^ 32
               then Inl (RuntimeError.Protocol ''audio frame header is too large'')
               else Inr (AUDIO_FRAME_MAGIC @ u32_to_be_bytes (length header) @ header @ frame_audio f)))"

definition frame_decode ::
  "(byte list \<Rightarrow> string + AudioChunkHeader) \<Rightarrow> byte list \<Rightarrow> AudioChunkFrame result" where
  "frame_decode from_slice frame =
     (if length frame < 8 \<or> take 4 frame \<noteq> AUDIO_FRAME_MAGIC
      then Inl (RuntimeError.Protocol ''invalid audio frame magic'')
      else let header_len = u32_from_be_bytes (take 4 (drop 4 frame)) in
        if header_len = 0 \<or> header_len > MAX_AUDIO_HEADER_BYTES \<or> length frame < 8 + header_len
        then Inl (RuntimeError.Protocol ''invalid audio frame header length'')
        else
          (case from_slice (take header_len (drop 8 frame)) of
             Inl e \<Rightarrow> Inl (RuntimeError.Json e)
           | Inr header \<Rightarrow>
               let decoded = \<lparr>frame_header = header, frame_audio = drop (8 + header_len) frame\<rparr> in
               (case frame_validate decoded of Inl e \<Rightarrow> Inl e | Inr _ \<Rightarrow> Inr decoded)))"

subsection \<open>Playout acknowledgements\<close>

record PlayoutAckHistory =
  ack_capacity :: usize
  ack_order :: "string list"
  played_through :: "(string, f64) hash_map"

text \<open>\<open>None\<close>: the assertion on the capacity fails (the constructor panics).\<close>

definition playout_new :: "usize \<Rightarrow> PlayoutAckHistory option" where
  "playout_new capacity =
     (if 0 < capacity then Some \<lparr>ack_capacity = capacity, ack_order = [], played_through = []\<rparr> else None)"

text \<open>The eviction loop: while the window is full, drop the oldest identifier and its entry.\<close>

fun evict_acks :: "usize \<Rightarrow> string list \<Rightarrow> (string, f64) hash_map \<Rightarrow> string list \<times> (string, f64) hash_map" where
  "evict_acks capacity [] m = ([], m)"
| "evict_acks capacity (expired # order) m =
     (if length (expired # order) \<ge> capacity
      then evict_acks capacity order (AList.delete expired m)
      else (expired # order, m))"

definition playout_record :: "PlayoutAckHistory \<Rightarrow> string \<Rightarrow> f64 \<Rightarrow> (bool \<times> PlayoutAckHistory) result" where
  "playout_record h rid ms =
     (if rid = [] \<or> length rid > 160 \<or> \<not> f64_is_finite ms \<or> f64_less ms (Finite 0)
      then Inl (RuntimeError.Protocol ''invalid playout acknowledgement'')
      else case map_of (played_through h) rid of
        Some current \<Rightarrow>
          if f64_le ms current then Inr (False, h)
          else Inr (True, h\<lparr>played_through := AList.update rid ms (played_through h)\<rparr>)
      | None \<Rightarrow>
          let (order, m) = evict_acks (ack_capacity h) (ack_order h) (played_through h) in
          Inr (True, h\<lparr>ack_order := order @ [rid], played_through := AList.update rid ms m\<rparr>))"

definition played_through_ms :: "PlayoutAckHistory \<Rightarrow> string \<Rightarrow> f64 option" where
  "played_through_ms h rid = map_of (played_through h) rid"

definition playout_len :: "PlayoutAckHistory \<Rightarrow> usize" where
  "playout_len h = length (ack_order h)"

subsection \<open>Facts: envelopes\<close>

lemma envelope_validate_ok:
  "envelope_validate e sid gen = Inr () \<longleftrightarrow>
     env_protocol_version e = PROTOCOL_VERSION \<and> env_session_id e = sid \<and>
     env_runtime_generation e = gen \<and> is_resource_id sid \<and>
     env_message_id e \<noteq> [] \<and> length (env_message_id e) \<le> 160"
  by (auto simp: envelope_validate_def)

lemma client_validate_fence:
  assumes "client_validate m sid gen = Inr ()"
  shows "env_session_id (client_envelope m) = sid \<and> env_runtime_generation (client_envelope m) = gen
    \<and> env_message_id (client_envelope m) \<noteq> [] \<and> length (env_message_id (client_envelope m)) \<le> 160"
proof -
  have "envelope_validate (client_envelope m) sid gen = Inr ()"
    using assms by (auto simp: client_validate_def split: sum.splits)
  then show ?thesis by (simp add: envelope_validate_ok)
qed

subsection \<open>Facts: the length field\<close>

lemma unat_of_nat_byte [simp]: "unat (of_nat (n mod 256) :: byte) = n mod 256"
  by (simp add: unat_of_nat)

lemma unat_byte_lt: "unat (b :: byte) < 256"
  using unsigned_less [of b] by simp

lemma base256_step:
  "d < 256 \<Longrightarrow> (x * 256 + d) div 256 = x" "d < 256 \<Longrightarrow> (x * 256 + d) mod 256 = (d::nat)"
  by simp_all

lemma div_256_twice: "n div 65536 = n div 256 div (256::nat)"
  and div_256_thrice: "n div 16777216 = n div 256 div 256 div (256::nat)"
  by (simp_all add: div_mult2_eq [symmetric])

lemma base256_digits:
  assumes "n < 4294967296"
  shows "n div 16777216 mod 256 * 16777216 + n div 65536 mod 256 * 65536 + n div 256 mod 256 * 256 + n mod 256
     = (n::nat)"
proof -
  let ?q = "n div 256" and ?r = "n div 256 div 256" and ?s = "n div 256 div 256 div 256"
  have sum: "n = q * 256 + d \<Longrightarrow> q = r * 256 + c \<Longrightarrow> r = s * 256 + b \<Longrightarrow>
      s * 16777216 + b * 65536 + c * 256 + d = n" for q r s b c d :: nat by simp
  have "n = ?q * 256 + n mod 256" "?q = ?r * 256 + ?q mod 256" "?r = ?s * 256 + ?r mod 256"
    by (simp_all only: div_mult_mod_eq)
  note digits = sum [OF this]
  have "?s mod 256 = ?s"
    using assms by (simp add: div_mult2_eq [symmetric] less_mult_imp_div_less)
  then show ?thesis unfolding div_256_twice div_256_thrice using digits by (simp only:)
qed

lemma u32_be_roundtrip: "n < 2 ^ 32 \<Longrightarrow> u32_from_be_bytes (u32_to_be_bytes n) = n"
  using base256_digits [of n] by (simp add: u32_to_be_bytes_def unat_of_nat)

lemma u32_from_be_lt: "u32_from_be_bytes bs < 2 ^ 32"
proof (cases bs rule: u32_from_be_bytes.cases)
  case (1 a b c d)
  have "unat a < 256" "unat b < 256" "unat c < 256" "unat d < 256"
    by (rule unat_byte_lt)+
  then show ?thesis using 1 by simp
qed simp_all

lemma base256_combine:
  fixes a b c d :: nat
  assumes "a < 256" "b < 256" "c < 256" "d < 256"
  defines "n \<equiv> a * 16777216 + b * 65536 + c * 256 + d"
  shows "n div 16777216 mod 256 = a" "n div 65536 mod 256 = b" "n div 256 mod 256 = c" "n mod 256 = d"
proof -
  have n: "n = ((a * 256 + b) * 256 + c) * 256 + d" by (simp add: n_def)
  have q: "n div 256 = (a * 256 + b) * 256 + c" unfolding n using assms(4) by (rule base256_step)
  have r: "n div 256 div 256 = a * 256 + b" unfolding q using assms(3) by (rule base256_step)
  show "n mod 256 = d" unfolding n using assms(4) by (rule base256_step)
  show "n div 256 mod 256 = c" unfolding q using assms(3) by (rule base256_step)
  show "n div 65536 mod 256 = b" unfolding div_256_twice r using assms(2) by (rule base256_step)
  have "n div 16777216 = a" unfolding div_256_thrice r using assms(2) by (rule base256_step)
  then show "n div 16777216 mod 256 = a" using assms(1) by simp
qed

lemma u32_be_unique:
  assumes "length bs = 4"
  shows "u32_to_be_bytes (u32_from_be_bytes bs) = bs"
proof -
  obtain a b c d where bs: "bs = [a, b, c, d]"
    using assms by (auto simp: length_Suc_conv numeral_eq_Suc)
  have "unat a < 256" "unat b < 256" "unat c < 256" "unat d < 256"
    by (rule unat_byte_lt)+
  note digits = base256_combine [OF this]
  show ?thesis using digits by (simp add: bs u32_to_be_bytes_def)
qed

lemma length_u32_be [simp]: "length (u32_to_be_bytes n) = 4"
  by (simp add: u32_to_be_bytes_def)

lemma length_magic [simp]: "length AUDIO_FRAME_MAGIC = 4"
  by (simp add: AUDIO_FRAME_MAGIC_def)

subsection \<open>Facts: frames\<close>

lemma frame_encode_ok:
  assumes "frame_encode to_vec f = Inr bs"
  obtains header where "frame_validate f = Inr ()" "to_vec (frame_header f) = Inr header"
    "length header \<le> MAX_AUDIO_HEADER_BYTES"
    "bs = AUDIO_FRAME_MAGIC @ u32_to_be_bytes (length header) @ header @ frame_audio f"
  using assms by (auto simp: frame_encode_def split: sum.splits if_splits)

lemma frame_decode_layout:
  assumes "0 < length header" "length header \<le> MAX_AUDIO_HEADER_BYTES"
  shows "frame_decode from_slice (AUDIO_FRAME_MAGIC @ u32_to_be_bytes (length header) @ header @ audio) =
    (case from_slice header of
       Inl e \<Rightarrow> Inl (RuntimeError.Json e)
     | Inr h \<Rightarrow> (case frame_validate \<lparr>frame_header = h, frame_audio = audio\<rparr> of
         Inl e \<Rightarrow> Inl e | Inr _ \<Rightarrow> Inr \<lparr>frame_header = h, frame_audio = audio\<rparr>))"
proof -
  have lt: "length header < 2 ^ 32" using assms by (simp add: MAX_AUDIO_HEADER_BYTES_def)
  have "length (AUDIO_FRAME_MAGIC @ u32_to_be_bytes (length header) @ header) = 8 + length header"
    by simp
  then have "drop (8 + length header) ((AUDIO_FRAME_MAGIC @ u32_to_be_bytes (length header) @ header) @ audio) = audio"
    by (metis append_eq_conv_conj)
  with assms show ?thesis
    by (cases "from_slice header") (simp_all add: frame_decode_def u32_be_roundtrip [OF lt] Let_def)
qed

lemma frame_decode_sound:
  assumes "frame_decode from_slice bs = Inr f"
  shows "frame_validate f = Inr () \<and>
    (\<exists>header. bs = AUDIO_FRAME_MAGIC @ u32_to_be_bytes (length header) @ header @ frame_audio f
       \<and> from_slice header = Inr (frame_header f)
       \<and> 0 < length header \<and> length header \<le> MAX_AUDIO_HEADER_BYTES)"
proof -
  define n where "n = u32_from_be_bytes (take 4 (drop 4 bs))"
  define header where "header = take n (drop 8 bs)"
  have len: "8 \<le> length bs" and magic: "take 4 bs = AUDIO_FRAME_MAGIC"
    and n: "0 < n" "n \<le> MAX_AUDIO_HEADER_BYTES" "8 + n \<le> length bs"
    and slice: "from_slice header = Inr (frame_header f)"
    and audio: "frame_audio f = drop (8 + n) bs" and ok: "frame_validate f = Inr ()"
    using assms
    by (auto simp: frame_decode_def Let_def n_def header_def split: sum.splits if_splits)
  have "u32_to_be_bytes n = take 4 (drop 4 bs)"
    using len by (simp add: n_def u32_be_unique)
  moreover have "bs = take 4 bs @ take 4 (drop 4 bs) @ take n (drop 8 bs) @ drop (8 + n) bs"
    using append_take_drop_id [of 4 bs] append_take_drop_id [of 4 "drop 4 bs"]
      append_take_drop_id [of n "drop 8 bs"]
    by (simp add: add.commute)
  ultimately have "bs = AUDIO_FRAME_MAGIC @ u32_to_be_bytes n @ header @ frame_audio f"
    using magic audio by (simp add: header_def)
  moreover have "length header = n" using n by (simp add: header_def)
  ultimately show ?thesis using n slice ok by auto
qed

subsection \<open>Facts: playout acknowledgements\<close>

definition playout_wf :: "PlayoutAckHistory \<Rightarrow> bool" where
  "playout_wf h \<longleftrightarrow>
     0 < ack_capacity h \<and> length (ack_order h) \<le> ack_capacity h \<and> distinct (ack_order h) \<and>
     hash_wf (played_through h) \<and> set (ack_order h) = dom (map_of (played_through h)) \<and>
     (\<forall>rid ms. map_of (played_through h) rid = Some ms \<longrightarrow> f64_is_finite ms \<and> f64_le (Finite 0) ms)"

lemma f64_nonneg: "f64_is_finite ms \<Longrightarrow> f64_less ms (Finite 0) \<longleftrightarrow> \<not> f64_le (Finite 0) ms"
  by (cases ms) auto

lemma evict_acks_spec:
  assumes "evict_acks k order m = (order', m')" "distinct order" "hash_wf m" "set order = dom (map_of m)"
  shows "\<exists>n. order' = drop n order \<and> map_of m' = map_of m |` set order' \<and> hash_wf m'
    \<and> (0 < k \<longrightarrow> length order' < k) \<and> (length order < k \<longrightarrow> n = 0)"
  using assms
proof (induction k order m arbitrary: order' m' rule: evict_acks.induct)
  case (1 k m)
  from 1(4) [symmetric] have "map_of m = Map.empty" by simp
  with 1 show ?case by auto
next
  case (2 k x order m)
  show ?case
  proof (cases "length (x # order) \<ge> k")
    case True
    have dom: "set order = dom (map_of (AList.delete x m))"
      using "2.prems" by (auto simp: delete_conv' domIff)
    have wf: "hash_wf (AList.delete x m)" using "2.prems"(3) by (rule hash.invar_remove)
    have ev: "evict_acks k order (AList.delete x m) = (order', m')" and dist: "distinct order"
      using "2.prems" True by simp_all
    obtain n where n: "order' = drop n order" "map_of m' = map_of (AList.delete x m) |` set order'"
      "hash_wf m'" "0 < k \<longrightarrow> length order' < k"
      using "2.IH" [OF True ev dist wf dom] by blast
    have "x \<notin> set order'" using n(1) "2.prems"(2) by (auto dest: in_set_dropD)
    then have "map_of m' = map_of m |` set order'"
      using n(2) by (auto simp: delete_conv' restrict_map_def fun_eq_iff)
    with n True show ?thesis by (intro exI [of _ "Suc n"]) auto
  next
    case False
    have "map_of m |` set (x # order) = map_of m"
      unfolding "2.prems"(4) by (auto simp: restrict_map_def fun_eq_iff domIff)
    with False "2.prems" show ?thesis by (intro exI [of _ 0]) auto
  qed
qed

lemma playout_record_wf:
  assumes "playout_wf h" "playout_record h rid ms = Inr (fresh, h')"
  shows "playout_wf h' \<and> ack_capacity h' = ack_capacity h"
proof (cases "map_of (played_through h) rid")
  case (Some current)
  then have r: "rid \<in> set (ack_order h)" using assms(1) by (auto simp: playout_wf_def)
  show ?thesis
    using assms Some r
    by (auto simp: playout_record_def playout_wf_def update_conv' hash.invar_insert
        f64_nonneg split: if_splits)
next
  case None
  obtain order m where e: "evict_acks (ack_capacity h) (ack_order h) (played_through h) = (order, m)"
    by fastforce
  have pre: "0 < ack_capacity h" "distinct (ack_order h)" "hash_wf (played_through h)"
    "set (ack_order h) = dom (map_of (played_through h))" using assms(1) by (simp_all add: playout_wf_def)
  obtain n where n: "order = drop n (ack_order h)" "map_of m = map_of (played_through h) |` set order"
    "hash_wf m" "length order < ack_capacity h"
    using evict_acks_spec [OF e pre(2-)] pre(1) by blast
  have "rid \<notin> set (ack_order h)" using None assms(1) by (auto simp: playout_wf_def domIff)
  then have "rid \<notin> set order" using n(1) by (auto dest: in_set_dropD)
  moreover have "set order \<subseteq> set (ack_order h)" using n(1) by (simp add: set_drop_subset)
  ultimately show ?thesis
    using assms None e n
    by (auto simp: playout_record_def playout_wf_def update_conv' hash.invar_insert
        f64_nonneg restrict_map_def split: if_splits)
qed

text \<open>A well-formed window is full at most by one: only the oldest identifier can be evicted.\<close>

lemma evict_acks_one:
  assumes wf: "playout_wf h"
    and e: "evict_acks (ack_capacity h) (ack_order h) (played_through h) = (order, m)"
  shows "map_of m r = map_of (played_through h) r \<or>
      (map_of m r = None \<and> length (ack_order h) = ack_capacity h \<and> r = hd (ack_order h))"
proof (cases "length (ack_order h) < ack_capacity h")
  case True
  then have "m = played_through h" using e by (cases "ack_order h") auto
  then show ?thesis by simp
next
  case False
  with wf obtain x xs where x: "ack_order h = x # xs" "length (x # xs) = ack_capacity h"
    by (cases "ack_order h") (auto simp: playout_wf_def)
  then have "m = AList.delete x (played_through h)" using e by (cases xs) auto
  with x show ?thesis by (auto simp: delete_conv')
qed

subsection \<open>Properties\<close>

text \<open>
  C6 (roundtrip). Decoding an encoded audio frame gives the frame back, for any JSON codec that
  parses what it printed for this header; an encoded frame is at most 8 + 4 KiB + 64 KiB long.
\<close>

theorem frame_roundtrip:
  assumes codec: "\<And>bytes. to_vec (frame_header f) = Inr bytes \<Longrightarrow>
      bytes \<noteq> [] \<and> from_slice bytes = Inr (frame_header f)"
    and enc: "frame_encode to_vec f = Inr bs"
  shows "frame_decode from_slice bs = Inr f \<and>
    length bs \<le> 8 + MAX_AUDIO_HEADER_BYTES + MAX_AUDIO_PAYLOAD_BYTES"
proof (rule conjI)
  obtain header where h: "frame_validate f = Inr ()" "to_vec (frame_header f) = Inr header"
    "length header \<le> MAX_AUDIO_HEADER_BYTES"
    "bs = AUDIO_FRAME_MAGIC @ u32_to_be_bytes (length header) @ header @ frame_audio f"
    using enc by (rule frame_encode_ok)
  have "0 < length header" and "from_slice header = Inr (frame_header f)"
    using codec [OF h(2)] by simp_all
  then show "frame_decode from_slice bs = Inr f"
    unfolding h(4) using h(1,3) by (cases f) (simp add: frame_decode_layout)
  have "length (frame_audio f) \<le> MAX_AUDIO_PAYLOAD_BYTES"
    using h(1) by (auto simp: frame_validate_def Let_def split: if_splits)
  then show "length bs \<le> 8 + MAX_AUDIO_HEADER_BYTES + MAX_AUDIO_PAYLOAD_BYTES"
    using h(3,4) by simp
qed

abbreviation demo_header :: AudioChunkHeader where
  "demo_header \<equiv> \<lparr>message_type = ''audio.chunk'',
     hdr_envelope = envelope_server ''ses_12345678'' 7 ''m1'', hdr_response_id = ''rsp_1'',
     hdr_epoch = 3, hdr_sequence = 0, hdr_encoding = Pcm16Le, hdr_sample_rate_hz = 16000,
     hdr_channels = 1\<rparr>"

abbreviation demo_frame :: AudioChunkFrame where
  "demo_frame \<equiv> \<lparr>frame_header = demo_header, frame_audio = [1, 2]\<rparr>"

lemma demo_frame_encode:
  "frame_encode (\<lambda>_. Inr [123, 125]) demo_frame = Inr [67, 87, 85, 49, 0, 0, 0, 2, 123, 125, 1, 2]"
  by (simp add: frame_encode_def frame_validate_def envelope_validate_def envelope_server_def
      PROTOCOL_VERSION_def MAX_AUDIO_PAYLOAD_BYTES_def MAX_AUDIO_HEADER_BYTES_def
      AUDIO_FRAME_MAGIC_def u32_to_be_bytes_def ident_eval)

theorem frame_roundtrip_witness:
  "frame_encode (\<lambda>_. Inr [123, 125]) demo_frame = Inr [67, 87, 85, 49, 0, 0, 0, 2, 123, 125, 1, 2] \<and>
   frame_decode (\<lambda>_. Inr demo_header) [67, 87, 85, 49, 0, 0, 0, 2, 123, 125, 1, 2] = Inr demo_frame"
  using frame_roundtrip [of "\<lambda>_. Inr [123, 125]" demo_frame "\<lambda>_. Inr demo_header"]
    demo_frame_encode by simp

text \<open>
  C7 (equivalence). A byte string is decoded to a frame exactly when it consists of the magic,
  the four-byte length of a header, that header and the audio of the frame, where the header is
  not empty, has at most 4 KiB and is parsed by the codec to the header of the frame, and the
  frame is valid; the header is then unique, whatever the codec.
\<close>

theorem frame_decode_accepts_exactly:
  "frame_decode from_slice bs = Inr f \<longleftrightarrow>
   (\<exists>!header. bs = AUDIO_FRAME_MAGIC @ u32_to_be_bytes (length header) @ header @ frame_audio f \<and> header \<noteq> [] \<and>
      length header \<le> MAX_AUDIO_HEADER_BYTES \<and> from_slice header = Inr (frame_header f) \<and> frame_validate f = Inr ())"
proof
  assume "frame_decode from_slice bs = Inr f"
  from frame_decode_sound [OF this] obtain header where h: "frame_validate f = Inr ()"
    "bs = AUDIO_FRAME_MAGIC @ u32_to_be_bytes (length header) @ header @ frame_audio f"
    "from_slice header = Inr (frame_header f)" "length header \<le> MAX_AUDIO_HEADER_BYTES" "header \<noteq> []" by blast
  have "header' = header" if "bs = AUDIO_FRAME_MAGIC @ u32_to_be_bytes (length header') @ header' @ frame_audio f" for header'
    using that h(2) by (auto simp: u32_to_be_bytes_def dest: arg_cong [of _ _ length])
  with h show "\<exists>!header. bs = AUDIO_FRAME_MAGIC @ u32_to_be_bytes (length header) @ header @ frame_audio f \<and> header \<noteq> [] \<and>
      length header \<le> MAX_AUDIO_HEADER_BYTES \<and> from_slice header = Inr (frame_header f) \<and> frame_validate f = Inr ()" by blast
next
  assume "\<exists>!header. bs = AUDIO_FRAME_MAGIC @ u32_to_be_bytes (length header) @ header @ frame_audio f \<and> header \<noteq> [] \<and>
      length header \<le> MAX_AUDIO_HEADER_BYTES \<and> from_slice header = Inr (frame_header f) \<and> frame_validate f = Inr ()"
  then obtain header where "bs = AUDIO_FRAME_MAGIC @ u32_to_be_bytes (length header) @ header @ frame_audio f" "header \<noteq> []"
    "length header \<le> MAX_AUDIO_HEADER_BYTES" "from_slice header = Inr (frame_header f)" "frame_validate f = Inr ()" by blast
  then show "frame_decode from_slice bs = Inr f"
    using frame_decode_layout [of header from_slice "frame_audio f"] by (cases f) simp
qed

text \<open>
  C8 (invariant). Recording a playout acknowledgement keeps the window within its capacity,
  never lowers the acknowledged position of a response, reports an advance exactly when the
  position changed, and forgets at most the oldest response.
\<close>

theorem playout_record_monotone:
  assumes wf: "playout_wf h" and rec: "playout_record h rid ms = Inr (advanced, h')"
  shows "playout_wf h' \<and> playout_len h' \<le> ack_capacity h \<and>
    (\<exists>v. played_through_ms h' rid = Some v \<and> f64_le ms v \<and>
       (\<forall>old. played_through_ms h rid = Some old \<longrightarrow> f64_le old v \<and> (v = old \<or> v = ms))) \<and>
    (advanced \<longleftrightarrow> played_through_ms h' rid \<noteq> played_through_ms h rid) \<and>
    (\<forall>r. r \<noteq> rid \<longrightarrow> played_through_ms h' r = played_through_ms h r \<or>
       (played_through_ms h' r = None \<and> playout_len h = ack_capacity h \<and> r = hd (ack_order h)))"
proof (cases "map_of (played_through h) rid")
  case (Some current)
  have fin: "f64_is_finite current" using wf Some by (auto simp: playout_wf_def)
  have ms: "f64_is_finite ms" using rec by (auto simp: playout_record_def split: if_splits)
  show ?thesis
  proof (cases "f64_le ms current")
    case True
    with Some rec have "h' = h" "\<not> advanced" by (auto simp: playout_record_def split: if_splits)
    with True Some wf fin show ?thesis by (simp add: played_through_ms_def playout_len_def playout_wf_def)
  next
    case False
    with Some rec have h': "h' = h\<lparr>played_through := AList.update rid ms (played_through h)\<rparr>" "advanced"
      by (auto simp: playout_record_def split: if_splits)
    have "f64_le current ms" "current \<noteq> ms"
      using False f64_less_le [OF ms fin] ms by (auto intro: f64_less_imp_le)
    moreover have "length (ack_order h) \<le> ack_capacity h" using wf by (simp add: playout_wf_def)
    ultimately show ?thesis
      using playout_record_wf [OF wf rec] Some ms
      by (simp add: h' played_through_ms_def playout_len_def update_conv')
  qed
next
  case None
  obtain order m where e: "evict_acks (ack_capacity h) (ack_order h) (played_through h) = (order, m)"
    by fastforce
  have h': "h' = h\<lparr>ack_order := order @ [rid], played_through := AList.update rid ms m\<rparr>"
    "advanced" "f64_is_finite ms"
    using rec None e by (auto simp: playout_record_def split: if_splits)
  have others: "map_of m r = map_of (played_through h) r \<or>
      (map_of m r = None \<and> length (ack_order h) = ack_capacity h \<and> r = hd (ack_order h))" for r
    using evict_acks_one [OF wf e] .
  show ?thesis
    using playout_record_wf [OF wf rec] others None h'
    by (auto simp: played_through_ms_def playout_len_def update_conv' playout_wf_def)
qed

theorem playout_record_monotone_witness:
  "playout_record \<lparr>ack_capacity = 1, ack_order = [''r1''], played_through = [(''r1'', Finite 20)]\<rparr> ''r2'' (Finite 5)
     = Inr (True, \<lparr>ack_capacity = 1, ack_order = [''r2''], played_through = [(''r2'', Finite 5)]\<rparr>) \<and>
   playout_wf \<lparr>ack_capacity = 1, ack_order = [''r2''], played_through = [(''r2'', Finite 5)]\<rparr>"
proof -
  let ?h = "\<lparr>ack_capacity = 1, ack_order = [''r1''], played_through = [(''r1'', Finite 20)]\<rparr>"
  have "playout_wf ?h" by (simp add: playout_wf_def hash_wf_def)
  moreover have r: "playout_record ?h ''r2'' (Finite 5)
     = Inr (True, \<lparr>ack_capacity = 1, ack_order = [''r2''], played_through = [(''r2'', Finite 5)]\<rparr>)"
    by (simp add: playout_record_def)
  ultimately show ?thesis using playout_record_monotone by blast
qed

end
