(* ===== verification/Scripted.thy ===== *)
theory Scripted
  imports Manifest Protocol
begin

text \<open>
  The provider set of a deployment and the deterministic scripted providers (\<open>provider.rs\<close>).
  A provider is a record of its operations; the tokens that cancel their streams are arguments.
  \<open>print\<close> is the printer of JSON values and \<open>from_str\<close> their parser (\<open>serde_json\<close>).
\<close>

subsection \<open>Provider sets\<close>

record SpeechToText =
  stt_capabilities :: "ProviderCapability btree_set"
  stt_transcribe :: "AudioInput \<Rightarrow> cancellation \<Rightarrow> TranscriptSegment provider_stream"

record Reasoner =
  reasoner_capabilities :: "ProviderCapability btree_set"
  reasoner_reason :: "ReasoningRequest \<Rightarrow> cancellation \<Rightarrow> ReasoningEvent provider_stream"

record TextToSpeech =
  tts_capabilities :: "ProviderCapability btree_set"
  tts_synthesize :: "SynthesisRequest \<Rightarrow> cancellation \<Rightarrow> byte list provider_stream"

record RealtimeSpeechModel =
  speech_capabilities :: "ProviderCapability btree_set"
  speech_converse :: "RealtimeSpeechRequest \<Rightarrow> cancellation \<Rightarrow> RealtimeSpeechEvent provider_stream"

record ProviderSet =
  ps_speech_to_text :: SpeechToText
  ps_reasoner :: Reasoner
  ps_text_to_speech :: TextToSpeech
  ps_tools :: ToolCoordinator
  ps_realtime_speech :: "RealtimeSpeechModel option"
  tool_execution_enabled :: bool

definition capabilities :: "ProviderSet \<Rightarrow> ProviderCapability btree_set" where
  "capabilities p =
     (let r = btree_set_extend (stt_capabilities (ps_speech_to_text p)) (reasoner_capabilities (ps_reasoner p));
          r = btree_set_extend r (tts_capabilities (ps_text_to_speech p));
          r = (if tool_execution_enabled p then insort_insert ToolExecution r else r) in
      case ps_realtime_speech p of
        None \<Rightarrow> r
      | Some m \<Rightarrow> btree_set_extend r (speech_capabilities m))"

definition ensure_capabilities :: "ProviderSet \<Rightarrow> string list \<Rightarrow> unit result" where
  "ensure_capabilities p required =
     (let available = btree_set_extend [] (map capability_as_str (capabilities p));
          missing = filter (\<lambda>c. c \<notin> set available) required in
      if missing = [] then Inr ()
      else Inl (InvalidRequest (''deployment requires unavailable capabilities: '' @ join_with '', '' missing)))"

subsection \<open>The scripted providers\<close>

text \<open>
  A stream that polls its token before every item: a cancelled poll yields the error and ends it.
\<close>

fun yield_all :: "string \<Rightarrow> cancellation \<Rightarrow> nat \<Rightarrow> 'a list \<Rightarrow> 'a provider_stream" where
  "yield_all st cancel i [] = []"
| "yield_all st cancel i (x # xs) =
     (if cancel i then [Inl (provider_error_cancelled st)]
      else Inr x # yield_all st cancel (Suc i) xs)"

definition text_for_audio :: "AudioInput \<Rightarrow> string" where
  "text_for_audio a =
     (let s = bytes_to_string (input_bytes a); t = trim s in
      if valid_utf8 s \<and> t \<noteq> [] \<and>
         list_all (\<lambda>ch. \<not> char_is_control ch \<or> char_is_whitespace ch) (utf8_chars t)
      then t
      else ''audio input ('' @ string_of_nat (length (input_bytes a)) @ '' bytes)'')"

definition scripted_transcribe :: "AudioInput \<Rightarrow> cancellation \<Rightarrow> TranscriptSegment provider_stream" where
  "scripted_transcribe a cancel =
     (let text = text_for_audio a;
          partial = (case split_whitespace text of [] \<Rightarrow> [] | w # _ \<Rightarrow> w);
          final = \<lparr>segment_text = text, is_final = True\<rparr> in
      yield_all ''stt'' cancel 0
        (if partial = [] then [final] else [\<lparr>segment_text = partial, is_final = False\<rparr>, final]))"

definition is_tool_message :: "ConversationMessage \<Rightarrow> bool" where
  "is_tool_message m \<longleftrightarrow> (case m of ConversationMessage.Tool _ _ _ \<Rightarrow> True | _ \<Rightarrow> False)"

definition user_text :: "ConversationMessage \<Rightarrow> string option" where
  "user_text m = (case m of User v \<Rightarrow> Some v | _ \<Rightarrow> None)"

definition parse_scripted_tool_call :: "(string \<Rightarrow> json option) \<Rightarrow> string \<Rightarrow> RequestedToolCall option" where
  "parse_scripted_tool_call from_str input =
     (case strip_prefix ''/tool '' (trim input) of
        None \<Rightarrow> None
      | Some rest \<Rightarrow>
          let (name, text) = (case split_once (CHR '' '') rest of Some p \<Rightarrow> p | None \<Rightarrow> (rest, ''{}'')) in
          Some \<lparr>call_id = ''tool_scripted_1'', call_name = name,
                call_input = (case from_str text of
                    Some v \<Rightarrow> v | None \<Rightarrow> JObject [(''value'', JString text)])\<rparr>)"

text \<open>The words of a response, every one but the first preceded by a blank.\<close>

fun response_deltas :: "string list \<Rightarrow> ReasoningEvent list" where
  "response_deltas [] = []"
| "response_deltas (w # ws) = Delta w # map (\<lambda>v. Delta ('' '' @ v)) ws"

definition scripted_reason ::
  "(json \<Rightarrow> string) \<Rightarrow> (string \<Rightarrow> json option) \<Rightarrow> ReasoningRequest \<Rightarrow> cancellation \<Rightarrow> ReasoningEvent provider_stream" where
  "scripted_reason print from_str req cancel =
     (let rmsgs = rev (messages req);
          input = (case List.map_filter user_text rmsgs of [] \<Rightarrow> [] | v # _ \<Rightarrow> v);
          tool_call = (if list_ex is_tool_message (messages req) then None
                       else parse_scripted_tool_call from_str input);
          response = (case find is_tool_message rmsgs of
              Some (ConversationMessage.Tool _ name out) \<Rightarrow>
                ''Scripted response after '' @ name @ '': '' @ print out
            | _ \<Rightarrow> ''Scripted response: '' @ trim input) in
      case tool_call of
        Some call \<Rightarrow> Inr (ToolCall call) # yield_all ''reasoner'' cancel 0 [ReasoningEvent.Completed]
      | None \<Rightarrow> yield_all ''reasoner'' cancel 0
          (response_deltas (split_whitespace response) @ [ReasoningEvent.Completed]))"

text \<open>\<open>i16\<close> arithmetic wraps; the clamp is on the signed value.\<close>

definition i16_to_le_bytes :: "16 word \<Rightarrow> byte list" where
  "i16_to_le_bytes w = [ucast w, ucast (drop_bit 8 w)]"

definition scripted_amplitude :: "string \<Rightarrow> 16 word" where
  "scripted_amplitude w =
     (let a = sint (foldl (\<lambda>acc c. acc + of_nat (of_char c)) (0 :: 16 word) w) in
      word_of_int (max 256 (min 4096 a)))"

definition scripted_pcm_chunk :: "string \<Rightarrow> nat \<Rightarrow> byte list" where
  "scripted_pcm_chunk w sample_rate_hz =
     (let a = scripted_amplitude w; samples = max (sample_rate_hz div 100) 1 in
      concat (map (\<lambda>i. i16_to_le_bytes (if even i then a else - a)) [0..<samples]))"

definition scripted_synthesize :: "SynthesisRequest \<Rightarrow> cancellation \<Rightarrow> byte list provider_stream" where
  "scripted_synthesize req cancel =
     yield_all ''tts'' cancel 0
       (map (\<lambda>w. scripted_pcm_chunk w (synthesis_sample_rate_hz req)) (split_whitespace (synthesis_text req)))"

definition scripted_converse :: "RealtimeSpeechRequest \<Rightarrow> cancellation \<Rightarrow> RealtimeSpeechEvent provider_stream" where
  "scripted_converse req cancel =
     (let s = bytes_to_string (speech_audio req);
          transcript = trim (if valid_utf8 s then s else ''audio input'');
          response = ''Scripted response: '' @ transcript in
      yield_all ''realtime_speech'' cancel 0
        [Transcript transcript, SpeechText response, SpeechAudio (string_to_bytes response), SpeechCompleted])"

definition scripted_tool_executor :: "ToolInvocation \<Rightarrow> bool \<Rightarrow> ProviderError + json" where
  "scripted_tool_executor iv cancelled =
     (if cancelled then Inl (provider_error_cancelled ''tool'')
      else Inr (JObject (btree_of_list
        [(''ok'', JBool True), (''tool'', JString (inv_tool_name iv)), (''input'', inv_input iv)])))"

text \<open>\<open>None\<close>: the coordinator's assertion fails.\<close>

definition scripted_with_tool_concurrency ::
  "(json \<Rightarrow> string) \<Rightarrow> (string \<Rightarrow> json option) \<Rightarrow> ToolDefinition list \<Rightarrow> usize \<Rightarrow> ProviderSet option" where
  "scripted_with_tool_concurrency print from_str tools n =
     map_option (\<lambda>c.
       \<lparr>ps_speech_to_text = \<lparr>stt_capabilities = [BatchStt], stt_transcribe = scripted_transcribe\<rparr>,
        ps_reasoner = \<lparr>reasoner_capabilities = [StreamingReasoning],
          reasoner_reason = scripted_reason print from_str\<rparr>,
        ps_text_to_speech = \<lparr>tts_capabilities = [StreamingTts], tts_synthesize = scripted_synthesize\<rparr>,
        ps_tools = c,
        ps_realtime_speech = Some \<lparr>speech_capabilities = [RealtimeSpeech], speech_converse = scripted_converse\<rparr>,
        tool_execution_enabled = (tools \<noteq> [])\<rparr>)
       (with_concurrency tools n)"

definition resolve_scripted ::
  "(json \<Rightarrow> string) \<Rightarrow> (string \<Rightarrow> json option) \<Rightarrow> AgentManifest \<Rightarrow> ProviderSet result option" where
  "resolve_scripted print from_str m =
     (case scripted_with_tool_concurrency print from_str (agent_tools (agent_definition m))
             (max_concurrent_tools (agent_limits (agent_definition m))) of
        None \<Rightarrow> None
      | Some p \<Rightarrow> Some (andR (ensure_capabilities p (required_capabilities m)) (Inr p)))"

definition scripted_reference :: "ProviderReference \<Rightarrow> bool" where
  "scripted_reference r \<longleftrightarrow> ref_provider r = ''scripted'' \<and> ref_model r = ''scripted-v1'' \<and> ref_settings r = []"

definition ScriptedProviderResolver_resolve ::
  "(json \<Rightarrow> string) \<Rightarrow> (string \<Rightarrow> json option) \<Rightarrow> AgentManifest \<Rightarrow> ProviderSet result option" where
  "ScriptedProviderResolver_resolve print from_str m =
     (let ps = agent_providers (agent_definition m) in
      if list_ex (\<lambda>r. \<not> scripted_reference r) [speech_to_text ps, reasoning ps, text_to_speech ps]
      then Some (Inl (InvalidRequest
        ''cloud scripted providers require provider=scripted, model=scripted-v1, and empty settings''))
      else if agent_tools (agent_definition m) \<noteq> []
      then Some (Inl (InvalidRequest ''scripted cloud shards do not execute deployed customer tools''))
      else resolve_scripted print from_str m)"

definition LocalScriptedProviderResolver_resolve ::
  "(json \<Rightarrow> string) \<Rightarrow> (string \<Rightarrow> json option) \<Rightarrow> AgentManifest \<Rightarrow> ProviderSet result option" where
  "LocalScriptedProviderResolver_resolve print from_str m =
     (if agent_tools (agent_definition m) \<noteq> []
      then Some (Inl (InvalidRequest
        ''local scripted execution does not run deployment tools without an explicit adapter''))
      else resolve_scripted print from_str m)"

subsection \<open>Facts\<close>

lemma set_capabilities:
  "set (capabilities p) = set (stt_capabilities (ps_speech_to_text p)) \<union> set (reasoner_capabilities (ps_reasoner p))
     \<union> set (tts_capabilities (ps_text_to_speech p)) \<union> (if tool_execution_enabled p then {ToolExecution} else {})
     \<union> (case ps_realtime_speech p of None \<Rightarrow> {} | Some m \<Rightarrow> set (speech_capabilities m))"
  by (auto simp: capabilities_def Let_def set_insort_insert split: option.split)

lemma ensure_capabilities_ok:
  "ensure_capabilities p required = Inr () \<longleftrightarrow> set required \<subseteq> capability_as_str ` set (capabilities p)"
  by (auto simp: ensure_capabilities_def Let_def filter_empty_conv)

lemma length_i16_bytes [simp]: "length (i16_to_le_bytes w) = 2"
  by (simp add: i16_to_le_bytes_def)

lemma length_scripted_pcm_chunk: "length (scripted_pcm_chunk w rate) = 2 * max (rate div 100) 1"
proof -
  have "length (concat (map (\<lambda>i. i16_to_le_bytes (g i)) [0..<n])) = 2 * n" for g :: "nat \<Rightarrow> 16 word" and n
    by (induction n) simp_all
  then show ?thesis by (simp add: scripted_pcm_chunk_def Let_def)
qed

lemma yield_all_not_cancelled: "(\<And>i. \<not> cancel i) \<Longrightarrow> yield_all st cancel i xs = map Inr xs"
  by (induction st cancel i xs rule: yield_all.induct) auto

lemma yield_all_prefix:
  "\<exists>n. yield_all st cancel i xs = map Inr xs \<or>
     yield_all st cancel i xs = map Inr (take n xs) @ [Inl (provider_error_cancelled st)]"
proof (induction st cancel i xs rule: yield_all.induct)
  case (2 st cancel i x xs)
  then show ?case
    by (cases "cancel i") (auto intro: exI [of _ 0] exI [of _ "Suc n" for n])
qed simp

lemma yield_all_items: "Inr x \<in> set (yield_all st cancel i xs) \<Longrightarrow> x \<in> set xs"
  by (induction st cancel i xs rule: yield_all.induct) (auto split: if_splits)

abbreviation demo_scripted_manifest :: AgentManifest where
  "demo_scripted_manifest \<equiv> demo_manifest
     \<lparr>agent_definition := (agent_definition demo_manifest)\<lparr>agent_tools := []\<rparr>,
      required_capabilities := [''batch-stt'', ''streaming-reasoning'', ''streaming-tts'']\<rparr>"

lemma demo_scripted_valid: "manifest_validate demo_ser (\<lambda>_. None) demo_scripted_manifest = Inr ()"
proof -
  have "capability_set_ok False (insort_insert ''streaming-tts''
      (insort_insert ''streaming-reasoning'' (insort_insert ''batch-stt'' []))) = Inr ()"
    by (auto simp: capability_set_ok_def set_insort_insert allowed_capabilities_def find_None_iff
        dest!: find_Some_set split: option.split)
  with demo_slugs demo_artifact show ?thesis
    by (simp add: manifest_validate_def Let_def CONTRACT_VERSION_def reference_ok_def limits_ok_def
        default_limits_def set_insort_insert)
qed

subsection \<open>Properties\<close>

text \<open>
  For a valid tool-free manifest that selects the scripted providers,
  resolution succeeds with exactly the four scripted capabilities, unless streaming-stt is
  required: then it is refused by name.
\<close>

lemma scripted_capability_negotiation:
  assumes ok: "manifest_validate ser url_scheme m = Inr ()"
    and scripted: "\<And>r. r \<in> {speech_to_text (agent_providers (agent_definition m)),
      reasoning (agent_providers (agent_definition m)), text_to_speech (agent_providers (agent_definition m))}
      \<Longrightarrow> scripted_reference r"
    and no_tools: "agent_tools (agent_definition m) = []"
  shows "\<exists>p. ScriptedProviderResolver_resolve print from_str m =
      Some (if ''streaming-stt'' \<in> set (required_capabilities m)
            then Inl (InvalidRequest ''deployment requires unavailable capabilities: streaming-stt'')
            else Inr p) \<and>
    capabilities p = [BatchStt, StreamingReasoning, StreamingTts, RealtimeSpeech]"
proof -
  have "0 < max_concurrent_tools (agent_limits (agent_definition m))"
    "max_concurrent_tools (agent_limits (agent_definition m)) \<le> MAX_PERMITS"
    using manifest_ok [OF ok] by (simp_all add: limits_ok_def MAX_PERMITS_def u64_max_def)
  then obtain p where p: "scripted_with_tool_concurrency print from_str [] (max_concurrent_tools
      (agent_limits (agent_definition m))) = Some p"
    and caps: "capabilities p = [BatchStt, StreamingReasoning, StreamingTts, RealtimeSpeech]"
    by (auto simp: scripted_with_tool_concurrency_def with_concurrency_def capabilities_def Let_def
        btree_set_extend_def insort_insert_key_def less_eq_ProviderCapability_def)
  let ?req = "required_capabilities m"
  have req: "set ?req \<subseteq> set allowed_capabilities" "''tool-execution'' \<notin> set ?req" "distinct ?req"
    using manifest_ok [OF ok] no_tools by auto
  let ?miss = "filter (\<lambda>c. c \<notin> set (btree_set_extend [] (map capability_as_str (capabilities p)))) ?req"
  have "c \<in> capability_as_str ` set (capabilities p) \<longleftrightarrow> c \<noteq> ''streaming-stt''" if "c \<in> set ?req" for c
  proof -
    have "c \<in> set allowed_capabilities" "c \<noteq> ''tool-execution''" using that req(1,2) by blast+
    then show ?thesis by (simp add: caps allowed_capabilities_def) (elim disjE; simp)
  qed
  then have "?miss = filter (\<lambda>c. c = ''streaming-stt'') ?req" by (intro filter_cong) auto
  moreover have "filter (\<lambda>c. c = x) xs = (if x \<in> set xs then [x] else [])" if "distinct xs" for x :: string and xs
    using that by (induction xs) (auto simp: filter_empty_conv)
  ultimately have "?miss = (if ''streaming-stt'' \<in> set ?req then [''streaming-stt''] else [])"
    using req(3) by simp
  then have "ensure_capabilities p ?req = (if ''streaming-stt'' \<in> set ?req
      then Inl (InvalidRequest ''deployment requires unavailable capabilities: streaming-stt'') else Inr ())"
    by (simp add: ensure_capabilities_def Let_def)
  then show ?thesis
    using p caps no_tools scripted
    by (intro exI [of _ p])
      (simp add: ScriptedProviderResolver_resolve_def resolve_scripted_def Let_def andR_def)
qed

text \<open>
  Every chunk the scripted synthesizer yields at a valid sample rate is a valid PCM
  payload: framed under a valid header it passes the frame validation.
\<close>

lemma scripted_audio_is_framable:
  assumes "Inr chunk \<in> set (scripted_synthesize req cancel)"
    and "8000 \<le> synthesis_sample_rate_hz req" "synthesis_sample_rate_hz req \<le> 48000"
    and hdr: "message_type h = ''audio.chunk''" "hdr_channels h = 1"
      "hdr_sample_rate_hz h = synthesis_sample_rate_hz req"
      "hdr_response_id h \<noteq> []" "length (hdr_response_id h) \<le> 160"
    and env: "envelope_validate (hdr_envelope h) (env_session_id (hdr_envelope h))
      (env_runtime_generation (hdr_envelope h)) = Inr ()"
  shows "frame_validate \<lparr>frame_header = h, frame_audio = chunk\<rparr> = Inr ()"
proof -
  obtain w where "chunk = scripted_pcm_chunk w (synthesis_sample_rate_hz req)"
    using assms(1) by (auto simp: scripted_synthesize_def dest!: yield_all_items)
  then have "length chunk = 2 * (synthesis_sample_rate_hz req div 100)"
    using assms(2) by (simp add: length_scripted_pcm_chunk)
  moreover have "80 \<le> synthesis_sample_rate_hz req div 100" "synthesis_sample_rate_hz req div 100 \<le> 480"
    using assms(2,3) by (auto simp: div_le_mono [of 8000 _ 100, simplified] div_le_mono [of _ 48000 100, simplified])
  ultimately show ?thesis
    using hdr env assms(2,3) by (auto simp: frame_validate_def Let_def MAX_AUDIO_PAYLOAD_BYTES_def)
qed

end
