(* ===== verification/History.thy ===== *)
theory History
  imports Provider
begin

text \<open>
  The bounded conversation history of a session (\<open>session.rs\<close>, \<open>push_history\<close> to
  \<open>evict_oldest_history_group\<close>): messages, the byte count of their JSON encodings and the two
  bounds. \<open>enc\<close> is \<open>serde_json::to_vec\<close> on a message: an error or the length of its encoding.
\<close>

subsection \<open>Operations\<close>

record History =
  history :: "ConversationMessage list"
  history_bytes :: usize

definition history_new :: History where
  "history_new = \<lparr>history = [], history_bytes = 0\<rparr>"

record history_limits =
  hl_max_messages :: usize
  hl_max_bytes :: usize

type_synonym message_encoder = "ConversationMessage \<Rightarrow> string + nat"

text \<open>How many messages the oldest group has: a tool call goes with its result.\<close>

definition oldest_group :: "ConversationMessage list \<Rightarrow> nat result" where
  "oldest_group ms =
     (case ms of
        [] \<Rightarrow> Inl (Internal ''conversation history accounting is inconsistent'')
      | AssistantToolCall expected_id expected_name _ # rest \<Rightarrow>
          (case rest of
             ConversationMessage.Tool cid name _ # _ \<Rightarrow>
               if expected_id = cid \<and> expected_name = name then Inr 2
               else Inl (Internal ''conversation history contains an unmatched tool message'')
           | _ \<Rightarrow> Inl (Internal ''conversation history contains an unmatched tool message''))
      | ConversationMessage.Tool _ _ _ # _ \<Rightarrow>
          Inl (Internal ''conversation history contains an unmatched tool message'')
      | _ # _ \<Rightarrow> Inr 1)"

definition pop_oldest :: "message_encoder \<Rightarrow> (History, RuntimeError, unit) action" where
  "pop_oldest enc = (\<lambda>h.
     case history h of
       [] \<Rightarrow> (Inl (Internal ''conversation history accounting is inconsistent''), h)
     | expired # rest \<Rightarrow>
         (case enc expired of
            Inl e \<Rightarrow> (Inl (RuntimeError.Json e), h\<lparr>history := rest\<rparr>)
          | Inr n \<Rightarrow> (Inr (), h\<lparr>history := rest, history_bytes := saturating_sub (history_bytes h) n\<rparr>)))"

fun pop_times :: "message_encoder \<Rightarrow> nat \<Rightarrow> (History, RuntimeError, unit) action" where
  "pop_times enc 0 = returnE ()"
| "pop_times enc (Suc n) = thenE (pop_oldest enc) (pop_times enc n)"

definition evict_oldest_history_group :: "message_encoder \<Rightarrow> (History, RuntimeError, unit) action" where
  "evict_oldest_history_group enc =
     readE (\<lambda>h. oldest_group (history h)) (\<lambda>r. bindE (liftE r) (pop_times enc))"

definition over_limit :: "history_limits \<Rightarrow> nat \<Rightarrow> nat \<Rightarrow> History \<Rightarrow> bool" where
  "over_limit l count bytes h \<longleftrightarrow>
     saturating_add (length (history h)) count > hl_max_messages l \<or>
     saturating_add (history_bytes h) bytes > hl_max_bytes l"

lemma oldest_group_ok: "oldest_group ms = Inr n \<Longrightarrow> 0 < n \<and> n \<le> length ms"
  by (auto simp: oldest_group_def split: list.splits ConversationMessage.splits if_splits)

lemma pop_times_length: "pop_times enc n h = (Inr (), h') \<Longrightarrow> length (history h') + n = length (history h)"
proof (induction n arbitrary: h)
  case (Suc n)
  from Suc.prems obtain h1 where "pop_oldest enc h = (Inr (), h1)" "pop_times enc n h1 = (Inr (), h')"
    by (auto simp: thenE_def bindE_def split: prod.splits sum.splits)
  with Suc.IH [of h1] show ?case by (auto simp: pop_oldest_def split: list.splits sum.splits)
qed (simp add: returnE_def)

lemma evict_shrinks:
  "evict_oldest_history_group enc h = (Inr (), h') \<Longrightarrow> length (history h') < length (history h)"
  using oldest_group_ok pop_times_length
  by (fastforce simp: evict_oldest_history_group_def readE_def bindE_def liftE_def split: sum.splits)

text \<open>The \<open>while\<close> loop of \<open>push_history_group\<close>; every eviction removes a message, so it ends.\<close>

function evict_until ::
  "message_encoder \<Rightarrow> history_limits \<Rightarrow> nat \<Rightarrow> nat \<Rightarrow> History \<Rightarrow> unit result \<times> History" where
  "evict_until enc l count bytes h =
     (if over_limit l count bytes h then
        (case evict_oldest_history_group enc h of
           (Inl e, h') \<Rightarrow> (Inl e, h')
         | (Inr _, h') \<Rightarrow> evict_until enc l count bytes h')
      else (Inr (), h))"
  by pat_completeness auto
termination
  by (relation "measure (\<lambda>(enc, l, count, bytes, h). length (history h))")
    (auto intro!: evict_shrinks dest: sym)

declare evict_until.simps [simp del]

fun encode_all :: "message_encoder \<Rightarrow> ConversationMessage list \<Rightarrow> nat list result" where
  "encode_all enc [] = Inr []"
| "encode_all enc (m # ms) =
     (case enc m of
        Inl e \<Rightarrow> Inl (RuntimeError.Json e)
      | Inr n \<Rightarrow> (case encode_all enc ms of Inl e \<Rightarrow> Inl e | Inr ns \<Rightarrow> Inr (n # ns)))"

definition append_messages :: "(ConversationMessage \<times> nat) list \<Rightarrow> History \<Rightarrow> History" where
  "append_messages mns h =
     fold (\<lambda>(m, n) h. h\<lparr>history_bytes := saturating_add (history_bytes h) n, history := history h @ [m]\<rparr>) mns h"

definition push_history_group ::
  "message_encoder \<Rightarrow> history_limits \<Rightarrow> ConversationMessage list \<Rightarrow> (History, RuntimeError, unit) action" where
  "push_history_group enc l ms = (\<lambda>h.
     case encode_all enc ms of
       Inl e \<Rightarrow> (Inl e, h)
     | Inr sizes \<Rightarrow>
         let group_bytes = sum_list sizes in
         if ms = [] \<or> length ms > hl_max_messages l \<or> group_bytes > hl_max_bytes l
         then (Inl (RuntimeError.Provider ''history'' ''one provider history group exceeds its bound''), h)
         else (case evict_until enc l (length ms) group_bytes h of
                 (Inl e, h') \<Rightarrow> (Inl e, h')
               | (Inr _, h') \<Rightarrow> (Inr (), append_messages (zip ms sizes) h')))"

definition push_history :: "message_encoder \<Rightarrow> history_limits \<Rightarrow> ConversationMessage \<Rightarrow> (History, RuntimeError, unit) action" where
  "push_history enc l m = push_history_group enc l [m]"

record PendingToolCall =
  pending_call_id :: string
  pending_name :: string
  pending_input :: json

definition push_tool_history_pair ::
  "message_encoder \<Rightarrow> history_limits \<Rightarrow> PendingToolCall \<Rightarrow> json \<Rightarrow> (History, RuntimeError, unit) action" where
  "push_tool_history_pair enc l call output =
     push_history_group enc l
       [AssistantToolCall (pending_call_id call) (pending_name call) (pending_input call),
        ConversationMessage.Tool (pending_call_id call) (pending_name call) output]"

subsection \<open>The invariant\<close>

text \<open>Every tool call of a grouped history stands right before its result.\<close>

fun grouped :: "ConversationMessage list \<Rightarrow> bool" where
  "grouped [] = True"
| "grouped (AssistantToolCall i n _ # ms) =
     (case ms of ConversationMessage.Tool i' n' _ # rest \<Rightarrow> i = i' \<and> n = n' \<and> grouped rest | _ \<Rightarrow> False)"
| "grouped (ConversationMessage.Tool _ _ _ # _) = False"
| "grouped (_ # ms) = grouped ms"

definition msg_size :: "message_encoder \<Rightarrow> ConversationMessage \<Rightarrow> nat" where
  "msg_size enc m = (case enc m of Inl _ \<Rightarrow> 0 | Inr n \<Rightarrow> n)"

definition encodable :: "message_encoder \<Rightarrow> ConversationMessage list \<Rightarrow> bool" where
  "encodable enc ms \<longleftrightarrow> (\<forall>m \<in> set ms. \<exists>n. enc m = Inr n)"

abbreviation total_size :: "message_encoder \<Rightarrow> ConversationMessage list \<Rightarrow> nat" where
  "total_size enc ms \<equiv> sum_list (map (msg_size enc) ms)"

definition fits :: "message_encoder \<Rightarrow> history_limits \<Rightarrow> ConversationMessage list \<Rightarrow> bool" where
  "fits enc l ms \<longleftrightarrow> length ms \<le> hl_max_messages l \<and> total_size enc ms \<le> hl_max_bytes l"

definition history_inv :: "message_encoder \<Rightarrow> history_limits \<Rightarrow> History \<Rightarrow> bool" where
  "history_inv enc l h \<longleftrightarrow>
     grouped (history h) \<and> encodable enc (history h) \<and>
     history_bytes h = total_size enc (history h) \<and> fits enc l (history h)"

definition limits_wf :: "history_limits \<Rightarrow> bool" where
  "limits_wf l \<longleftrightarrow> 2 \<le> hl_max_messages l \<and> hl_max_messages l < u64_max \<and> hl_max_bytes l < u64_max"

lemma msg_size_Inr [simp]: "enc m = Inr k \<Longrightarrow> msg_size enc m = k"
  by (simp add: msg_size_def)

lemma over_limit_iff:
  "limits_wf l \<Longrightarrow> over_limit l count bytes h \<longleftrightarrow>
     \<not> (length (history h) + count \<le> hl_max_messages l \<and> history_bytes h + bytes \<le> hl_max_bytes l)"
  unfolding over_limit_def limits_wf_def
  using saturating_add_bound [of "hl_max_messages l" "length (history h)" count]
    saturating_add_bound [of "hl_max_bytes l" "history_bytes h" bytes]
  by linarith

lemma encodable_simps [simp]:
  "encodable enc []" "encodable enc (m # ms) \<longleftrightarrow> (\<exists>n. enc m = Inr n) \<and> encodable enc ms"
  "encodable enc (ms @ ms') \<longleftrightarrow> encodable enc ms \<and> encodable enc ms'"
  by (auto simp: encodable_def)

lemma encode_all_ok: "encodable enc ms \<Longrightarrow> encode_all enc ms = Inr (map (msg_size enc) ms)"
  by (induction ms) (auto simp: msg_size_def)

lemma encode_all_Inr: "encode_all enc ms = Inr ns \<Longrightarrow> encodable enc ms"
  by (induction ms arbitrary: ns) (auto split: sum.splits)

lemma grouped_append: "grouped xs \<Longrightarrow> grouped ys \<Longrightarrow> grouped (xs @ ys)"
  by (induction xs rule: grouped.induct) (auto split: list.splits ConversationMessage.splits)

text \<open>In a grouped history the oldest group is complete: no branch for an inconsistent one is taken.\<close>

lemma grouped_oldest:
  assumes "grouped ms" "ms \<noteq> []"
  shows "\<exists>n. oldest_group ms = Inr n \<and> 0 < n \<and> n \<le> length ms \<and> grouped (drop n ms) \<and>
    (\<forall>k. 0 < k \<and> k < n \<longrightarrow> \<not> grouped (drop k ms))"
  using assms
proof (cases ms rule: grouped.cases)
  case (2 i nm x rest)
  with assms(1) obtain y rest' where "rest = ConversationMessage.Tool i nm y # rest'" "grouped rest'"
    by (auto split: list.splits ConversationMessage.splits)
  with 2 show ?thesis
    by (intro exI [of _ 2]) (auto simp: oldest_group_def less_2_cases_iff)
qed (auto simp: oldest_group_def)

lemma pop_times_ok:
  "encodable enc (take n (history h)) \<Longrightarrow> n \<le> length (history h) \<Longrightarrow>
   history_bytes h = total_size enc (history h) \<Longrightarrow>
   pop_times enc n h = (Inr (), h\<lparr>history := drop n (history h), history_bytes := total_size enc (drop n (history h))\<rparr>)"
proof (induction n arbitrary: h)
  case (Suc n)
  then obtain m ms where m: "history h = m # ms" by (cases "history h") auto
  with Suc.prems obtain k where k: "enc m = Inr k" by auto
  let ?h = "h\<lparr>history := ms, history_bytes := total_size enc ms\<rparr>"
  have "pop_oldest enc h = (Inr (), ?h)"
    using Suc.prems(3) m k by (simp add: pop_oldest_def)
  moreover have "pop_times enc n ?h = (Inr (), ?h\<lparr>history := drop n ms, history_bytes := total_size enc (drop n ms)\<rparr>)"
    using Suc.IH [of ?h] Suc.prems m by simp
  ultimately show ?case using m by (simp add: thenE_def bindE_def)
qed (simp add: returnE_def)

text \<open>
  The loop stops at the first group boundary from which the rest fits together with the new
  group: it always ends with success, and it never evicts more than it has to.
\<close>

text \<open>One eviction removes the oldest group, and no smaller prefix leaves whole groups behind.\<close>

lemma evict_group_ok:
  assumes "grouped (history h)" "encodable enc (history h)" "history_bytes h = total_size enc (history h)" "history h \<noteq> []"
  obtains n where "0 < n" "n \<le> length (history h)" "grouped (drop n (history h))" "encodable enc (drop n (history h))"
    "\<And>k. 0 < k \<Longrightarrow> k < n \<Longrightarrow> \<not> grouped (drop k (history h))"
    "evict_oldest_history_group enc h =
       (Inr (), h\<lparr>history := drop n (history h), history_bytes := total_size enc (drop n (history h))\<rparr>)"
proof -
  obtain n where n: "oldest_group (history h) = Inr n" "0 < n" "n \<le> length (history h)" "grouped (drop n (history h))"
    "\<And>k. 0 < k \<Longrightarrow> k < n \<Longrightarrow> \<not> grouped (drop k (history h))"
    using grouped_oldest [OF assms(1,4)] by blast
  have "encodable enc (take n (history h))" "encodable enc (drop n (history h))"
    using assms(2) by (auto simp: encodable_def dest: in_set_takeD in_set_dropD)
  moreover from this have "evict_oldest_history_group enc h =
      (Inr (), h\<lparr>history := drop n (history h), history_bytes := total_size enc (drop n (history h))\<rparr>)"
    using pop_times_ok [of enc n h] n assms(3)
    by (simp add: evict_oldest_history_group_def readE_def bindE_def liftE_def)
  ultimately show ?thesis using that n by blast
qed

text \<open>Where a first group goes and then the fewest of the rest, the fewest groups go.\<close>

lemma drop_minimal:
  assumes "\<And>k. 0 < k \<Longrightarrow> k < n \<Longrightarrow> \<not> P (drop k ms)" and "\<not> Q ms"
    and "\<forall>k < j. P (drop k (drop n ms)) \<longrightarrow> \<not> Q (drop k (drop n ms))" and "k < n + j" and "P (drop k ms)"
  shows "\<not> Q (drop k ms)"
proof (cases "k < n")
  case True
  then have "k = 0" using assms(1,5) by auto
  then show ?thesis using assms(2) by simp
next
  case False
  then have eq: "drop k ms = drop (k - n) (drop n ms)" by simp
  have "k - n < j" using False assms(4) by simp
  moreover have "P (drop (k - n) (drop n ms))" using assms(5) unfolding eq .
  ultimately have "\<not> Q (drop (k - n) (drop n ms))" using assms(3) by blast
  then show ?thesis unfolding eq .
qed

lemma evict_until_spec:
  assumes "grouped (history h)" "encodable enc (history h)" "history_bytes h = total_size enc (history h)"
    "limits_wf l" "count \<le> hl_max_messages l" "bytes \<le> hl_max_bytes l"
  shows "\<exists>n. evict_until enc l count bytes h
      = (Inr (), h\<lparr>history := drop n (history h), history_bytes := total_size enc (drop n (history h))\<rparr>) \<and>
    n \<le> length (history h) \<and> grouped (drop n (history h)) \<and>
    length (drop n (history h)) + count \<le> hl_max_messages l \<and>
    total_size enc (drop n (history h)) + bytes \<le> hl_max_bytes l \<and>
    (\<forall>k < n. grouped (drop k (history h)) \<longrightarrow>
       \<not> (length (drop k (history h)) + count \<le> hl_max_messages l \<and>
          total_size enc (drop k (history h)) + bytes \<le> hl_max_bytes l))"
  using assms
proof (induction "length (history h)" arbitrary: h rule: less_induct)
  case less
  let ?ms = "history h"
  have over: "over_limit l count bytes h \<longleftrightarrow>
      \<not> (length ?ms + count \<le> hl_max_messages l \<and> total_size enc ?ms + bytes \<le> hl_max_bytes l)"
    using over_limit_iff [OF less.prems(4)] less.prems(3) by simp
  show ?case
  proof (cases "over_limit l count bytes h")
    case False
    then show ?thesis using over less.prems by (intro exI [of _ 0]) (simp add: evict_until.simps)
  next
    case True
    then have "?ms \<noteq> []" using over less.prems(5,6) by auto
    then obtain n where n: "0 < n" "n \<le> length ?ms" "grouped (drop n ?ms)" "encodable enc (drop n ?ms)"
      "\<And>k. 0 < k \<Longrightarrow> k < n \<Longrightarrow> \<not> grouped (drop k ?ms)" and evicted: "evict_oldest_history_group enc h =
        (Inr (), h\<lparr>history := drop n ?ms, history_bytes := total_size enc (drop n ?ms)\<rparr>)"
      using evict_group_ok [OF less.prems(1-3)] by blast
    define h1 where "h1 = h\<lparr>history := drop n ?ms, history_bytes := total_size enc (drop n ?ms)\<rparr>"
    note ev = evicted [folded h1_def]
    have "length (history h1) < length ?ms" using n by (simp add: h1_def)
    then obtain j where j: "evict_until enc l count bytes h1
        = (Inr (), h1\<lparr>history := drop j (history h1), history_bytes := total_size enc (drop j (history h1))\<rparr>)"
      "j \<le> length (history h1)" "grouped (drop j (history h1))"
      "length (drop j (history h1)) + count \<le> hl_max_messages l"
      "total_size enc (drop j (history h1)) + bytes \<le> hl_max_bytes l"
      "\<forall>k < j. grouped (drop k (history h1)) \<longrightarrow>
         \<not> (length (drop k (history h1)) + count \<le> hl_max_messages l \<and>
            total_size enc (drop k (history h1)) + bytes \<le> hl_max_bytes l)"
      using less.hyps [of h1] less.prems(4-6) n(3,4) by (auto simp: h1_def)
    have min: "\<not> (length (drop k ?ms) + count \<le> hl_max_messages l \<and> total_size enc (drop k ?ms) + bytes \<le> hl_max_bytes l)"
      if "k < n + j" "grouped (drop k ?ms)" for k
      by (rule drop_minimal [where P = grouped and n = n and j = j
            and Q = "\<lambda>ms. length ms + count \<le> hl_max_messages l \<and> total_size enc ms + bytes \<le> hl_max_bytes l"])
        (use n(5) over True j(6) that in \<open>simp_all add: h1_def\<close>)
    show ?thesis
      using j min n ev True
      by (intro exI [of _ "n + j"]) (simp add: evict_until.simps [of _ _ _ _ h] h1_def add.commute)
  qed
qed

lemma append_messages_ok:
  assumes "history_bytes h + total_size enc ms \<le> u64_max"
  shows "append_messages (zip ms (map (msg_size enc) ms)) h =
    h\<lparr>history := history h @ ms, history_bytes := history_bytes h + total_size enc ms\<rparr>"
  using assms
proof (induction ms arbitrary: h)
  case (Cons m ms)
  let ?h = "h\<lparr>history_bytes := history_bytes h + msg_size enc m, history := history h @ [m]\<rparr>"
  have "append_messages (zip (m # ms) (map (msg_size enc) (m # ms))) h
      = append_messages (zip ms (map (msg_size enc) ms)) ?h"
    using Cons.prems by (simp add: append_messages_def saturating_add_def)
  then show ?case using Cons.IH [of ?h] Cons.prems by (simp add: add.assoc)
qed (simp add: append_messages_def)

lemma push_group_spec:
  assumes inv: "history_inv enc l h" and l: "limits_wf l" and ms: "ms \<noteq> []" "grouped ms" "encodable enc ms"
    and fit: "fits enc l ms"
  shows "\<exists>n \<le> length (history h). push_history_group enc l ms h =
      (Inr (), \<lparr>history = drop n (history h) @ ms,
         history_bytes = total_size enc (drop n (history h) @ ms)\<rparr>) \<and>
    history_inv enc l \<lparr>history = drop n (history h) @ ms,
         history_bytes = total_size enc (drop n (history h) @ ms)\<rparr> \<and>
    (\<forall>k < n. grouped (drop k (history h)) \<longrightarrow> \<not> fits enc l (drop k (history h) @ ms))"
proof -
  have i: "grouped (history h)" "encodable enc (history h)" "history_bytes h = total_size enc (history h)"
    using inv by (simp_all add: history_inv_def)
  obtain n where n: "evict_until enc l (length ms) (total_size enc ms) h
      = (Inr (), h\<lparr>history := drop n (history h), history_bytes := total_size enc (drop n (history h))\<rparr>)"
    "n \<le> length (history h)" "grouped (drop n (history h))"
    "length (drop n (history h)) + length ms \<le> hl_max_messages l"
    "total_size enc (drop n (history h)) + total_size enc ms \<le> hl_max_bytes l"
    "\<forall>k < n. grouped (drop k (history h)) \<longrightarrow>
       \<not> (length (drop k (history h)) + length ms \<le> hl_max_messages l \<and>
          total_size enc (drop k (history h)) + total_size enc ms \<le> hl_max_bytes l)"
    using evict_until_spec [OF i l, of "length ms" "total_size enc ms"] fit by (auto simp: fits_def)
  let ?h = "h\<lparr>history := drop n (history h), history_bytes := total_size enc (drop n (history h))\<rparr>"
  have "history_bytes ?h + total_size enc ms \<le> u64_max" using n(5) l by (simp add: limits_wf_def)
  note app = append_messages_ok [OF this]
  have push: "push_history_group enc l ms h = (Inr (), \<lparr>history = drop n (history h) @ ms,
         history_bytes = total_size enc (drop n (history h) @ ms)\<rparr>)"
    using n(1) ms fit app by (simp add: push_history_group_def encode_all_ok fits_def Let_def)
  have "encodable enc (drop n (history h))" using i(2) by (auto simp: encodable_def dest: in_set_dropD)
  then have "history_inv enc l \<lparr>history = drop n (history h) @ ms,
         history_bytes = total_size enc (drop n (history h) @ ms)\<rparr>"
    using n(3,4,5) ms by (simp add: history_inv_def fits_def grouped_append)
  with push n(2,6) show ?thesis by (intro exI [of _ n]) (simp add: fits_def)
qed

lemma history_inv_new: "history_inv enc l history_new"
  by (simp add: history_inv_def history_new_def fits_def)

lemma push_group_inv:
  assumes "history_inv enc l h" "limits_wf l" "grouped ms" "push_history_group enc l ms h = (r, h')"
  shows "history_inv enc l h' \<and> (\<forall>m. r \<noteq> Inl (Internal m))"
proof (cases "encode_all enc ms")
  case (Inl e)
  then have "\<exists>m. e = RuntimeError.Json m" by (induction ms) (auto split: sum.splits)
  with Inl assms show ?thesis by (auto simp: push_history_group_def)
next
  case (Inr ns)
  then have e: "encodable enc ms" by (rule encode_all_Inr)
  show ?thesis
  proof (cases "ms \<noteq> [] \<and> fits enc l ms")
    case True
    then obtain n where "push_history_group enc l ms h = (Inr (), \<lparr>history = drop n (history h) @ ms,
         history_bytes = total_size enc (drop n (history h) @ ms)\<rparr>)"
      "history_inv enc l \<lparr>history = drop n (history h) @ ms,
         history_bytes = total_size enc (drop n (history h) @ ms)\<rparr>"
      using push_group_spec [OF assms(1,2) _ assms(3) e] by blast
    with assms(4) show ?thesis by auto
  next
    case False
    with assms e show ?thesis
      by (auto simp: push_history_group_def encode_all_ok fits_def Let_def split: if_splits)
  qed
qed

subsection \<open>Properties\<close>

text \<open>
  C13 (functional). Pushing a group of messages onto a well-formed history always succeeds when
  the group itself fits the bounds, evicts whole groups from the oldest end and never more than
  needed, keeps every tool call next to its result and the byte count exact; a group that does
  not fit is refused and nothing changes.
\<close>

theorem history_push_keeps_newest:
  assumes inv: "history_inv enc l h" and l: "limits_wf l"
    and ms: "ms \<noteq> []" "grouped ms" "encodable enc ms"
  shows "if fits enc l ms
    then \<exists>n \<le> length (history h). \<exists>h'. push_history_group enc l ms h = (Inr (), h') \<and>
      history_inv enc l h' \<and> history h' = drop n (history h) @ ms \<and>
      (\<forall>k < n. grouped (drop k (history h)) \<longrightarrow> \<not> fits enc l (drop k (history h) @ ms))
    else push_history_group enc l ms h =
      (Inl (RuntimeError.Provider ''history'' ''one provider history group exceeds its bound''), h)"
proof (cases "fits enc l ms")
  case True
  from push_group_spec [OF inv l ms True] obtain n where n: "n \<le> length (history h)"
    "push_history_group enc l ms h = (Inr (), \<lparr>history = drop n (history h) @ ms,
       history_bytes = total_size enc (drop n (history h) @ ms)\<rparr>)"
    "history_inv enc l \<lparr>history = drop n (history h) @ ms,
       history_bytes = total_size enc (drop n (history h) @ ms)\<rparr>"
    "\<forall>k < n. grouped (drop k (history h)) \<longrightarrow> \<not> fits enc l (drop k (history h) @ ms)" by blast
  show ?thesis unfolding if_P [OF True] by (rule exI [of _ n], rule conjI, fact n(1), rule exI) (use n in auto)
next
  case False
  then show ?thesis using ms by (auto simp: push_history_group_def encode_all_ok fits_def Let_def)
qed

theorem history_push_keeps_newest_witness:
  "\<exists>h'. push_history_group (\<lambda>_. Inr 10) \<lparr>hl_max_messages = 3, hl_max_bytes = 25\<rparr> [User ''hi'']
       \<lparr>history = [AssistantToolCall ''c'' ''f'' JNull, ConversationMessage.Tool ''c'' ''f'' JNull],
        history_bytes = 20\<rparr> = (Inr (), h') \<and> history h' = [User ''hi'']"
proof -
  let ?enc = "\<lambda>_ :: ConversationMessage. Inr 10 :: string + nat"
    and ?l = "\<lparr>hl_max_messages = 3, hl_max_bytes = 25\<rparr>"
    and ?h = "\<lparr>history = [AssistantToolCall ''c'' ''f'' JNull, ConversationMessage.Tool ''c'' ''f'' JNull],
        history_bytes = 20\<rparr>"
  have "history_inv ?enc ?l ?h" by (simp add: history_inv_def fits_def)
  moreover have "limits_wf ?l" by (simp add: limits_wf_def u64_max_def)
  moreover have "fits ?enc ?l [User ''hi'']" by (simp add: fits_def)
  ultimately obtain n h' where n: "n \<le> Suc (Suc 0)" "push_history_group ?enc ?l [User ''hi''] ?h = (Inr (), h')"
    "history_inv ?enc ?l h'" "history h' = drop n (history ?h) @ [User ''hi'']"
    using history_push_keeps_newest [of ?enc ?l ?h "[User ''hi'']"] by auto
  then have "n = 2" by (cases n; cases "n - 1") (auto simp: history_inv_def fits_def)
  with n show ?thesis by auto
qed

end
