(* ===== verification/Pipeline.thy ===== *)
theory Pipeline
  imports Scripted History
begin

text \<open>
  The background tasks of a session (\<open>session.rs\<close>): the response task (\<open>spawn_response_pipeline\<close>:
  reasoning rounds, tool calls, synthesis) and the transcription task (\<open>commit_audio\<close>). A task is
  the list of the messages it sends to its actor when nothing cancels it; a task that is cancelled
  or aborted sends a prefix of that list.

  A provider stream, as the task sees it, is a list of results of
  \<open>timeout(event_timeout, stream.next())\<close>: an item, or \<open>Elapsed\<close>; the end of the list is the end of
  the stream.
\<close>

subsection \<open>Data\<close>

datatype 'a stream_next = Item "ProviderError + 'a" | Elapsed

datatype PipelineEvent =
    ReasoningDelta string
  | ToolStarted string string json
  | ToolCompleted string string json bool
  | ToolFailed string string string
  | ReasoningCompleted string
  | TtsStarted
  | Audio u64 "byte list"
  | TtsCompleted
  | Completed
  | Failed ProviderError

record PipelineLimits =
  event_timeout :: duration
  max_text_delta_bytes :: usize
  max_response_text_bytes :: usize
  max_audio_chunk_bytes :: usize
  max_response_audio_bytes :: usize

definition MAX_REASONING_ROUNDS :: usize where
  "MAX_REASONING_ROUNDS = 5"

definition MAX_TOOL_CALLS :: usize where
  "MAX_TOOL_CALLS = 16"

definition pipeline_failure :: "string \<Rightarrow> string \<Rightarrow> PipelineEvent" where
  "pipeline_failure st msg =
     Failed \<lparr>perr_stage = st, perr_kind = ProviderErrorKind.Permanent, perr_message = msg\<rparr>"

fun tool_error_code :: "ToolError \<Rightarrow> string" where
  "tool_error_code Undeclared = ''tool_undeclared''"
| "tool_error_code MissingIdempotencyKey = ''idempotency_key_missing''"
| "tool_error_code (InvalidInput _) = ''tool_input_invalid''"
| "tool_error_code AlreadyInFlight = ''tool_already_in_flight''"
| "tool_error_code (ToolError.CommitOnceUncertain _) = ''commit_once_uncertain''"
| "tool_error_code Timeout = ''tool_timeout''"
| "tool_error_code ToolError.Cancelled = ''tool_cancelled''"
| "tool_error_code (ToolError.Provider _) = ''tool_provider_failed''"
| "tool_error_code LedgerUnavailable = ''tool_ledger_unavailable''"
| "tool_error_code LedgerCapacity = ''tool_ledger_capacity''"
| "tool_error_code OutputTooLarge = ''tool_output_too_large''"

subsection \<open>The response task\<close>

text \<open>
  The inner loop of one reasoning round. \<open>None\<close>: the task has returned; \<open>Some\<close>: the round
  completed with its text and its tool calls.
\<close>

fun reason_loop ::
  "PipelineLimits \<Rightarrow> ReasoningEvent stream_next list \<Rightarrow> string \<Rightarrow> RequestedToolCall list \<Rightarrow>
   PipelineEvent list \<times> (string \<times> RequestedToolCall list) option" where
  "reason_loop l [] text calls =
     ([pipeline_failure ''reasoner'' ''reasoner ended without completion''], None)"
| "reason_loop l (Elapsed # _) text calls =
     ([pipeline_failure ''reasoner'' ''provider event deadline exceeded''], None)"
| "reason_loop l (Item (Inr (Delta d)) # items) text calls =
     (if d = [] \<or> length d > max_text_delta_bytes l
         \<or> saturating_add (length text) (length d) > max_response_text_bytes l
      then ([pipeline_failure ''reasoner'' ''provider text output exceeded its byte bound''], None)
      else let (evs, r) = reason_loop l items (text @ d) calls in (ReasoningDelta d # evs, r))"
| "reason_loop l (Item (Inr (ToolCall c)) # items) text calls =
     (if call_id c = [] \<or> length (call_id c) > 160 \<or> call_name c = [] \<or> length (call_name c) > 64
         \<or> \<not> is_object (call_input c)
      then ([pipeline_failure ''tool'' ''provider returned an invalid tool call''], None)
      else reason_loop l items text (calls @ [c]))"
| "reason_loop l (Item (Inr ReasoningEvent.Completed) # items) text calls = ([], Some (text, calls))"
| "reason_loop l (Item (Inl e) # items) text calls =
     (if perr_kind e = ProviderErrorKind.Cancelled then ([], None) else ([Failed e], None))"

definition tool_invocation :: "string \<Rightarrow> string \<Rightarrow> RequestedToolCall \<Rightarrow> ToolInvocation" where
  "tool_invocation sid rid c =
     \<lparr>inv_call_id = call_id c, inv_tool_name = call_name c, inv_input = call_input c,
      inv_idempotency_key = sid @ '':'' @ rid @ '':'' @ call_id c\<rparr>"

text \<open>The loop over the tool calls of a round. A call that waits for a permit blocks the task.\<close>

fun tool_loop ::
  "serializer \<Rightarrow> (ToolInvocation \<Rightarrow> tool_outcome) \<Rightarrow> string \<Rightarrow> string \<Rightarrow> RequestedToolCall list \<Rightarrow>
   ConversationMessage list \<Rightarrow> ToolCoordinator \<Rightarrow>
   PipelineEvent list \<times> ConversationMessage list option \<times> ToolCoordinator" where
  "tool_loop ser executor sid rid [] msgs c = ([], Some msgs, c)"
| "tool_loop ser executor sid rid (call # calls) msgs c =
     (let start = ToolStarted (call_id call) (call_name call) (call_input call) in
      case execute ser c (tool_invocation sid rid call) False executor of
        None \<Rightarrow> ([start], None, c)
      | Some (Inl e, c') \<Rightarrow>
          ([start, ToolFailed (call_id call) (call_name call) (tool_error_code e),
            Failed \<lparr>perr_stage = ''tool'', perr_kind = ProviderErrorKind.Permanent,
                    perr_message = tool_error_to_string e\<rparr>], None, c')
      | Some (Inr out, c') \<Rightarrow>
          let (evs, r) = tool_loop ser executor sid rid calls
                (msgs @ [AssistantToolCall (call_id call) (call_name call) (call_input call),
                         ConversationMessage.Tool (call_id call) (call_name call) (out_value out)]) c' in
          (start # ToolCompleted (call_id call) (call_name call) (out_value out) (out_cached out) # evs, r))"

text \<open>
  The rounds; \<open>left\<close> counts those that remain. The result is the response text, when the task goes
  on to synthesis. \<open>reason\<close> is the stream of the reasoner for a request.
\<close>

fun rounds ::
  "PipelineLimits \<Rightarrow> (ReasoningRequest \<Rightarrow> ReasoningEvent stream_next list) \<Rightarrow> serializer \<Rightarrow>
   (ToolInvocation \<Rightarrow> tool_outcome) \<Rightarrow> string \<Rightarrow> string \<Rightarrow> nat \<Rightarrow> ReasoningRequest \<Rightarrow> nat \<Rightarrow> ToolCoordinator \<Rightarrow>
   PipelineEvent list \<times> string option" where
  "rounds l reason ser executor sid rid 0 req tot c =
     ([pipeline_failure ''reasoner'' ''reasoner exhausted its round budget''], None)"
| "rounds l reason ser executor sid rid (Suc left) req tot c =
     (case reason_loop l (reason req) [] [] of
        (evs, None) \<Rightarrow> (evs, None)
      | (evs, Some (text, calls)) \<Rightarrow>
          if calls = [] then
            if trim text = []
            then (evs @ [pipeline_failure ''reasoner'' ''reasoner completed without text''], None)
            else (evs, Some text)
          else
            let tot' = saturating_add tot (length calls) in
            if tot' > MAX_TOOL_CALLS \<or> left = 0
            then (evs @ [pipeline_failure ''tool'' ''tool reasoning budget was exhausted''], None)
            else case tool_loop ser executor sid rid calls (messages req) c of
              (tevs, None, _) \<Rightarrow> (evs @ tevs, None)
            | (tevs, Some msgs, c') \<Rightarrow>
                let (revs, r) = rounds l reason ser executor sid rid left (req\<lparr>messages := msgs\<rparr>) tot' c' in
                (evs @ tevs @ revs, r))"

fun tts_loop :: "PipelineLimits \<Rightarrow> byte list stream_next list \<Rightarrow> u64 \<Rightarrow> usize \<Rightarrow> PipelineEvent list" where
  "tts_loop l [] sq tot =
     (if tot = 0 then [pipeline_failure ''tts'' ''provider completed without audio'']
      else [TtsCompleted, Completed])"
| "tts_loop l (Elapsed # _) sq tot = [pipeline_failure ''tts'' ''provider event deadline exceeded'']"
| "tts_loop l (Item (Inr bytes) # items) sq tot =
     (let tot' = saturating_add tot (length bytes) in
      if bytes = [] \<or> length bytes > max_audio_chunk_bytes l \<or> odd (length bytes)
         \<or> tot' > max_response_audio_bytes l
      then [pipeline_failure ''tts'' ''provider audio output exceeded its bound'']
      else Audio sq bytes # tts_loop l items (saturating_add sq 1) tot')"
| "tts_loop l (Item (Inl e) # items) sq tot =
     (if perr_kind e = ProviderErrorKind.Cancelled then [] else [Failed e])"

definition response_pipeline ::
  "PipelineLimits \<Rightarrow> (ReasoningRequest \<Rightarrow> ReasoningEvent stream_next list) \<Rightarrow> (SynthesisRequest \<Rightarrow> byte list stream_next list) \<Rightarrow>
   serializer \<Rightarrow> (ToolInvocation \<Rightarrow> tool_outcome) \<Rightarrow> ToolCoordinator \<Rightarrow> ReasoningRequest \<Rightarrow> string \<Rightarrow> nat \<Rightarrow>
   string \<Rightarrow> string \<Rightarrow> PipelineEvent list" where
  "response_pipeline l reason synthesize ser executor c req voice rate sid rid =
     (case rounds l reason ser executor sid rid MAX_REASONING_ROUNDS req 0 c of
        (evs, None) \<Rightarrow> evs
      | (evs, Some text) \<Rightarrow>
          evs @ [ReasoningCompleted text, TtsStarted] @
          tts_loop l (synthesize \<lparr>synthesis_text = text, synthesis_voice_id = voice,
                                  synthesis_sample_rate_hz = rate\<rparr>) 0 0)"

subsection \<open>The transcription task\<close>

datatype stt_message = SttUpdate "ProviderError + TranscriptSegment" | SttEnded bool

fun stt_task :: "TranscriptSegment stream_next list \<Rightarrow> stt_message list" where
  "stt_task [] = [SttEnded False]"
| "stt_task (Elapsed # _) =
     [SttUpdate (Inl \<lparr>perr_stage = ''stt'', perr_kind = ProviderErrorKind.Permanent,
                      perr_message = ''provider event deadline exceeded''\<rparr>)]"
| "stt_task (Item r # items) =
     SttUpdate r #
     (if (case r of Inr seg \<Rightarrow> is_final seg | Inl _ \<Rightarrow> False) then [SttEnded True] else stt_task items)"

subsection \<open>The order of a response\<close>

text \<open>
  The protocol between the task and its actor, as an automaton: deltas and tool calls alternate
  while the model reasons, every tool call is answered before the next, then the text is
  committed, spoken chunk by chunk and completed. A failure ends it.
\<close>

datatype response_state =
    Reasoning
  | InTool string string
  | ToolBroken
  | Answered
  | Speaking u64
  | Spoken
  | Ended

fun accept :: "response_state \<Rightarrow> PipelineEvent \<Rightarrow> response_state option" where
  "accept Reasoning (ReasoningDelta _) = Some Reasoning"
| "accept Reasoning (ToolStarted i n _) = Some (InTool i n)"
| "accept (InTool i n) (ToolCompleted i' n' _ _) = (if i = i' \<and> n = n' then Some Reasoning else None)"
| "accept (InTool i n) (ToolFailed i' n' _) = (if i = i' \<and> n = n' then Some ToolBroken else None)"
| "accept ToolBroken (Failed _) = Some Ended"
| "accept Reasoning (ReasoningCompleted _) = Some Answered"
| "accept Answered TtsStarted = Some (Speaking 0)"
| "accept (Speaking k) (Audio k' _) = (if k = k' then Some (Speaking (k + 1)) else None)"
| "accept (Speaking k) TtsCompleted = (if k > 0 then Some Spoken else None)"
| "accept Spoken Completed = Some Ended"
| "accept Reasoning (Failed _) = Some Ended"
| "accept (Speaking _) (Failed _) = Some Ended"
| "accept _ _ = None"

fun accept_all :: "response_state \<Rightarrow> PipelineEvent list \<Rightarrow> response_state option" where
  "accept_all q [] = Some q"
| "accept_all q (e # es) = (case accept q e of None \<Rightarrow> None | Some q' \<Rightarrow> accept_all q' es)"

lemma accept_all_append:
  "accept_all q (xs @ ys) = (case accept_all q xs of None \<Rightarrow> None | Some q' \<Rightarrow> accept_all q' ys)"
  by (induction xs arbitrary: q) (auto split: option.split)

lemma accept_all_deltas [simp]: "accept_all Reasoning (map ReasoningDelta ds) = Some Reasoning"
  by (induction ds) simp_all

lemma accept_failure [simp]: "accept Reasoning (pipeline_failure st m) = Some Ended"
  "accept (Speaking k) (pipeline_failure st m) = Some Ended"
  by (simp_all add: pipeline_failure_def)

subsection \<open>What each loop sends\<close>

definition reason_sent ::
  "PipelineLimits \<Rightarrow> string \<Rightarrow> RequestedToolCall list \<Rightarrow> PipelineEvent list \<Rightarrow>
   (string \<times> RequestedToolCall list) option \<Rightarrow> string list \<Rightarrow> PipelineEvent list \<Rightarrow> bool" where
  "reason_sent l tx calls evs r ds f \<longleftrightarrow>
     evs = map ReasoningDelta ds @ f \<and> (\<forall>d \<in> set ds. d \<noteq> [] \<and> length d \<le> max_text_delta_bytes l) \<and>
     (r = None \<and> (f = [] \<or> (\<exists>e. f = [Failed e])) \<or>
      f = [] \<and> (\<exists>cs. r = Some (tx @ concat ds, calls @ cs)) \<and>
        (ds = [] \<or> length (tx @ concat ds) \<le> max_response_text_bytes l))"

lemma reason_loop_sent:
  "reason_loop l items tx calls = (evs, r) \<Longrightarrow> max_response_text_bytes l < u64_max \<Longrightarrow>
   \<exists>ds f. reason_sent l tx calls evs r ds f"
proof (induction l items tx calls arbitrary: evs r rule: reason_loop.induct)
  case (3 l d items tx calls)
  show ?case
  proof (cases "d = [] \<or> length d > max_text_delta_bytes l
      \<or> saturating_add (length tx) (length d) > max_response_text_bytes l")
    case True
    with "3.prems" show ?thesis
      by (intro exI [of _ "[]"] exI [of _ evs]) (auto simp: reason_sent_def pipeline_failure_def)
  next
    case False
    obtain evs' where rec: "reason_loop l items (tx @ d) calls = (evs', r)" "evs = ReasoningDelta d # evs'"
      using "3.prems"(1) False by (auto split: prod.splits)
    obtain ds f where ds: "reason_sent l (tx @ d) calls evs' r ds f"
      using "3.IH" [OF False rec(1) "3.prems"(2)] by blast
    have "length (tx @ d) \<le> max_response_text_bytes l"
      using False "3.prems"(2) saturating_add_bound [of "max_response_text_bytes l" "length tx" "length d"] by auto
    then show ?thesis
      using ds rec(2) False by (intro exI [of _ "d # ds"] exI [of _ f]) (auto simp: reason_sent_def)
  qed
next
  case (4 l c items tx calls)
  show ?case
  proof (cases "call_id c = [] \<or> length (call_id c) > 160 \<or> call_name c = [] \<or> length (call_name c) > 64
      \<or> \<not> is_object (call_input c)")
    case True
    with "4.prems" show ?thesis
      by (intro exI [of _ "[]"] exI [of _ evs]) (auto simp: reason_sent_def pipeline_failure_def)
  next
    case False
    with "4.prems"(1) have "reason_loop l items tx (calls @ [c]) = (evs, r)" by (auto split: if_splits)
    with "4.IH" [OF False _ "4.prems"(2)] obtain ds f where "reason_sent l tx (calls @ [c]) evs r ds f" by blast
    then show ?thesis by (intro exI [of _ ds] exI [of _ f]) (auto simp: reason_sent_def)
  qed
next
  case (5 l items tx calls)
  then show ?case by (intro exI [of _ "[]"]) (auto simp: reason_sent_def)
next
  case (1 l tx calls)
  then show ?case
    by (intro exI [of _ "[]"] exI [of _ evs]) (auto simp: reason_sent_def pipeline_failure_def)
next
  case (2 l items tx calls)
  then show ?case
    by (intro exI [of _ "[]"] exI [of _ evs]) (auto simp: reason_sent_def pipeline_failure_def)
next
  case (6 l e items tx calls)
  then show ?case
    by (intro exI [of _ "[]"] exI [of _ evs]) (auto simp: reason_sent_def split: if_splits)
qed

text \<open>The bounds on a single event and the counts over a whole response.\<close>

fun event_ok :: "PipelineLimits \<Rightarrow> PipelineEvent \<Rightarrow> bool" where
  "event_ok l (ReasoningDelta d) \<longleftrightarrow> d \<noteq> [] \<and> length d \<le> max_text_delta_bytes l"
| "event_ok l (ReasoningCompleted t) \<longleftrightarrow> trim t \<noteq> [] \<and> length t \<le> max_response_text_bytes l"
| "event_ok l (Audio _ b) \<longleftrightarrow> b \<noteq> [] \<and> length b \<le> max_audio_chunk_bytes l \<and> even (length b)"
| "event_ok _ _ \<longleftrightarrow> True"

fun is_tool_start :: "PipelineEvent \<Rightarrow> bool" where
  "is_tool_start (ToolStarted _ _ _) \<longleftrightarrow> True"
| "is_tool_start _ \<longleftrightarrow> False"

fun audio_size :: "PipelineEvent \<Rightarrow> nat" where
  "audio_size (Audio _ b) = length b"
| "audio_size _ = 0"

abbreviation tool_starts :: "PipelineEvent list \<Rightarrow> nat" where
  "tool_starts evs \<equiv> length (filter is_tool_start evs)"

abbreviation audio_total :: "PipelineEvent list \<Rightarrow> nat" where
  "audio_total evs \<equiv> sum_list (map audio_size evs)"

lemma failure_facts [simp]:
  "event_ok l (pipeline_failure st m)" "\<not> is_tool_start (pipeline_failure st m)"
  "audio_size (pipeline_failure st m) = 0"
  by (simp_all add: pipeline_failure_def)

lemma reason_sent_facts:
  assumes "reason_sent l tx calls evs r ds f"
  shows "\<exists>q. accept_all Reasoning evs = Some q \<and> (r \<noteq> None \<longrightarrow> q = Reasoning)"
    and "\<forall>e \<in> set evs. event_ok l e" and "tool_starts evs = 0" and "audio_total evs = 0"
  using assms
  by (auto simp: reason_sent_def accept_all_append filter_map comp_def sum_list_map_eq_sum_count)

lemma tool_loop_facts:
  "tool_loop ser ex sid rid calls msgs c = (evs, r, c') \<Longrightarrow>
   (\<exists>q. accept_all Reasoning evs = Some q \<and> (r \<noteq> None \<longrightarrow> q = Reasoning)) \<and>
   (\<forall>e \<in> set evs. event_ok l e) \<and> tool_starts evs \<le> length calls \<and> audio_total evs = 0"
proof (induction ser ex sid rid calls msgs c arbitrary: evs r c' rule: tool_loop.induct)
  case (2 ser ex sid rid call calls msgs c)
  show ?case
  proof (cases "execute ser c (tool_invocation sid rid call) False ex")
    case None
    with "2.prems" show ?thesis by (auto simp: Let_def)
  next
    case (Some rc)
    then obtain r1 c1 where rc: "execute ser c (tool_invocation sid rid call) False ex = Some (r1, c1)"
      by (cases rc) simp
    show ?thesis
    proof (cases r1)
      case (Inl e)
      with rc "2.prems" show ?thesis by (auto simp: Let_def)
    next
      case (Inr out)
      let ?msgs = "msgs @ [AssistantToolCall (call_id call) (call_name call) (call_input call),
        ConversationMessage.Tool (call_id call) (call_name call) (out_value out)]"
      obtain evs' where "tool_loop ser ex sid rid calls ?msgs c1 = (evs', r, c')"
        and evs: "evs = ToolStarted (call_id call) (call_name call) (call_input call) #
          ToolCompleted (call_id call) (call_name call) (out_value out) (out_cached out) # evs'"
        using "2.prems" rc Inr by (auto simp: Let_def split: prod.splits)
      from "2.IH" [OF refl rc refl Inr this(1)] show ?thesis by (auto simp: evs)
    qed
  qed
qed simp

text \<open>
  \<open>stage_ok l n evs goes_on\<close>: what a stage of reasoning sends is accepted and within the bounds, starts at
  most \<open>n\<close> tools, and leaves the automaton in \<open>Reasoning\<close> when more is to come. Stages compose.
\<close>

definition stage_ok :: "PipelineLimits \<Rightarrow> nat \<Rightarrow> PipelineEvent list \<Rightarrow> bool \<Rightarrow> bool" where
  "stage_ok l n evs goes_on \<longleftrightarrow>
     (\<exists>q. accept_all Reasoning evs = Some q \<and> (goes_on \<longrightarrow> q = Reasoning)) \<and> (\<forall>e \<in> set evs. event_ok l e) \<and>
     tool_starts evs \<le> n \<and> audio_total evs = 0"

lemma stage_ok_append: "stage_ok l m evs True \<Longrightarrow> stage_ok l n evs' goes_on \<Longrightarrow> m + n \<le> k \<Longrightarrow> stage_ok l k (evs @ evs') goes_on"
  by (auto simp: stage_ok_def accept_all_append)

lemma stage_ok_mono: "stage_ok l m evs goes_on \<Longrightarrow> m \<le> n \<Longrightarrow> stage_ok l n evs goes_on"
  by (auto simp: stage_ok_def)

lemma stage_ok_failure: "stage_ok l n [pipeline_failure st m] False"
  by (auto simp: stage_ok_def)

lemma reason_stage:
  assumes "reason_loop l items [] [] = (evs, r)" "max_response_text_bytes l < u64_max"
  shows "stage_ok l 0 evs (r \<noteq> None)"
    and "\<And>t calls. r = Some (t, calls) \<Longrightarrow> trim t \<noteq> [] \<Longrightarrow> event_ok l (ReasoningCompleted t)"
proof -
  obtain ds f where sent: "reason_sent l [] [] evs r ds f" using reason_loop_sent [OF assms] by blast
  then show "stage_ok l 0 evs (r \<noteq> None)" using reason_sent_facts [OF sent] by (auto simp: stage_ok_def)
  have "trim [] = []" by (simp add: trim_def trim_start_chars_def)
  then show "r = Some (t, calls) \<Longrightarrow> trim t \<noteq> [] \<Longrightarrow> event_ok l (ReasoningCompleted t)" for t calls
    using sent by (auto simp: reason_sent_def)
qed

lemma tool_stage: "tool_loop ser ex sid rid calls msgs c = (evs, r, c') \<Longrightarrow> stage_ok l (length calls) evs (r \<noteq> None)"
  using tool_loop_facts [of ser ex sid rid calls msgs c evs r c' l] by (auto simp: stage_ok_def)

lemma rounds_stage:
  assumes "rounds l reason ser ex sid rid left req tot c = (evs, r)"
    "tot \<le> MAX_TOOL_CALLS" "max_response_text_bytes l < u64_max"
  shows "stage_ok l (MAX_TOOL_CALLS - tot) evs (r \<noteq> None) \<and> (\<forall>t. r = Some t \<longrightarrow> event_ok l (ReasoningCompleted t))"
  using assms
proof (induction left arbitrary: req tot c evs r)
  case (Suc left)
  obtain evs1 r1 where rl: "reason_loop l (reason req) [] [] = (evs1, r1)" by fastforce
  note stage = reason_stage [OF rl Suc.prems(3)]
  have one: "stage_ok l (MAX_TOOL_CALLS - tot) (evs1 @ [pipeline_failure st m]) False" if "r1 \<noteq> None" for st m
    using stage_ok_append [OF _ stage_ok_failure [of l 0 st m]] stage(1) that by simp
  show ?case
  proof (cases "\<exists>t calls. r1 = Some (t, calls) \<and> calls \<noteq> [] \<and> left \<noteq> 0 \<and> saturating_add tot (length calls) \<le> MAX_TOOL_CALLS")
    case False
    then show ?thesis
      using Suc.prems(1) rl stage one stage_ok_mono [OF stage(1), of "MAX_TOOL_CALLS - tot"]
      by (auto simp: Let_def not_le split: option.splits prod.splits if_splits)
  next
    case True
    then obtain t calls where go: "r1 = Some (t, calls)" "calls \<noteq> []" "left \<noteq> 0" "saturating_add tot (length calls) \<le> MAX_TOOL_CALLS"
      by blast
    then have tot: "saturating_add tot (length calls) = tot + length calls" "tot + length calls \<le> MAX_TOOL_CALLS"
      by (auto simp: saturating_add_def MAX_TOOL_CALLS_def u64_max_def split: if_splits)
    obtain tevs r2 c2 where tl: "tool_loop ser ex sid rid calls (messages req) c = (tevs, r2, c2)" by (metis prod_cases3)
    have both: "stage_ok l (length calls) (evs1 @ tevs) (r2 \<noteq> None)"
      using stage_ok_append [OF _ tool_stage [OF tl]] stage(1) go(1) by simp
    show ?thesis
    proof (cases r2)
      case None
      then have "evs = evs1 @ tevs" "r = None" using Suc.prems(1) rl go tl by (auto simp: Let_def)
      with both None tot(2) show ?thesis using stage_ok_mono [OF both] by simp
    next
      case (Some msgs)
      obtain revs where rd: "rounds l reason ser ex sid rid left (req\<lparr>messages := msgs\<rparr>) (tot + length calls) c2 = (revs, r)"
        and evs: "evs = (evs1 @ tevs) @ revs" using Suc.prems(1) rl go tl Some tot(1) by (auto simp: Let_def split: prod.splits)
      note rest = Suc.IH [OF rd tot(2) Suc.prems(3)]
      have "stage_ok l (MAX_TOOL_CALLS - tot) evs (r \<noteq> None)" unfolding evs
        by (rule stage_ok_append [of l "length calls"]) (use both Some rest tot(2) in auto)
      with rest show ?thesis by blast
    qed
  qed
qed (use stage_ok_failure in auto)

lemma rounds_facts:
  assumes "rounds l reason ser ex sid rid left req tot c = (evs, r)"
    "tot \<le> MAX_TOOL_CALLS" "max_response_text_bytes l < u64_max"
  shows "(\<exists>q. accept_all Reasoning evs = Some q \<and> (r \<noteq> None \<longrightarrow> q = Reasoning)) \<and>
   (\<forall>e \<in> set evs. event_ok l e) \<and> tot + tool_starts evs \<le> MAX_TOOL_CALLS \<and> audio_total evs = 0 \<and>
   (\<forall>t. r = Some t \<longrightarrow> event_ok l (ReasoningCompleted t))"
  using rounds_stage [OF assms] assms(2) by (auto simp: stage_ok_def)

lemma tts_loop_facts:
  assumes "tts_loop l items sq tot = evs" "max_response_audio_bytes l < u64_max"
    "sq \<le> tot" "(sq = 0) = (tot = 0)" "tot \<le> max_response_audio_bytes l"
  shows "(\<exists>q. accept_all (Speaking sq) evs = Some q) \<and> (\<forall>e \<in> set evs. event_ok l e) \<and>
    tool_starts evs = 0 \<and> tot + audio_total evs \<le> max_response_audio_bytes l"
  using assms
proof (induction l items sq tot arbitrary: evs rule: tts_loop.induct)
  case (3 l bytes items sq tot)
  let ?tot = "saturating_add tot (length bytes)"
  show ?case
  proof (cases "bytes = [] \<or> length bytes > max_audio_chunk_bytes l \<or> odd (length bytes)
         \<or> ?tot > max_response_audio_bytes l")
    case True
    with "3.prems" show ?thesis by (auto simp: Let_def)
  next
    case False
    then have tot: "?tot = tot + length bytes" "tot + length bytes \<le> max_response_audio_bytes l"
      using "3.prems"(2) by (auto simp: saturating_add_def split: if_splits)
    have sq: "saturating_add sq 1 = sq + 1"
      using "3.prems"(2,3,5) by (intro saturating_add_exact) simp
    have evs: "evs = Audio sq bytes # tts_loop l items (sq + 1) (tot + length bytes)"
      using "3.prems"(1) False tot(1) sq by (auto simp: Let_def)
    have "0 < length bytes" using False by simp
    then have "Suc sq \<le> tot + length bytes" using "3.prems"(3) by linarith
    with "3.IH" [OF refl False refl "3.prems"(2)] tot sq "3.prems"(3) False show ?thesis
      by (auto simp: evs)
  qed
qed (auto simp: pipeline_failure_def split: if_splits)

text \<open>A tool call gives its permit back, so a coordinator with a free one never blocks the task.\<close>

lemma execute_total:
  assumes "0 < permits c"
  shows "\<exists>r c'. execute ser c iv False ex = Some (r, c') \<and> permits c' = permits c"
proof (cases "execute_check ser c iv")
  case (Inl e)
  then show ?thesis by (simp add: execute_def)
next
  case (Inr d)
  have "\<exists>r c1. execute_admit c iv d False = Some (r, c1)"
    using assms by (auto simp: execute_admit_def split: prod.split option.split)
  then obtain r c1 where a: "execute_admit c iv d False = Some (r, c1)" by blast
  show ?thesis
  proof (cases r)
    case (Some res)
    then show ?thesis using Inr a execute_admit_returned [of c iv d False res c1] by (simp add: execute_def)
  next
    case None
    with a have "permits c1 = permits c - 1" using execute_admit_started [of c iv d False c1] by simp
    then show ?thesis
      using Inr a None assms
      by (auto simp: execute_def execute_finish_def Let_def release_permit_def split: sum.split)
  qed
qed

definition closes :: "PipelineEvent list \<Rightarrow> bool" where
  "closes evs \<longleftrightarrow> evs \<noteq> [] \<and> (last evs = Completed \<or> (\<exists>e. last evs = Failed e))"

lemma closes_simps [simp]:
  "\<not> closes []" "closes (evs @ [pipeline_failure st m])" "closes [pipeline_failure st m]"
  "closes ys \<Longrightarrow> closes (xs @ ys)" "closes ys \<Longrightarrow> closes (y # ys)" "closes [Failed e]" "closes [TtsCompleted, Completed]"
  by (auto simp: closes_def pipeline_failure_def)

definition no_cancel :: "'a stream_next list \<Rightarrow> bool" where
  "no_cancel items \<longleftrightarrow> (\<forall>e. Item (Inl e) \<in> set items \<longrightarrow> perr_kind e \<noteq> ProviderErrorKind.Cancelled)"

lemma no_cancel_Cons [simp]:
  "no_cancel (i # items) \<longleftrightarrow> (\<forall>e. i = Item (Inl e) \<longrightarrow> perr_kind e \<noteq> ProviderErrorKind.Cancelled) \<and> no_cancel items"
  by (auto simp: no_cancel_def)

lemma reason_loop_closes:
  "reason_loop l items tx calls = (evs, None) \<Longrightarrow> no_cancel items \<Longrightarrow> closes evs"
  by (induction l items tx calls arbitrary: evs rule: reason_loop.induct)
    (auto split: if_splits prod.splits)

lemma tool_loop_closes:
  "tool_loop ser ex sid rid calls msgs c = (evs, r, c') \<Longrightarrow> 0 < permits c \<Longrightarrow>
   permits c' = permits c \<and> (r = None \<longrightarrow> closes evs)"
proof (induction ser ex sid rid calls msgs c arbitrary: evs r c' rule: tool_loop.induct)
  case (2 ser ex sid rid call calls msgs c)
  obtain r1 c1 where rc: "execute ser c (tool_invocation sid rid call) False ex = Some (r1, c1)"
    and p: "permits c1 = permits c" using execute_total [OF "2.prems"(2)] by blast
  show ?case
  proof (cases r1)
    case (Inl e)
    with rc p "2.prems" show ?thesis by (auto simp: Let_def)
  next
    case (Inr out)
    let ?msgs = "msgs @ [AssistantToolCall (call_id call) (call_name call) (call_input call),
      ConversationMessage.Tool (call_id call) (call_name call) (out_value out)]"
    obtain evs' where "tool_loop ser ex sid rid calls ?msgs c1 = (evs', r, c')"
      and evs: "evs = ToolStarted (call_id call) (call_name call) (call_input call) #
        ToolCompleted (call_id call) (call_name call) (out_value out) (out_cached out) # evs'"
      using "2.prems" rc Inr by (auto simp: Let_def split: prod.splits)
    from "2.IH" [OF refl rc refl Inr this(1)] p "2.prems"(2) show ?thesis by (auto simp: evs)
  qed
qed simp

lemma rounds_closes:
  assumes "rounds l reason ser ex sid rid left req tot c = (evs, None)" "0 < permits c"
    "\<And>req. no_cancel (reason req)"
  shows "closes evs"
  using assms
proof (induction left arbitrary: req tot c evs)
  case (Suc left)
  obtain evs1 r1 where rl: "reason_loop l (reason req) [] [] = (evs1, r1)" by fastforce
  show ?case
  proof (cases r1)
    case None
    with rl Suc.prems reason_loop_closes [of l "reason req"] show ?thesis by auto
  next
    case (Some tc)
    then obtain t calls where tc: "r1 = Some (t, calls)" by (cases tc) simp
    let ?tot = "saturating_add tot (length calls)"
    show ?thesis
    proof (cases "calls = [] \<or> ?tot > MAX_TOOL_CALLS \<or> left = 0")
      case True
      with tc rl Suc.prems(1) show ?thesis by (auto simp: Let_def split: if_splits)
    next
      case go: False
      obtain tevs r2 c2 where tl: "tool_loop ser ex sid rid calls (messages req) c = (tevs, r2, c2)"
        by (metis prod_cases3)
      note tc2 = tool_loop_closes [OF tl Suc.prems(2)]
      show ?thesis
      proof (cases r2)
        case None
        with go tc rl Suc.prems(1) tl tc2 show ?thesis by (auto simp: Let_def)
      next
        case (Some msgs)
        obtain revs where rd: "rounds l reason ser ex sid rid left (req\<lparr>messages := msgs\<rparr>) ?tot c2 = (revs, None)"
          and evs: "evs = evs1 @ tevs @ revs"
          using Suc.prems(1) rl tc go tl Some by (auto simp: Let_def split: prod.splits)
        from Suc.IH [OF rd _ Suc.prems(3)] tc2 Suc.prems(2) show ?thesis by (simp add: evs)
      qed
    qed
  qed
qed auto

lemma tts_loop_closes: "no_cancel items \<Longrightarrow> closes (tts_loop l items sq tot)"
  by (induction l items sq tot rule: tts_loop.induct) (auto simp: Let_def)

lemma accept_all_take: "accept_all q evs = Some q' \<Longrightarrow> \<exists>q1. accept_all q (take n evs) = Some q1"
  using accept_all_append [of q "take n evs" "drop n evs"] by (auto split: option.splits)

lemma response_pipeline_facts:
  fixes l reason synthesize ser executor c req voice rate sid rid
  assumes "max_response_text_bytes l < u64_max" "max_response_audio_bytes l < u64_max"
  defines "evs \<equiv> response_pipeline l reason synthesize ser executor c req voice rate sid rid"
  shows "(\<exists>q. accept_all Reasoning evs = Some q) \<and> (\<forall>e \<in> set evs. event_ok l e) \<and>
    tool_starts evs \<le> MAX_TOOL_CALLS \<and> audio_total evs \<le> max_response_audio_bytes l"
proof -
  obtain evs1 r where rd: "rounds l reason ser executor sid rid MAX_REASONING_ROUNDS req 0 c = (evs1, r)"
    by fastforce
  note facts = rounds_facts [OF rd _ assms(1)]
  show ?thesis
  proof (cases r)
    case None
    with rd facts show ?thesis by (auto simp: evs_def response_pipeline_def simp del: sum_list_eq_0_iff)
  next
    case (Some t)
    define tts where "tts = tts_loop l (synthesize \<lparr>synthesis_text = t, synthesis_voice_id = voice,
      synthesis_sample_rate_hz = rate\<rparr>) 0 0"
    have "evs = evs1 @ [ReasoningCompleted t, TtsStarted] @ tts"
      using rd Some by (simp add: evs_def response_pipeline_def tts_def)
    moreover have "(\<exists>q. accept_all (Speaking 0) tts = Some q) \<and> (\<forall>e \<in> set tts. event_ok l e) \<and>
        tool_starts tts = 0 \<and> audio_total tts \<le> max_response_audio_bytes l"
      using tts_loop_facts [OF tts_def [symmetric] assms(2)] by simp
    ultimately show ?thesis using facts Some by (auto simp: accept_all_append simp del: sum_list_eq_0_iff)
  qed
qed

subsection \<open>Properties\<close>

text \<open>
  C14 (safety). Whatever the reasoner, the tools and the synthesizer do and whenever the task is
  cancelled, the events a response task sends follow the protocol automaton (every tool call
  answered before the next, audio chunks numbered 0, 1, 2, ..., one end), every event is within
  its bound, with at most 16 tool calls and the audio budget in total.
\<close>

theorem response_order_and_bounds:
  fixes l reason synthesize ser executor c req voice rate sid rid
  assumes "max_response_text_bytes l < u64_max" "max_response_audio_bytes l < u64_max"
  defines "evs \<equiv> response_pipeline l reason synthesize ser executor c req voice rate sid rid"
  shows "(\<exists>q. accept_all Reasoning (take n evs) = Some q) \<and> (\<forall>e \<in> set evs. event_ok l e) \<and>
    tool_starts evs \<le> 16 \<and> audio_total evs \<le> max_response_audio_bytes l"
proof -
  have f: "(\<exists>q. accept_all Reasoning evs = Some q) \<and> (\<forall>e \<in> set evs. event_ok l e) \<and>
      tool_starts evs \<le> MAX_TOOL_CALLS \<and> audio_total evs \<le> max_response_audio_bytes l"
    unfolding evs_def by (rule response_pipeline_facts [OF assms(1,2)])
  from f obtain q where "accept_all Reasoning evs = Some q" by blast
  with accept_all_take [OF this, of n] f show ?thesis by (simp add: MAX_TOOL_CALLS_def)
qed

abbreviation demo_limits :: PipelineLimits where
  "demo_limits \<equiv> \<lparr>event_timeout = from_secs 15, max_text_delta_bytes = 16000,
     max_response_text_bytes = 262144, max_audio_chunk_bytes = 65536, max_response_audio_bytes = 16777216\<rparr>"

text \<open>A model that first books and then answers, and a synthesizer that yields one chunk.\<close>

definition demo_reason :: "ReasoningRequest \<Rightarrow> ReasoningEvent stream_next list" where
  "demo_reason req =
     (if messages req = []
      then [Item (Inr (ToolCall \<lparr>call_id = ''c1'', call_name = ''book'',
              call_input = JObject [(''day'', JString ''mon'')]\<rparr>)), Item (Inr ReasoningEvent.Completed)]
      else [Item (Inr (Delta ''ok'')), Item (Inr ReasoningEvent.Completed)])"

abbreviation demo_response :: "PipelineEvent list" where
  "demo_response \<equiv> response_pipeline demo_limits demo_reason (\<lambda>_. [Item (Inr [1, 2])]) demo_ser
     (\<lambda>_. ExecReturned (Inr (JBool True))) demo_coordinator
     \<lparr>instructions = [], messages = []\<rparr> ''v'' 16000 ''s'' ''r''"

lemma demo_execute:
  "execute demo_ser demo_coordinator (tool_invocation ''s'' ''r'' \<lparr>call_id = ''c1'', call_name = ''book'',
      call_input = JObject [(''day'', JString ''mon'')]\<rparr>) False (\<lambda>_. ExecReturned (Inr (JBool True))) =
   Some (Inr \<lparr>out_value = JBool True, out_cached = False, out_side_effect = CommitOnce\<rparr>,
     demo_coordinator\<lparr>ledger := [(''book:s:r:c1'', LedgerEntry.Completed (JBool True))]\<rparr>)"
  by (simp add: execute_def tool_invocation_def execute_check_def serialized_size_def
      MAX_TOOL_VALUE_BYTES_def MAX_TOOL_LEDGER_ENTRIES_def validate_tool_input_def
      validate_instance.simps MAX_SCHEMA_DEPTH_def instance_head_ok_def instance_type_ok_def
      instance_object_ok_def instance_scalar_ok_def property_schemas_def check_eval
      execute_admit_def ledger_admit_def ledger_key_of_def execute_finish_def classify_outcome_def
      release_permit_def)

lemma demo_response_events:
  "demo_response =
     [ToolStarted ''c1'' ''book'' (JObject [(''day'', JString ''mon'')]),
      ToolCompleted ''c1'' ''book'' (JBool True) False, ReasoningDelta ''ok'', ReasoningCompleted ''ok'',
      TtsStarted, Audio 0 [1, 2], TtsCompleted, Completed]"
proof -
  have t: "trim ''ok'' = ''ok''"
    by (simp add: trim_def trim_start_chars_def is_continuation_def char_is_whitespace_def)
  have five: "MAX_REASONING_ROUNDS = Suc (Suc (Suc (Suc (Suc 0))))" by (simp add: MAX_REASONING_ROUNDS_def)
  show ?thesis unfolding response_pipeline_def five
    by (simp add: t MAX_TOOL_CALLS_def demo_reason_def
        demo_execute [unfolded One_nat_def] saturating_add_def u64_max_def Let_def)
qed

theorem response_order_and_bounds_witness:
  "tool_starts demo_response = 1 \<and> (\<exists>q. accept_all Reasoning (take 5 demo_response) = Some q)"
  using response_order_and_bounds [where l = demo_limits and n = 5 and reason = demo_reason and synthesize = "\<lambda>_. [Item (Inr [1, 2])]" and
      ser = demo_ser and executor = "\<lambda>_. ExecReturned (Inr (JBool True))" and c = demo_coordinator and
      req = "\<lparr>instructions = [], messages = []\<rparr>" and voice = "''v''" and rate = 16000 and
      sid = "''s''" and rid = "''r''"]
  unfolding demo_response_events by (simp add: u64_max_def)

lemma response_pipeline_closes:
  assumes "\<And>r. no_cancel (reason r)" "\<And>r. no_cancel (synthesize r)" "0 < permits c"
  shows "closes (response_pipeline l reason synthesize ser executor c req voice rate sid rid)"
proof -
  obtain evs1 r where rd: "rounds l reason ser executor sid rid MAX_REASONING_ROUNDS req 0 c = (evs1, r)"
    by fastforce
  show ?thesis
  proof (cases r)
    case None
    with rd rounds_closes [OF _ assms(3,1)] show ?thesis by (simp add: response_pipeline_def)
  next
    case (Some t)
    with rd tts_loop_closes [OF assms(2)] show ?thesis by (simp add: response_pipeline_def)
  qed
qed

text \<open>
  A transcription task sends partial updates and then exactly one of: an end
  without final transcript, an error, or one final transcript followed by its end.
\<close>

lemma stt_one_final_per_commit:
  "\<exists>parts rest. stt_task items = map SttUpdate parts @ rest \<and>
     list_all (\<lambda>p. case p of Inl _ \<Rightarrow> True | Inr seg \<Rightarrow> \<not> is_final seg) parts \<and>
     (rest = [SttEnded False] \<or> (\<exists>e. rest = [SttUpdate (Inl e)]) \<or>
      (\<exists>seg. is_final seg \<and> rest = [SttUpdate (Inr seg), SttEnded True]))"
proof (induction items rule: stt_task.induct)
  case (3 r items)
  show ?case
  proof (cases "case r of Inr seg \<Rightarrow> is_final seg | Inl _ \<Rightarrow> False")
    case True
    then obtain seg where "r = Inr seg" "is_final seg" by (auto split: sum.splits)
    then show ?thesis by (intro exI [of _ "[]"] exI [of _ "[SttUpdate (Inr seg), SttEnded True]"]) auto
  next
    case False
    with "3.IH" obtain parts rest where p: "stt_task items = map SttUpdate parts @ rest"
      "list_all (\<lambda>p. case p of Inl _ \<Rightarrow> True | Inr seg \<Rightarrow> \<not> is_final seg) parts"
      "rest = [SttEnded False] \<or> (\<exists>e. rest = [SttUpdate (Inl e)]) \<or>
       (\<exists>seg. is_final seg \<and> rest = [SttUpdate (Inr seg), SttEnded True])" by blast
    with False show ?thesis
      by (intro exI [of _ "r # parts"] exI [of _ rest]) (auto split: sum.splits)
  qed
qed (auto intro: exI [of _ "[]"])

end
