(* ===== verification/Events.thy ===== *)
theory Events
  imports Domain
begin

text \<open>
  The semantic event pipeline of one session (\<open>event.rs\<close>): a bounded spool with a slot reserved
  for the terminal event, producer sequence numbers, and the worker task that batches events and
  delivers them to the sink with bounded retries. The sink (an HTTP endpoint, a log or a test
  double) is external: its answer to each publish call is an argument of \<open>worker_publish\<close>.
  The worker is cut at its suspension points (\<open>recv\<close>, each \<open>try_recv\<close>, each sink call), so the
  step relation \<open>pipeline_step\<close> covers every interleaving with the producer.
\<close>

subsection \<open>Events\<close>

definition EVENT_VERSION :: nat where
  "EVENT_VERSION = 1"

datatype EventType =
    SessionCreated | SessionProvisioning | SessionReady | SessionStarted | SessionInterrupted
  | SessionCompleted | SessionCanceled | SessionFailed
  | SpeechStarted | SpeechPartial | SpeechFinal
  | ReasoningStarted | ReasoningDelta | ReasoningCompleted
  | ToolStarted | ToolCompleted | ToolFailed
  | TtsStarted | TtsFirstAudio | TtsCompleted | AudioOverrun

datatype EventSource = SourceControl | SourceRuntime | SourceProvider | SourceTool

datatype EventPrivacy = PrivacyInternal | Pii | Sensitive

record PendingRuntimeEvent =
  event_type :: EventType
  ev_version :: nat
  producer_sequence :: u64
  causation_id :: "string option"
  ev_correlation_id :: string
  occurred_at :: string
  ev_source :: EventSource
  ev_privacy :: EventPrivacy
  ev_payload :: "(string, json) btree_map"

text \<open>\<open>now\<close> is the formatted wall clock.\<close>

definition pending_event ::
  "string \<Rightarrow> EventType \<Rightarrow> string \<Rightarrow> string option \<Rightarrow> EventSource \<Rightarrow> EventPrivacy \<Rightarrow> (string, json) btree_map
     \<Rightarrow> PendingRuntimeEvent" where
  "pending_event now ty corr cause src priv payload =
     \<lparr>event_type = ty, ev_version = EVENT_VERSION, producer_sequence = 0, causation_id = cause,
      ev_correlation_id = corr, occurred_at = now, ev_source = src, ev_privacy = priv, ev_payload = payload\<rparr>"

datatype EventSinkErrorKind = Transient | Permanent

record EventSinkError =
  sink_kind :: EventSinkErrorKind
  sink_message :: string

text \<open>
  How the HTTP sink classifies a failed request (\<open>timeout or connect\<close>) and a response status.
  The HTTP exchange itself is third-party code: its outcome is the argument.
\<close>

datatype http_outcome = RequestFailed (timeout_or_connect: bool) | Status nat (reason_phrase: string)

definition http_sink_publish :: "http_outcome \<Rightarrow> EventSinkError + unit" where
  "http_sink_publish r =
     (case r of
        RequestFailed retryable \<Rightarrow>
          Inl \<lparr>sink_kind = (if retryable then Transient else Permanent),
               sink_message = ''runtime event ingest request failed''\<rparr>
      | Status code reason \<Rightarrow>
          if code = 204 then Inr ()
          else Inl \<lparr>sink_kind = (if code = 429 \<or> (500 \<le> code \<and> code < 600) then Transient else Permanent),
                    sink_message = ''runtime event ingest returned HTTP '' @ string_of_nat code @ '' '' @ reason\<rparr>)"

record EventRetryPolicy =
  max_attempts :: usize
  initial_backoff :: duration
  max_backoff :: duration

definition default_retry :: EventRetryPolicy where
  "default_retry = \<lparr>max_attempts = 8, initial_backoff = from_millis 25, max_backoff = from_secs 1\<rparr>"

subsection \<open>The pipeline and its worker\<close>

record QueuedRuntimeEvent =
  queued_event :: PendingRuntimeEvent
  ordinary_slot :: bool

datatype worker_state =
    Receiving
  | Collecting "PendingRuntimeEvent list"
  | Publishing "PendingRuntimeEvent list" duration usize
  | Stopped "unit result"

text \<open>
  \<open>ep_sender\<close> and \<open>ep_handle\<close>: the options \<open>sender\<close> and \<open>worker\<close> still hold their value.
  \<open>ordinary_slots\<close> is the number of free permits of the semaphore. \<open>ep_published\<close> records the
  batches the sink has accepted.
\<close>

record EventPipeline =
  ep_sender :: bool
  ep_handle :: bool
  ep_chan :: "QueuedRuntimeEvent chan"
  ordinary_slots :: usize
  next_producer_sequence :: u64
  ep_worker :: worker_state
  ep_batch_size :: usize
  ep_retry :: EventRetryPolicy
  ep_published :: "PendingRuntimeEvent list list"

text \<open>\<open>None\<close>: one of the constructor's assertions fails.\<close>

definition spawn_with_retry :: "usize \<Rightarrow> usize \<Rightarrow> EventRetryPolicy \<Rightarrow> EventPipeline option" where
  "spawn_with_retry capacity batch_size retry =
     (case checked_add capacity 1 of
        None \<Rightarrow> None
      | Some channel_capacity \<Rightarrow>
          if 0 < capacity \<and> 0 < batch_size \<and> 0 < max_attempts retry \<and> initial_backoff retry \<noteq> 0
             \<and> initial_backoff retry \<le> max_backoff retry \<and> channel_capacity \<le> MAX_PERMITS
          then Some \<lparr>ep_sender = True, ep_handle = True, ep_chan = chan_new channel_capacity,
                     ordinary_slots = capacity, next_producer_sequence = 1, ep_worker = Receiving,
                     ep_batch_size = batch_size, ep_retry = retry, ep_published = []\<rparr>
          else None)"

definition pipeline_spawn :: "usize \<Rightarrow> usize \<Rightarrow> EventPipeline option" where
  "pipeline_spawn capacity batch_size = spawn_with_retry capacity batch_size default_retry"

definition enqueue :: "EventPipeline \<Rightarrow> PendingRuntimeEvent \<Rightarrow> bool \<Rightarrow> u64 \<Rightarrow> EventPipeline" where
  "enqueue p ev ordinary next =
     p\<lparr>ep_chan := (ep_chan p)\<lparr>chan_sent := chan_sent (ep_chan p) @
          [\<lparr>queued_event = ev\<lparr>producer_sequence := next_producer_sequence p\<rparr>, ordinary_slot = ordinary\<rparr>]\<rparr>,
       ordinary_slots := (if ordinary then ordinary_slots p - 1 else ordinary_slots p),
       next_producer_sequence := next\<rparr>"

definition has_room :: "EventPipeline \<Rightarrow> bool" where
  "has_room p \<longleftrightarrow> length (chan_pending (ep_chan p)) < chan_cap (ep_chan p)"

definition try_publish :: "EventPipeline \<Rightarrow> PendingRuntimeEvent \<Rightarrow> EventPipeline result" where
  "try_publish p ev =
     (if ordinary_slots p = 0 then Inl EventSpoolFull
      else if \<not> ep_sender p then Inl (EventDelivery ''event pipeline is closed'')
      else if chan_closed (ep_chan p) then Inl (EventDelivery ''event pipeline worker stopped'')
      else if \<not> has_room p then Inl EventSpoolFull
      else case checked_add (next_producer_sequence p) 1 of
        None \<Rightarrow> Inl (Internal ''producer event sequence exhausted'')
      | Some next \<Rightarrow> Inr (enqueue p ev True next))"

datatype 'a poll = Ready 'a | Pending

definition is_terminal_event :: "EventType \<Rightarrow> bool" where
  "is_terminal_event ty \<longleftrightarrow> ty = SessionCompleted \<or> ty = SessionCanceled \<or> ty = SessionFailed"

text \<open>
  One poll of \<open>publish_terminal\<close>; \<open>elapsed\<close> says that the enqueue deadline has passed. A timeout
  polls its future first, so a free slot wins over the deadline.
\<close>

definition publish_terminal :: "EventPipeline \<Rightarrow> PendingRuntimeEvent \<Rightarrow> bool \<Rightarrow> EventPipeline result poll" where
  "publish_terminal p ev elapsed =
     (if \<not> is_terminal_event (event_type ev)
      then Ready (Inl (InvalidRequest ''reserved event slot only accepts terminal session events''))
      else if \<not> ep_sender p then Ready (Inl (EventDelivery ''event pipeline is closed''))
      else if chan_closed (ep_chan p) then Ready (Inl (EventDelivery ''event pipeline worker stopped''))
      else if has_room p then
        (case checked_add (next_producer_sequence p) 1 of
           None \<Rightarrow> Ready (Inl (Internal ''producer event sequence exhausted''))
         | Some next \<Rightarrow> Ready (Inr (enqueue p ev False next)))
      else if elapsed then Ready (Inl (EventDelivery ''terminal event enqueue deadline exceeded''))
      else Pending)"

text \<open>Taking an event out of its queue entry drops the entry and with it the permit it holds.\<close>

definition take_queued :: "EventPipeline \<Rightarrow> (PendingRuntimeEvent \<times> EventPipeline) option" where
  "take_queued p =
     (case chan_recv (ep_chan p) of
        None \<Rightarrow> None
      | Some (q, c) \<Rightarrow>
          Some (queued_event q,
                p\<lparr>ep_chan := c,
                  ordinary_slots := (if ordinary_slot q then ordinary_slots p + 1 else ordinary_slots p)\<rparr>))"

text \<open>When the worker returns, the receiver and every queued entry are dropped.\<close>

definition stop_worker :: "EventPipeline \<Rightarrow> unit result \<Rightarrow> EventPipeline" where
  "stop_worker p r =
     p\<lparr>ep_worker := Stopped r,
       ordinary_slots := ordinary_slots p + length (filter ordinary_slot (chan_pending (ep_chan p))),
       ep_chan := (ep_chan p)\<lparr>chan_closed := True, chan_taken := length (chan_sent (ep_chan p))\<rparr>\<rparr>"

text \<open>\<open>receiver.recv().await\<close>: \<open>None\<close> while the worker waits.\<close>

definition worker_recv :: "EventPipeline \<Rightarrow> EventPipeline option" where
  "worker_recv p =
     (if ep_worker p = Receiving then
        (case take_queued p of
           Some (ev, p') \<Rightarrow> Some (p'\<lparr>ep_worker := Collecting [ev]\<rparr>)
         | None \<Rightarrow> if ep_sender p then None else Some (stop_worker p (Inr ())))
      else None)"

definition worker_collect :: "EventPipeline \<Rightarrow> EventPipeline option" where
  "worker_collect p =
     (case ep_worker p of
        Collecting batch \<Rightarrow>
          let start = p\<lparr>ep_worker := Publishing batch (initial_backoff (ep_retry p)) 1\<rparr> in
          if length batch < ep_batch_size p then
            (case take_queued p of
               Some (ev, p') \<Rightarrow> Some (p'\<lparr>ep_worker := Collecting (batch @ [ev])\<rparr>)
             | None \<Rightarrow> Some start)
          else Some start
      | _ \<Rightarrow> None)"

definition worker_publish :: "EventPipeline \<Rightarrow> EventSinkError + unit \<Rightarrow> EventPipeline option" where
  "worker_publish p answer =
     (case ep_worker p of
        Publishing batch backoff attempt \<Rightarrow>
          (case answer of
             Inr _ \<Rightarrow> Some (p\<lparr>ep_worker := Receiving, ep_published := ep_published p @ [batch]\<rparr>)
           | Inl error \<Rightarrow>
               if sink_kind error = Transient \<and> attempt < max_attempts (ep_retry p)
               then Some (p\<lparr>ep_worker := Publishing batch
                      (min (duration_saturating_mul backoff 2) (max_backoff (ep_retry p))) (attempt + 1)\<rparr>)
               else if sink_kind error = Transient
               then Some (stop_worker p (Inl (EventDelivery (''runtime event ingest exhausted ''
                      @ string_of_nat (max_attempts (ep_retry p)) @ '' attempts: '' @ sink_message error))))
               else Some (stop_worker p (Inl (EventDelivery (sink_message error)))))
      | _ \<Rightarrow> None)"

text \<open>\<open>close\<close>: drop the sender, take the worker handle and wait for its result.\<close>

definition pipeline_close :: "EventPipeline \<Rightarrow> EventPipeline" where
  "pipeline_close p = p\<lparr>ep_sender := False, ep_handle := False\<rparr>"

definition close_result :: "bool \<Rightarrow> EventPipeline \<Rightarrow> unit result poll" where
  "close_result had_worker p =
     (if \<not> had_worker then Ready (Inr ())
      else case ep_worker p of Stopped r \<Rightarrow> Ready r | _ \<Rightarrow> Pending)"

inductive worker_step :: "EventPipeline \<Rightarrow> EventPipeline \<Rightarrow> bool" where
  recv: "worker_recv p = Some p' \<Longrightarrow> worker_step p p'"
| collect: "worker_collect p = Some p' \<Longrightarrow> worker_step p p'"
| sink: "worker_publish p answer = Some p' \<Longrightarrow> worker_step p p'"

inductive pipeline_step :: "EventPipeline \<Rightarrow> EventPipeline \<Rightarrow> bool" where
  publish: "try_publish p ev = Inr p' \<Longrightarrow> pipeline_step p p'"
| terminal: "publish_terminal p ev elapsed = Ready (Inr p') \<Longrightarrow> pipeline_step p p'"
| worker: "worker_step p p' \<Longrightarrow> pipeline_step p p'"
| close: "pipeline_step p (pipeline_close p)"

inductive pipeline_reachable :: "usize \<Rightarrow> usize \<Rightarrow> EventRetryPolicy \<Rightarrow> EventPipeline \<Rightarrow> bool"
  for capacity :: usize and batch_size :: usize and retry :: EventRetryPolicy where
  spawned: "spawn_with_retry capacity batch_size retry = Some p \<Longrightarrow> pipeline_reachable capacity batch_size retry p"
| step: "pipeline_reachable capacity batch_size retry p \<Longrightarrow> pipeline_step p p' \<Longrightarrow>
     pipeline_reachable capacity batch_size retry p'"

subsection \<open>The invariant\<close>

fun in_flight :: "worker_state \<Rightarrow> PendingRuntimeEvent list" where
  "in_flight (Collecting batch) = batch"
| "in_flight (Publishing batch _ _) = batch"
| "in_flight _ = []"

abbreviation accepted :: "EventPipeline \<Rightarrow> PendingRuntimeEvent list" where
  "accepted p \<equiv> map queued_event (chan_sent (ep_chan p))"

definition spool_inv :: "usize \<Rightarrow> EventPipeline \<Rightarrow> bool" where
  "spool_inv capacity p \<longleftrightarrow>
     0 < capacity \<and> chan_wf (ep_chan p) \<and> chan_cap (ep_chan p) = capacity + 1 \<and>
     ordinary_slots p + length (filter ordinary_slot (chan_pending (ep_chan p))) = capacity"

definition sequence_inv :: "EventPipeline \<Rightarrow> bool" where
  "sequence_inv p \<longleftrightarrow>
     map producer_sequence (accepted p) = [1..<next_producer_sequence p] \<and>
     1 \<le> next_producer_sequence p \<and> next_producer_sequence p \<le> u64_max"

definition delivery_inv :: "EventPipeline \<Rightarrow> bool" where
  "delivery_inv p \<longleftrightarrow>
     (case ep_worker p of
        Stopped r \<Rightarrow> chan_closed (ep_chan p) \<and> chan_pending (ep_chan p) = [] \<and>
          (\<exists>lost. accepted p = concat (ep_published p) @ lost \<and> (r = Inr () \<longrightarrow> lost = []))
      | w \<Rightarrow> \<not> chan_closed (ep_chan p) \<and>
          accepted p = concat (ep_published p) @ in_flight w @ map queued_event (chan_pending (ep_chan p)))"

definition retry_inv :: "EventPipeline \<Rightarrow> bool" where
  "retry_inv p \<longleftrightarrow>
     0 < ep_batch_size p \<and> 0 < max_attempts (ep_retry p) \<and>
     (case ep_worker p of
        Collecting batch \<Rightarrow> batch \<noteq> [] \<and> length batch \<le> ep_batch_size p
      | Publishing batch backoff attempt \<Rightarrow>
          batch \<noteq> [] \<and> length batch \<le> ep_batch_size p \<and> 1 \<le> attempt \<and> attempt \<le> max_attempts (ep_retry p) \<and>
          (initial_backoff (ep_retry p) \<le> max_backoff (ep_retry p) \<and> max_backoff (ep_retry p) \<le> duration_max \<longrightarrow>
             backoff = min (initial_backoff (ep_retry p) * 2 ^ (attempt - 1)) (max_backoff (ep_retry p)))
      | _ \<Rightarrow> True)"

definition pipeline_inv :: "usize \<Rightarrow> EventPipeline \<Rightarrow> bool" where
  "pipeline_inv capacity p \<longleftrightarrow> spool_inv capacity p \<and> sequence_inv p \<and> delivery_inv p \<and> retry_inv p"

lemmas pipeline_inv_defs = pipeline_inv_def spool_inv_def sequence_inv_def delivery_inv_def retry_inv_def

lemmas worker_inv_defs = pipeline_inv_def spool_inv_def delivery_inv_def retry_inv_def

lemma sequence_inv_cong:
  "chan_sent (ep_chan p') = chan_sent (ep_chan p) \<Longrightarrow>
   next_producer_sequence p' = next_producer_sequence p \<Longrightarrow> sequence_inv p' = sequence_inv p"
  by (simp add: sequence_inv_def)

lemma sequence_inv_updates [simp]:
  "sequence_inv (p\<lparr>ep_worker := w\<rparr>) = sequence_inv p"
  "sequence_inv (p\<lparr>ep_worker := w, ep_published := ps\<rparr>) = sequence_inv p"
  "sequence_inv (p\<lparr>ep_sender := b, ep_handle := b'\<rparr>) = sequence_inv p"
  by (simp_all add: sequence_inv_def)

lemma try_publish_ok:
  "try_publish p ev = Inr p' \<longleftrightarrow>
     0 < ordinary_slots p \<and> ep_sender p \<and> \<not> chan_closed (ep_chan p) \<and> has_room p \<and>
     next_producer_sequence p < u64_max \<and> p' = enqueue p ev True (next_producer_sequence p + 1)"
  by (auto simp: try_publish_def checked_add_Some checked_add_None split: option.splits)

lemma publish_terminal_ok:
  "publish_terminal p ev elapsed = Ready (Inr p') \<longleftrightarrow>
     is_terminal_event (event_type ev) \<and> ep_sender p \<and> \<not> chan_closed (ep_chan p) \<and> has_room p \<and>
     next_producer_sequence p < u64_max \<and> p' = enqueue p ev False (next_producer_sequence p + 1)"
  by (auto simp: publish_terminal_def checked_add_Some checked_add_None split: option.splits)

lemma enqueue_inv:
  assumes "pipeline_inv capacity p" "\<not> chan_closed (ep_chan p)" "has_room p"
    "next_producer_sequence p < u64_max" "ordinary \<Longrightarrow> 0 < ordinary_slots p"
  shows "pipeline_inv capacity (enqueue p ev ordinary (Suc (next_producer_sequence p)))"
proof -
  have wf: "chan_taken (ep_chan p) \<le> length (chan_sent (ep_chan p))"
    using assms(1) by (simp add: pipeline_inv_defs chan_wf_def)
  have "spool_inv capacity (enqueue p ev ordinary (Suc (next_producer_sequence p)))"
    using assms wf by (auto simp: pipeline_inv_defs enqueue_def has_room_def chan_wf_def chan_pending_def)
  moreover have "sequence_inv (enqueue p ev ordinary (Suc (next_producer_sequence p)))"
    using assms by (simp add: pipeline_inv_defs enqueue_def)
  moreover have "delivery_inv (enqueue p ev ordinary (Suc (next_producer_sequence p)))"
    using assms wf by (auto simp: pipeline_inv_defs enqueue_def split: worker_state.splits)
  moreover have "retry_inv (enqueue p ev ordinary (Suc (next_producer_sequence p)))"
    using assms(1) by (cases "ep_worker p") (simp_all add: pipeline_inv_def retry_inv_def enqueue_def)
  ultimately show ?thesis by (simp add: pipeline_inv_def)
qed

lemma take_queued_Some:
  assumes "take_queued p = Some (ev, p')" "chan_wf (ep_chan p)"
  obtains q c where "chan_pending (ep_chan p) = q # chan_pending c" "queued_event q = ev" "chan_wf c"
    "chan_cap c = chan_cap (ep_chan p)" "chan_closed c = chan_closed (ep_chan p)"
    "chan_sent c = chan_sent (ep_chan p)"
    "p' = p\<lparr>ep_chan := c, ordinary_slots := (if ordinary_slot q then ordinary_slots p + 1 else ordinary_slots p)\<rparr>"
proof -
  obtain q c where r: "chan_recv (ep_chan p) = Some (q, c)" and q: "queued_event q = ev"
    and p': "p' = p\<lparr>ep_chan := c, ordinary_slots := (if ordinary_slot q then ordinary_slots p + 1 else ordinary_slots p)\<rparr>"
    using assms(1) by (auto simp: take_queued_def split: option.splits)
  obtain qs where pend: "chan_pending (ep_chan p) = q # qs"
    using r by (auto simp: chan_recv_def split: list.splits)
  have "chan_sent c = chan_sent (ep_chan p)"
    using r by (auto simp: chan_recv_def split: list.splits)
  moreover have "chan_wf c" "chan_pending c = qs" "chan_cap c = chan_cap (ep_chan p)"
    "chan_closed c = chan_closed (ep_chan p)"
    using lane.recv_next [OF assms(2) pend] r by auto
  ultimately show ?thesis using that pend q p' by blast
qed

lemma take_queued_None: "take_queued p = None \<longleftrightarrow> chan_pending (ep_chan p) = []"
  by (simp add: take_queued_def chan_recv_def split: option.split list.split)

lemma stop_worker_inv:
  assumes "pipeline_inv capacity p" "\<not> (\<exists>r. ep_worker p = Stopped r)"
    "r = Inr () \<Longrightarrow> in_flight (ep_worker p) = [] \<and> chan_pending (ep_chan p) = []"
  shows "pipeline_inv capacity (stop_worker p r)"
proof -
  let ?p = "stop_worker p r"
  have d: "accepted p = concat (ep_published p) @ in_flight (ep_worker p) @ map queued_event (chan_pending (ep_chan p))"
    using assms(1,2) by (cases "ep_worker p") (simp_all add: pipeline_inv_def delivery_inv_def)
  have "spool_inv capacity ?p"
    using assms(1) by (simp add: pipeline_inv_def spool_inv_def stop_worker_def chan_wf_def chan_pending_def)
  moreover have "sequence_inv ?p"
    using assms(1) by (simp add: pipeline_inv_def sequence_inv_def stop_worker_def)
  moreover have "delivery_inv ?p"
    unfolding delivery_inv_def using d assms(3)
    by (auto simp: stop_worker_def chan_pending_def)
  moreover have "retry_inv ?p"
    using assms(1) by (simp add: pipeline_inv_def retry_inv_def stop_worker_def)
  ultimately show ?thesis by (simp add: pipeline_inv_def)
qed

lemma worker_recv_inv:
  assumes "pipeline_inv capacity p" "worker_recv p = Some p'"
  shows "pipeline_inv capacity p'"
proof (cases "take_queued p")
  case None
  then have "p' = stop_worker p (Inr ())" "ep_worker p = Receiving"
    using assms(2) by (auto simp: worker_recv_def split: if_splits)
  moreover have "chan_pending (ep_chan p) = []" using None by (simp add: take_queued_None)
  ultimately show ?thesis using stop_worker_inv [OF assms(1)] by auto
next
  case (Some r)
  obtain ev p1 where t: "take_queued p = Some (ev, p1)" using Some by (cases r) simp
  have wf: "chan_wf (ep_chan p)" using assms(1) by (simp add: pipeline_inv_defs)
  have p': "p' = p1\<lparr>ep_worker := Collecting [ev]\<rparr>" "ep_worker p = Receiving"
    using assms(2) t by (auto simp: worker_recv_def split: if_splits)
  show ?thesis
  proof (cases rule: take_queued_Some [OF t wf])
    case (1 q c)
    then have "sequence_inv p' = sequence_inv p" using p' by (intro sequence_inv_cong) simp_all
    then show ?thesis using assms(1) p' 1 by (auto simp: worker_inv_defs)
  qed
qed

lemma worker_collect_inv:
  assumes "pipeline_inv capacity p" "worker_collect p = Some p'"
  shows "pipeline_inv capacity p'"
proof -
  obtain batch where w: "ep_worker p = Collecting batch"
    using assms(2) by (auto simp: worker_collect_def split: worker_state.splits)
  show ?thesis
  proof (cases "length batch < ep_batch_size p \<and> take_queued p \<noteq> None")
    case True
    then obtain ev p1 where t: "take_queued p = Some (ev, p1)" by auto
    have wf: "chan_wf (ep_chan p)" using assms(1) by (simp add: pipeline_inv_defs)
    have "p' = p1\<lparr>ep_worker := Collecting (batch @ [ev])\<rparr>"
      using assms(2) t w True by (auto simp: worker_collect_def)
    note p' = this
    show ?thesis
    proof (cases rule: take_queued_Some [OF t wf])
      case (1 q c)
      then have "sequence_inv p' = sequence_inv p" using p' by (intro sequence_inv_cong) simp_all
      then show ?thesis using assms(1) w True p' 1 by (auto simp: worker_inv_defs)
    qed
  next
    case False
    then have "p' = p\<lparr>ep_worker := Publishing batch (initial_backoff (ep_retry p)) 1\<rparr>"
      using assms(2) w by (auto simp: worker_collect_def Let_def split: option.splits if_splits)
    then show ?thesis using assms(1) w by (auto simp: worker_inv_defs)
  qed
qed

lemma backoff_doubles:
  fixes ib mb :: duration
  assumes "ib \<le> mb" "mb \<le> duration_max" "1 \<le> n"
  shows "min (duration_saturating_mul (min (ib * 2 ^ (n - 1)) mb) 2) mb = min (ib * 2 ^ n) mb"
proof -
  have "ib * 2 ^ n = ib * 2 ^ (n - 1) * 2" using assms(3) by (cases n) simp_all
  then show ?thesis using assms(1,2) by (auto simp: duration_saturating_mul_def min_def)
qed

lemma worker_publish_inv:
  assumes "pipeline_inv capacity p" "worker_publish p answer = Some p'"
  shows "pipeline_inv capacity p'"
proof -
  obtain batch backoff attempt where w: "ep_worker p = Publishing batch backoff attempt"
    using assms(2) by (auto simp: worker_publish_def split: worker_state.splits)
  consider (ok) "p' = p\<lparr>ep_worker := Receiving, ep_published := ep_published p @ [batch]\<rparr>"
    | (again) "attempt < max_attempts (ep_retry p)" "p' = p\<lparr>ep_worker := Publishing batch
        (min (duration_saturating_mul backoff 2) (max_backoff (ep_retry p))) (attempt + 1)\<rparr>"
    | (stop) e where "p' = stop_worker p (Inl e)"
    using assms(2) w by (auto simp: worker_publish_def split: sum.splits if_splits)
  then show ?thesis
  proof cases
    case ok
    then show ?thesis using assms(1) w by (auto simp: worker_inv_defs)
  next
    case again
    have "initial_backoff (ep_retry p) \<le> max_backoff (ep_retry p) \<Longrightarrow> max_backoff (ep_retry p) \<le> duration_max \<Longrightarrow>
      min (duration_saturating_mul backoff 2) (max_backoff (ep_retry p))
        = min (initial_backoff (ep_retry p) * 2 ^ attempt) (max_backoff (ep_retry p))"
      using assms(1) w backoff_doubles [of "initial_backoff (ep_retry p)" "max_backoff (ep_retry p)" attempt]
      by (simp add: pipeline_inv_defs)
    then show ?thesis using assms(1) w again by (simp add: worker_inv_defs)
  next
    case (stop e)
    then show ?thesis using stop_worker_inv [OF assms(1), of "Inl e"] w by simp
  qed
qed

lemma worker_step_inv: "worker_step p p' \<Longrightarrow> pipeline_inv capacity p \<Longrightarrow> pipeline_inv capacity p'"
  by (induction rule: worker_step.induct)
     (auto intro: worker_recv_inv worker_collect_inv worker_publish_inv)

lemma pipeline_step_inv:
  "pipeline_step p p' \<Longrightarrow> pipeline_inv capacity p \<Longrightarrow> pipeline_inv capacity p'"
proof (induction rule: pipeline_step.induct)
  case (close p)
  then show ?case by (cases "ep_worker p") (auto simp: worker_inv_defs pipeline_close_def)
qed (auto simp: try_publish_ok publish_terminal_ok intro: enqueue_inv worker_step_inv)

lemma spawn_inv: "spawn_with_retry capacity batch_size retry = Some p \<Longrightarrow> pipeline_inv capacity p"
  by (auto simp: spawn_with_retry_def checked_add_Some pipeline_inv_defs chan_new_def chan_wf_def
      chan_pending_def u64_max_def split: option.splits if_splits)

lemma reachable_inv: "pipeline_reachable capacity batch_size retry p \<Longrightarrow> pipeline_inv capacity p"
  by (induction rule: pipeline_reachable.induct) (auto intro: spawn_inv pipeline_step_inv)

subsection \<open>The retry loop of one batch\<close>

text \<open>
  The inner loop of the worker as one function: \<open>answer k\<close> is the sink's answer to the \<open>k\<close>-th
  call. It returns the result of the loop and the number of calls made.
\<close>

function publish_loop ::
  "EventRetryPolicy \<Rightarrow> (nat \<Rightarrow> EventSinkError + unit) \<Rightarrow> duration \<Rightarrow> usize \<Rightarrow> unit result \<times> nat" where
  "publish_loop retry answer backoff attempt =
     (case answer attempt of
        Inr _ \<Rightarrow> (Inr (), attempt)
      | Inl error \<Rightarrow>
          if sink_kind error = Transient \<and> attempt < max_attempts retry
          then publish_loop retry answer (min (duration_saturating_mul backoff 2) (max_backoff retry)) (attempt + 1)
          else if sink_kind error = Transient
          then (Inl (EventDelivery (''runtime event ingest exhausted '' @ string_of_nat (max_attempts retry)
                  @ '' attempts: '' @ sink_message error)), attempt)
          else (Inl (EventDelivery (sink_message error)), attempt))"
  by pat_completeness auto
termination
  by (relation "measure (\<lambda>(retry, answer, backoff, attempt). max_attempts retry - attempt)") auto

declare publish_loop.simps [simp del]

lemma publish_loop_Ok:
  assumes "answer attempt = Inr ()"
  shows "publish_loop retry answer backoff attempt = (Inr (), attempt)"
  using assms by (subst publish_loop.simps) simp

lemma publish_loop_retry:
  assumes "answer attempt = Inl error" "sink_kind error = Transient" "attempt < max_attempts retry"
  shows "publish_loop retry answer backoff attempt
    = publish_loop retry answer (min (duration_saturating_mul backoff 2) (max_backoff retry)) (attempt + 1)"
  using assms by (subst publish_loop.simps) simp

lemma publish_loop_calls:
  "publish_loop retry answer backoff attempt = (r, n) \<Longrightarrow> attempt \<le> max_attempts retry \<Longrightarrow>
     attempt \<le> n \<and> n \<le> max_attempts retry \<and>
     (\<forall>k. attempt \<le> k \<and> k < n \<longrightarrow> (\<exists>e. answer k = Inl e \<and> sink_kind e = Transient)) \<and>
     (r = Inr () \<longleftrightarrow> answer n = Inr ())"
proof (induction retry answer backoff attempt rule: publish_loop.induct)
  case (1 retry answer backoff attempt)
  show ?case
  proof (cases "\<exists>e. answer attempt = Inl e \<and> sink_kind e = Transient \<and> attempt < max_attempts retry")
    case True
    then obtain e where e: "answer attempt = Inl e" "sink_kind e = Transient" "attempt < max_attempts retry"
      by blast
    have "publish_loop retry answer (min (duration_saturating_mul backoff 2) (max_backoff retry)) (attempt + 1) = (r, n)"
      using "1.prems"(1) publish_loop_retry [of answer attempt e retry backoff] e by simp
    then have IH: "Suc attempt \<le> n \<and> n \<le> max_attempts retry \<and>
        (\<forall>k. Suc attempt \<le> k \<and> k < n \<longrightarrow> (\<exists>e. answer k = Inl e \<and> sink_kind e = Transient)) \<and>
        (r = Inr () \<longleftrightarrow> answer n = Inr ())"
      using "1.IH" [OF e(1)] e by simp
    have "\<exists>e. answer k = Inl e \<and> sink_kind e = Transient" if "attempt \<le> k" "k < n" for k
      using that IH e by (cases "k = attempt") auto
    with IH show ?thesis by simp
  next
    case False
    then have "n = attempt \<and> (r = Inr () \<longleftrightarrow> answer attempt = Inr ())"
      using "1.prems" by (subst (asm) publish_loop.simps) (auto split: sum.splits if_splits)
    with "1.prems"(2) show ?thesis by auto
  qed
qed

subsection \<open>Schedules\<close>

text \<open>A schedule of producer and worker actions, run one after the other.\<close>

datatype pipeline_cmd =
  Publish PendingRuntimeEvent | Terminal PendingRuntimeEvent | Recv | Collect | Sink "EventSinkError + unit" | Close

fun pipeline_exec :: "pipeline_cmd \<Rightarrow> EventPipeline \<Rightarrow> EventPipeline option" where
  "pipeline_exec (Publish ev) p = (case try_publish p ev of Inl _ \<Rightarrow> None | Inr p' \<Rightarrow> Some p')"
| "pipeline_exec (Terminal ev) p = (case publish_terminal p ev False of Ready (Inr p') \<Rightarrow> Some p' | _ \<Rightarrow> None)"
| "pipeline_exec Recv p = worker_recv p"
| "pipeline_exec Collect p = worker_collect p"
| "pipeline_exec (Sink answer) p = worker_publish p answer"
| "pipeline_exec Close p = Some (pipeline_close p)"

fun pipeline_run :: "pipeline_cmd list \<Rightarrow> EventPipeline \<Rightarrow> EventPipeline option" where
  "pipeline_run [] p = Some p"
| "pipeline_run (c # cs) p = (case pipeline_exec c p of None \<Rightarrow> None | Some p' \<Rightarrow> pipeline_run cs p')"

lemma pipeline_exec_step: "pipeline_exec c p = Some p' \<Longrightarrow> pipeline_step p p'"
  by (cases c)
     (auto intro: pipeline_step.intros worker_step.intros split: sum.splits poll.splits)

lemma pipeline_run_reachable:
  "pipeline_reachable k b r p \<Longrightarrow> pipeline_run cs p = Some p' \<Longrightarrow> pipeline_reachable k b r p'"
proof (induction cs arbitrary: p)
  case (Cons c cs)
  then obtain p1 where "pipeline_exec c p = Some p1" "pipeline_run cs p1 = Some p'"
    by (auto split: option.splits)
  with Cons.IH Cons.prems(1) show ?case
    by (blast intro: pipeline_reachable.step pipeline_exec_step)
qed simp

lemma pipeline_schedule_reachable:
  "Option.bind (spawn_with_retry k b r) (pipeline_run cs) = Some p \<Longrightarrow> pipeline_reachable k b r p"
  by (auto simp: bind_eq_Some_conv intro: pipeline_run_reachable pipeline_reachable.spawned)

lemmas pipeline_eval = spawn_with_retry_def MAX_PERMITS_def checked_add_def try_publish_def publish_terminal_def
  is_terminal_event_def has_room_def enqueue_def worker_recv_def worker_collect_def worker_publish_def
  take_queued_def stop_worker_def pipeline_close_def chan_new_def chan_pending_def chan_recv_def
  pending_event_def u64_max_def default_retry_def from_millis_def from_secs_def

abbreviation demo_event :: "EventType \<Rightarrow> PendingRuntimeEvent" where
  "demo_event ty \<equiv> pending_event ''2026-07-19T00:00:00.000Z'' ty ''correlation'' None SourceRuntime PrivacyInternal []"

abbreviation demo_run :: "pipeline_cmd list \<Rightarrow> EventPipeline option" where
  "demo_run cs \<equiv> Option.bind (spawn_with_retry 1 2 default_retry) (pipeline_run cs)"

abbreviation demo_delivery :: "pipeline_cmd list" where
  "demo_delivery \<equiv> [Publish (demo_event SessionReady), Terminal (demo_event SessionFailed), Close, Recv, Collect]"

subsection \<open>Guarantees\<close>

text \<open>
  C1 (invariant). In every reachable state of the event pipeline the accepted events carry the
  producer sequence numbers 1, 2, 3, ... without gap or repetition, and an accepted event gets
  exactly the next number: a rejected publish burns none.
\<close>

theorem pipeline_sequences_gapless:
  assumes "pipeline_reachable capacity batch_size retry p"
  shows "map producer_sequence (accepted p) = [1..<next_producer_sequence p]
    \<and> (\<forall>ev p'. try_publish p ev = Inr p' \<longrightarrow>
         accepted p' = accepted p @ [ev\<lparr>producer_sequence := next_producer_sequence p\<rparr>])"
  using reachable_inv [OF assms]
  by (auto simp: pipeline_inv_def sequence_inv_def try_publish_ok enqueue_def)

theorem pipeline_sequences_gapless_witness:
  "\<exists>p. demo_run [Publish (demo_event SessionReady)] = Some p \<and>
     map producer_sequence (accepted p) = [1] \<and> next_producer_sequence p = 2"
proof -
  obtain p where p: "demo_run [Publish (demo_event SessionReady)] = Some p"
    and n: "next_producer_sequence p = 2"
    by (simp add: pipeline_eval)
  have "map producer_sequence (accepted p) = [1..<next_producer_sequence p]"
    using pipeline_sequences_gapless [OF pipeline_schedule_reachable [OF p]] by blast
  with p n show ?thesis by (simp add: upt_rec)
qed

text \<open>
  C2 (liveness). While no terminal event is queued and the worker runs, publish_terminal
  succeeds at once whatever the load of ordinary events, even with every ordinary slot taken:
  overload cannot starve the terminal event.
\<close>

theorem terminal_slot_reserved:
  assumes "pipeline_reachable capacity batch_size retry p"
    and "ep_sender p" and "\<forall>r. ep_worker p \<noteq> Stopped r"
    and "list_all ordinary_slot (chan_pending (ep_chan p))"
    and "is_terminal_event (event_type ev)" and "next_producer_sequence p < u64_max"
  shows "\<exists>p'. publish_terminal p ev elapsed = Ready (Inr p')
    \<and> accepted p' = accepted p @ [ev\<lparr>producer_sequence := next_producer_sequence p\<rparr>]"
proof -
  have inv: "pipeline_inv capacity p" using assms(1) by (rule reachable_inv)
  have "filter ordinary_slot (chan_pending (ep_chan p)) = chan_pending (ep_chan p)"
    using assms(4) by (simp add: list_all_iff)
  then have "has_room p" using inv by (simp add: pipeline_inv_def spool_inv_def has_room_def)
  moreover have "\<not> chan_closed (ep_chan p)"
    using inv assms(3) by (auto simp: pipeline_inv_def delivery_inv_def split: worker_state.splits)
  ultimately show ?thesis using assms by (auto simp: publish_terminal_ok enqueue_def)
qed

theorem terminal_slot_reserved_witness:
  "\<exists>p p'. demo_run [Publish (demo_event SessionReady)] = Some p \<and> ordinary_slots p = 0 \<and>
     publish_terminal p (demo_event SessionFailed) False = Ready (Inr p') \<and>
     map event_type (accepted p') = [SessionReady, SessionFailed]"
proof -
  obtain p where p: "demo_run [Publish (demo_event SessionReady)] = Some p"
    and h: "ep_sender p" "\<forall>r. ep_worker p \<noteq> Stopped r" "list_all ordinary_slot (chan_pending (ep_chan p))"
      "is_terminal_event (event_type (demo_event SessionFailed))" "next_producer_sequence p < u64_max"
    and full: "ordinary_slots p = 0" "map event_type (accepted p) = [SessionReady]"
    by (simp add: pipeline_eval)
  obtain p' where p': "publish_terminal p (demo_event SessionFailed) False = Ready (Inr p')"
    "accepted p' = accepted p @ [(demo_event SessionFailed)\<lparr>producer_sequence := next_producer_sequence p\<rparr>]"
    using terminal_slot_reserved [OF pipeline_schedule_reachable [OF p] h] by blast
  have "map event_type (accepted p') = [SessionReady, SessionFailed]"
    unfolding p'(2) map_append full(2) by (simp add: pending_event_def)
  with p full(1) p'(1) show ?thesis by (intro exI [of _ p] exI [of _ p'] conjI)
qed

text \<open>
  When \<open>close\<close> returns Ok, every event the pipeline ever accepted has been acknowledged by the
  sink, in order and exactly once.
\<close>

lemma close_flushes_every_event:
  assumes "pipeline_reachable capacity batch_size retry p" and "close_result True p = Ready (Inr ())"
  shows "concat (ep_published p) = accepted p"
  using reachable_inv [OF assms(1)] assms(2)
  by (auto simp: close_result_def pipeline_inv_def delivery_inv_def split: worker_state.splits)

text \<open>
  At every moment the batches the sink has accepted are a prefix of the accepted
  events, with consecutive producer sequence numbers starting at 1: no reordering, no duplicate,
  no hole.
\<close>

lemma delivery_in_order:
  assumes "pipeline_reachable capacity batch_size retry p"
  shows "\<exists>rest. accepted p = concat (ep_published p) @ rest
    \<and> map producer_sequence (concat (ep_published p)) = [1..<1 + length (concat (ep_published p))]"
proof -
  have inv: "pipeline_inv capacity p" using assms by (rule reachable_inv)
  then obtain rest where rest: "accepted p = concat (ep_published p) @ rest"
    by (auto simp: pipeline_inv_def delivery_inv_def split: worker_state.splits)
  let ?n = "length (concat (ep_published p))"
  have "map producer_sequence (concat (ep_published p)) = take ?n (map producer_sequence (accepted p))"
    by (simp only: rest map_append take_map [symmetric]) simp
  also have "\<dots> = take ?n [1..<next_producer_sequence p]"
    using inv by (simp add: pipeline_inv_def sequence_inv_def)
  also have "\<dots> = [1..<1 + ?n]"
  proof -
    have "length (map producer_sequence (accepted p)) = next_producer_sequence p - 1"
      using inv by (simp only: pipeline_inv_def sequence_inv_def) simp
    then have "1 + ?n \<le> next_producer_sequence p"
      using inv rest by (auto simp: pipeline_inv_def sequence_inv_def dest: arg_cong [of _ _ length])
    then show ?thesis by (simp add: take_upt)
  qed
  finally show ?thesis using rest by blast
qed

text \<open>
  C4 (bounds). While a batch is being published the attempt number stays within the retry
  policy, the batch within the batch size, and the backoff is exactly min(initial *
  2^(attempt-1), max).
\<close>

theorem retry_budget:
  assumes "pipeline_reachable capacity batch_size retry p"
    and "ep_worker p = Publishing batch backoff attempt"
    and "initial_backoff (ep_retry p) \<le> max_backoff (ep_retry p)" and "max_backoff (ep_retry p) \<le> duration_max"
  shows "1 \<le> attempt \<and> attempt \<le> max_attempts (ep_retry p) \<and> batch \<noteq> [] \<and> length batch \<le> ep_batch_size p
    \<and> backoff = min (initial_backoff (ep_retry p) * 2 ^ (attempt - 1)) (max_backoff (ep_retry p))"
  using reachable_inv [OF assms(1)] assms(2-) by (simp add: pipeline_inv_def retry_inv_def)

theorem retry_budget_witness:
  "\<exists>p batch backoff. demo_run (demo_delivery @ [Collect,
       Sink (Inl \<lparr>sink_kind = Transient, sink_message = ''busy''\<rparr>)]) = Some p \<and>
     ep_worker p = Publishing batch backoff 2 \<and> backoff = 50000000"
proof -
  obtain p batch backoff where p: "demo_run (demo_delivery @ [Collect,
       Sink (Inl \<lparr>sink_kind = Transient, sink_message = ''busy''\<rparr>)]) = Some p"
    and w: "ep_worker p = Publishing batch backoff 2"
    and h: "initial_backoff (ep_retry p) \<le> max_backoff (ep_retry p)" "max_backoff (ep_retry p) \<le> duration_max"
    and r: "ep_retry p = default_retry"
    by (simp add: pipeline_eval duration_max_def)
  have "backoff = min (initial_backoff (ep_retry p) * 2 ^ (2 - 1)) (max_backoff (ep_retry p))"
    using retry_budget [OF pipeline_schedule_reachable [OF p] w h] by blast
  with p w r show ?thesis by (simp add: default_retry_def from_millis_def from_secs_def)
qed

text \<open>
  C5 (termination). The retry loop of a batch always ends, after at most max_attempts sink
  calls, all but the last of them transient failures, and returns Ok exactly when the last call
  did.
\<close>

theorem publish_loop_bounded:
  assumes "0 < max_attempts retry"
  shows "\<exists>r n. publish_loop retry answer (initial_backoff retry) 1 = (r, n)
    \<and> 1 \<le> n \<and> n \<le> max_attempts retry
    \<and> (\<forall>k. 1 \<le> k \<and> k < n \<longrightarrow> (\<exists>e. answer k = Inl e \<and> sink_kind e = Transient))
    \<and> (r = Inr () \<longleftrightarrow> answer n = Inr ())"
proof -
  obtain r n where "publish_loop retry answer (initial_backoff retry) 1 = (r, n)" by fastforce
  with publish_loop_calls [OF this] assms show ?thesis by auto
qed

theorem publish_loop_bounded_witness:
  "0 < max_attempts default_retry \<and>
   (\<exists>r n. publish_loop default_retry (\<lambda>k. if k = 3 then Inr () else Inl \<lparr>sink_kind = Transient, sink_message = ''busy''\<rparr>)
       (initial_backoff default_retry) 1 = (r, n) \<and> n \<le> 8)"
proof -
  have h: "0 < max_attempts default_retry" by (simp add: default_retry_def)
  then show ?thesis
    using publish_loop_bounded [OF h, of "\<lambda>k. if k = 3 then Inr () else Inl \<lparr>sink_kind = Transient, sink_message = ''busy''\<rparr>"]
    by (auto simp: default_retry_def)
qed

end
