(* ===== verification/Session.thy ===== *)
theory Session
  imports Pipeline Events
begin

text \<open>
  The session actor (\<open>session.rs\<close>): configuration, lifecycle, ingress handle, and one definition
  per handler, in the error monad over the actor's state.

  The actor runs while the event worker drains its spool and the client drains the output queue.
  \<open>env_pending\<close> lists the bursts of such concurrent actions, one burst before every operation on
  a shared queue, so that every interleaving of the source is one value of the field.
  \<open>enc\<close> is the JSON encoder of history messages.
\<close>

subsection \<open>Configuration\<close>

record SessionConfig =
  control_capacity :: usize
  media_capacity :: usize
  output_capacity :: usize
  max_audio_frame_bytes :: usize
  max_buffered_audio_bytes :: usize
  max_session_duration :: duration
  start_timeout :: duration
  cfg_max_history_messages :: usize
  max_history_bytes :: usize
  max_provider_text_delta_bytes :: usize
  cfg_max_response_text_bytes :: usize
  cfg_max_response_audio_bytes :: usize
  provider_event_timeout :: duration
  cfg_sample_rate_hz :: nat
  cfg_voice_id :: string
  cfg_instructions :: string
  cfg_required_capabilities :: "string list"
  playout_history_capacity :: usize

definition default_config :: SessionConfig where
  "default_config =
     \<lparr>control_capacity = 64, media_capacity = 128, output_capacity = 128,
      max_audio_frame_bytes = 64 * 1024, max_buffered_audio_bytes = 2 * 1024 * 1024,
      max_session_duration = from_secs 3600, start_timeout = from_secs 30,
      cfg_max_history_messages = 100, max_history_bytes = 1024 * 1024,
      max_provider_text_delta_bytes = 16000, cfg_max_response_text_bytes = 256 * 1024,
      cfg_max_response_audio_bytes = 16 * 1024 * 1024, provider_event_timeout = from_secs 15,
      cfg_sample_rate_hz = 16000, cfg_voice_id = ''scripted'',
      cfg_instructions = ''Respond helpfully and concisely.'', cfg_required_capabilities = [],
      playout_history_capacity = 64\<rparr>"

definition config_validate :: "SessionConfig \<Rightarrow> unit result" where
  "config_validate c =
     (if control_capacity c = 0 \<or> media_capacity c = 0 \<or> output_capacity c = 0
         \<or> max_audio_frame_bytes c = 0
         \<or> max_buffered_audio_bytes c < max_audio_frame_bytes c
         \<or> cfg_max_history_messages c < 2
         \<or> max_history_bytes c < 16 * 1024
         \<or> max_provider_text_delta_bytes c = 0
         \<or> max_provider_text_delta_bytes c > 16000
         \<or> cfg_max_response_text_bytes c < max_provider_text_delta_bytes c
         \<or> cfg_max_response_audio_bytes c < max_audio_frame_bytes c
         \<or> provider_event_timeout c = 0
         \<or> playout_history_capacity c = 0
         \<or> \<not> (8000 \<le> cfg_sample_rate_hz c \<and> cfg_sample_rate_hz c \<le> 48000)
         \<or> max_session_duration c = 0
         \<or> start_timeout c = 0
      then Inl (InvalidRequest ''invalid session resource budget'')
      else Inr ())"

datatype SessionPhase = Ready | Active | Draining | Completed | Canceled | Failed

datatype SessionTerminalOutcome = Pending | Flushed | OutcomeFailed

subsection \<open>Commands and the ingress handle\<close>

datatype ControlCommand =
    Client ClientMessage
  | CmdSttUpdate u64 string "ProviderError + TranscriptSegment"
  | CmdSttEnded u64 bool
  | CmdPipeline string u64 PipelineEvent
  | Complete string
  | Cancel string

datatype MediaCommand = MediaAudio "byte list" | OrderedControl ClientMessage

record SessionHandle =
  hnd_context :: TenantContext
  hnd_control :: "ControlCommand chan"
  hnd_media :: "MediaCommand chan"
  hnd_max_audio_frame_bytes :: usize
  hnd_force_cancel :: bool
  hnd_media_overrun :: bool

text \<open>The result of an operation on the handle comes with the handle's new state.\<close>

definition send_control :: "SessionHandle \<Rightarrow> ControlCommand \<Rightarrow> unit result \<times> SessionHandle" where
  "send_control h cmd =
     (case chan_try_send (hnd_control h) cmd of
        Inr c \<Rightarrow> (Inr (), h\<lparr>hnd_control := c\<rparr>)
      | Inl Full \<Rightarrow> (Inl (MailboxFull ''control''), h)
      | Inl Closed \<Rightarrow> (Inl (InvalidState ''session actor has stopped''), h))"

definition send_media :: "SessionHandle \<Rightarrow> MediaCommand \<Rightarrow> unit result \<times> SessionHandle" where
  "send_media h cmd =
     (case chan_try_send (hnd_media h) cmd of
        Inr c \<Rightarrow> (Inr (), h\<lparr>hnd_media := c\<rparr>)
      | Inl Full \<Rightarrow> (Inl (MailboxFull ''media''), h\<lparr>hnd_media_overrun := True\<rparr>)
      | Inl Closed \<Rightarrow> (Inl (InvalidState ''session actor has stopped''), h))"

definition ordered_with_media :: "ClientMessage \<Rightarrow> bool" where
  "ordered_with_media m \<longleftrightarrow>
     (case m of SessionStart _ \<Rightarrow> True | InputText _ _ \<Rightarrow> True | InputCommit _ \<Rightarrow> True | _ \<Rightarrow> False)"

definition try_control :: "SessionHandle \<Rightarrow> ClientMessage \<Rightarrow> unit result \<times> SessionHandle" where
  "try_control h m =
     (case client_validate m (session_id (hnd_context h)) (runtime_generation (hnd_context h)) of
        Inl e \<Rightarrow> (Inl e, h)
      | Inr _ \<Rightarrow>
          if ordered_with_media m then send_media h (OrderedControl m)
          else send_control h (Client m))"

definition try_audio :: "SessionHandle \<Rightarrow> byte list \<Rightarrow> unit result \<times> SessionHandle" where
  "try_audio h audio =
     (if audio = [] \<or> length audio > hnd_max_audio_frame_bytes h \<or> odd (length audio)
      then (Inl (RuntimeError.Protocol ''binary audio frame must be nonempty, bounded PCM16LE''), h)
      else send_media h (MediaAudio audio))"

definition session_end :: "SessionHandle \<Rightarrow> string \<Rightarrow> unit result \<times> SessionHandle" where
  "session_end h reason = send_control h (Complete reason)"

definition session_cancel :: "SessionHandle \<Rightarrow> string \<Rightarrow> unit result \<times> SessionHandle" where
  "session_cancel h reason = send_control h (Cancel reason)"

definition force_cancel :: "SessionHandle \<Rightarrow> SessionHandle" where
  "force_cancel h = h\<lparr>hnd_force_cancel := True\<rparr>"

subsection \<open>The actor\<close>

record CurrentResponse =
  cur_id :: string
  cur_epoch :: u64
  cur_token :: nat
  pending_assistant :: "string option"
  pending_tool :: "PendingToolCall option"

datatype env_action =
    EnvRecv
  | EnvCollect
  | EnvSink "EventSinkError + unit"
  | EnvTake
  | EnvDisconnect
  | EnvClock string

text \<open>
  \<open>tokens\<close> counts the cancellation tokens made so far (a task is known by its token);
  \<open>cancelled\<close> and \<open>aborted\<close> list the tokens cancelled and the tasks aborted. \<open>responses\<close> and
  \<open>transcriptions\<close> log the tasks spawned.
\<close>

record spawned_response =
  sp_id :: string
  sp_epoch :: u64
  sp_request :: ReasoningRequest
  sp_token :: nat

record spawned_transcription =
  st_epoch :: u64
  st_turn :: string
  st_audio :: "byte list"
  st_token :: nat

record SessionActor =
  config :: SessionConfig
  tenant :: TenantContext
  provider_capabilities :: "ProviderCapability btree_set"
  events :: EventPipeline
  phase :: SessionPhase
  output_tx :: "RealtimeOutput chan"
  current_response :: "CurrentResponse option"
  response_epoch :: u64
  input_epoch :: u64
  input_cancel :: "nat option"
  input_task :: "nat option"
  audio_buffer :: "byte list"
  speech_in_progress :: bool
  conversation :: History
  playout :: PlayoutAckHistory
  message_sequence :: u64
  recent_message_ids :: "string list"
  recent_message_set :: "string set"
  terminal_failure_code :: "string option"
  terminal_error :: "RuntimeError option"
  deadline :: duration
  active_deadline_started :: bool
  tokens :: nat
  cancelled :: "nat list"
  aborted :: "nat list"
  responses :: "spawned_response list"
  transcriptions :: "spawned_transcription list"
  wall_clock :: string
  env_pending :: "env_action list list"

type_synonym 'a session = "(SessionActor, RuntimeError, 'a) action"

subsection \<open>Emission\<close>

definition step_events :: "(EventPipeline \<Rightarrow> EventPipeline option) \<Rightarrow> SessionActor \<Rightarrow> SessionActor" where
  "step_events f a = (case f (events a) of None \<Rightarrow> a | Some p \<Rightarrow> a\<lparr>events := p\<rparr>)"

fun env_act :: "env_action \<Rightarrow> SessionActor \<Rightarrow> SessionActor" where
  "env_act EnvRecv a = step_events worker_recv a"
| "env_act EnvCollect a = step_events worker_collect a"
| "env_act (EnvSink answer) a = step_events (\<lambda>p. worker_publish p answer) a"
| "env_act EnvTake a = (case chan_recv (output_tx a) of None \<Rightarrow> a | Some (_, c) \<Rightarrow> a\<lparr>output_tx := c\<rparr>)"
| "env_act EnvDisconnect a = a\<lparr>output_tx := (output_tx a)\<lparr>chan_closed := True\<rparr>\<rparr>"
| "env_act (EnvClock now) a = a\<lparr>wall_clock := now\<rparr>"

definition environment :: "SessionActor \<Rightarrow> SessionActor" where
  "environment a =
     (case env_pending a of [] \<Rightarrow> a | burst # rest \<Rightarrow> fold env_act burst (a\<lparr>env_pending := rest\<rparr>))"

definition payload_map :: "(string \<times> json) list \<Rightarrow> (string, json) btree_map" where
  "payload_map entries = btree_of_list entries"

abbreviation json_u64 :: "nat \<Rightarrow> json" where
  "json_u64 n \<equiv> JNumber (PosInt n)"

definition publish_now :: "PendingRuntimeEvent \<Rightarrow> unit session" where
  "publish_now ev = (\<lambda>a.
     case try_publish (events a) ev of Inl e \<Rightarrow> (Inl e, a) | Inr p \<Rightarrow> (Inr (), a\<lparr>events := p\<rparr>))"

definition emit_event :: "EventType \<Rightarrow> EventSource \<Rightarrow> EventPrivacy \<Rightarrow> (string, json) btree_map \<Rightarrow> unit session" where
  "emit_event ty src priv payload =
     thenE (modifyE environment)
       (readE (\<lambda>a. pending_event (wall_clock a) ty (correlation_id (tenant a)) None src priv payload) publish_now)"

text \<open>
  \<open>publish_terminal\<close> waits for a slot until its deadline: when the first poll is pending, the
  concurrent tasks run and the deadline poll decides.
\<close>

definition emit_terminal_event :: "EventType \<Rightarrow> (string, json) btree_map \<Rightarrow> unit session" where
  "emit_terminal_event ty payload = (\<lambda>a.
     let a = environment a;
         ev = pending_event (wall_clock a) ty (correlation_id (tenant a)) None SourceRuntime PrivacyInternal payload in
     case publish_terminal (events a) ev False of
       poll.Ready (Inl e) \<Rightarrow> (Inl e, a)
     | poll.Ready (Inr p) \<Rightarrow> (Inr (), a\<lparr>events := p\<rparr>)
     | poll.Pending \<Rightarrow>
         (let a = environment a in
          case publish_terminal (events a) ev True of
            poll.Ready (Inl e) \<Rightarrow> (Inl e, a)
          | poll.Ready (Inr p) \<Rightarrow> (Inr (), a\<lparr>events := p\<rparr>)
          | poll.Pending \<Rightarrow> (Inl (EventDelivery ''terminal event enqueue deadline exceeded''), a)))"

definition emit_output :: "RealtimeOutput \<Rightarrow> unit session" where
  "emit_output out =
     thenE (modifyE environment) (\<lambda>a.
       case chan_try_send (output_tx a) out of
         Inr c \<Rightarrow> (Inr (), a\<lparr>output_tx := c\<rparr>)
       | Inl Full \<Rightarrow> (Inl OutputBackpressure, a)
       | Inl Closed \<Rightarrow> (Inl (InvalidState ''realtime transport disconnected''), a))"

definition next_server_envelope :: "RealtimeEnvelope session" where
  "next_server_envelope = (\<lambda>a.
     let n = saturating_add (message_sequence a) 1 in
     (Inr (envelope_server (session_id (tenant a)) (runtime_generation (tenant a)) (''server-'' @ string_of_nat n)),
      a\<lparr>message_sequence := n\<rparr>))"

text \<open>A message is always sent under a fresh envelope.\<close>

definition emit_with :: "(RealtimeEnvelope \<Rightarrow> RealtimeOutput) \<Rightarrow> unit session" where
  "emit_with mk = bindE next_server_envelope (\<lambda>env. emit_output (mk env))"

definition emit_server :: "(RealtimeEnvelope \<Rightarrow> ServerMessage) \<Rightarrow> unit session" where
  "emit_server mk = emit_with (\<lambda>env. Control (mk env))"

definition send_error :: "RuntimeError \<Rightarrow> unit session" where
  "send_error e = emit_server (\<lambda>env. ServerMessage.Error env (error_code e) (public_message e) (error_details e))"

definition emit_transcript :: "string \<Rightarrow> string \<Rightarrow> bool \<Rightarrow> unit session" where
  "emit_transcript turn tx final = emit_server (\<lambda>env. TranscriptDelta env turn tx final)"

definition require_active :: "bool session" where
  "require_active =
     readE phase (\<lambda>ph. if ph = Active then returnE True
       else thenE (send_error (InvalidState ''input requires an active session'')) (returnE False))"

subsection \<open>State updates\<close>

definition cancel_input :: "SessionActor \<Rightarrow> SessionActor" where
  "cancel_input a =
     (case input_cancel a of
        None \<Rightarrow> a | Some t \<Rightarrow> a\<lparr>input_cancel := None, cancelled := cancelled a @ [t]\<rparr>)"

definition abort_input :: "SessionActor \<Rightarrow> SessionActor" where
  "abort_input a =
     (case input_task a of
        None \<Rightarrow> a | Some t \<Rightarrow> a\<lparr>input_task := None, aborted := aborted a @ [t]\<rparr>)"

definition take_current :: "SessionActor \<Rightarrow> SessionActor" where
  "take_current a =
     (case current_response a of
        None \<Rightarrow> a
      | Some cur \<Rightarrow> a\<lparr>current_response := None, cancelled := cancelled a @ [cur_token cur],
                       aborted := aborted a @ [cur_token cur]\<rparr>)"

definition cancel_children :: "SessionActor \<Rightarrow> SessionActor" where
  "cancel_children a = take_current (abort_input (cancel_input a))"

definition begin_input :: "SessionActor \<Rightarrow> SessionActor" where
  "begin_input a =
     (let a = abort_input (cancel_input a) in
      a\<lparr>input_epoch := saturating_add (input_epoch a) 1, input_cancel := Some (tokens a),
        tokens := Suc (tokens a)\<rparr>)"

definition turn_id_of :: "u64 \<Rightarrow> string" where
  "turn_id_of epoch = ''turn-'' @ string_of_nat epoch"

text \<open>
  \<open>commit_audio\<close> without the body of the task it spawns, which is \<open>stt_task\<close> of theory
  \<open>Pipeline\<close>: the buffered audio goes to a new transcription under the current input token.
\<close>

definition commit_audio :: "SessionActor \<Rightarrow> SessionActor" where
  "commit_audio a =
     (let a = (case input_cancel a of Some _ \<Rightarrow> a | None \<Rightarrow> a\<lparr>tokens := Suc (tokens a)\<rparr>);
          tok = (case input_cancel a of Some t \<Rightarrow> t | None \<Rightarrow> tokens a - 1) in
      a\<lparr>speech_in_progress := False, audio_buffer := [],
        transcriptions := transcriptions a @
          [\<lparr>st_epoch = input_epoch a, st_turn = turn_id_of (input_epoch a), st_audio = audio_buffer a, st_token = tok\<rparr>],
        input_task := Some (tokens a), tokens := Suc (tokens a)\<rparr>)"

definition set_phase :: "SessionPhase \<Rightarrow> SessionActor \<Rightarrow> SessionActor" where
  "set_phase ph a = a\<lparr>phase := ph\<rparr>"

definition clear_speech :: "SessionActor \<Rightarrow> SessionActor" where
  "clear_speech a = a\<lparr>audio_buffer := [], speech_in_progress := False\<rparr>"

definition start_speech :: "SessionActor \<Rightarrow> SessionActor" where
  "start_speech a = a\<lparr>speech_in_progress := True\<rparr>"

definition append_audio :: "byte list \<Rightarrow> SessionActor \<Rightarrow> SessionActor" where
  "append_audio audio a = a\<lparr>audio_buffer := audio_buffer a @ audio\<rparr>"

definition drop_current :: "SessionActor \<Rightarrow> SessionActor" where
  "drop_current a = a\<lparr>current_response := None\<rparr>"

definition update_current :: "(CurrentResponse \<Rightarrow> CurrentResponse) \<Rightarrow> SessionActor \<Rightarrow> SessionActor" where
  "update_current f a = a\<lparr>current_response := map_option f (current_response a)\<rparr>"

definition response_id_of :: "string \<Rightarrow> u64 \<Rightarrow> string" where
  "response_id_of sid epoch = ''response-'' @ sid @ ''-'' @ string_of_nat epoch"

definition next_response_epoch :: "SessionActor \<Rightarrow> SessionActor" where
  "next_response_epoch a = a\<lparr>response_epoch := saturating_add (response_epoch a) 1\<rparr>"

text \<open>
  The end of \<open>start_response\<close>: the response task (\<open>response_pipeline\<close> of theory \<open>Pipeline\<close>) is
  spawned under a fresh token and becomes the current response.
\<close>

definition spawn_response :: "ConversationMessage list \<Rightarrow> SessionActor \<Rightarrow> SessionActor" where
  "spawn_response msgs a =
     (let epoch = response_epoch a; rid = response_id_of (session_id (tenant a)) epoch in
      a\<lparr>responses := responses a @
          [\<lparr>sp_id = rid, sp_epoch = epoch,
            sp_request = \<lparr>instructions = cfg_instructions (config a), messages = msgs\<rparr>, sp_token = tokens a\<rparr>],
        current_response := Some \<lparr>cur_id = rid, cur_epoch = epoch, cur_token = tokens a,
          pending_assistant = None, pending_tool = None\<rparr>,
        tokens := Suc (tokens a)\<rparr>)"

definition pipeline_limits_of :: "SessionConfig \<Rightarrow> PipelineLimits" where
  "pipeline_limits_of c =
     \<lparr>event_timeout = provider_event_timeout c, max_text_delta_bytes = max_provider_text_delta_bytes c,
      max_response_text_bytes = cfg_max_response_text_bytes c, max_audio_chunk_bytes = max_audio_frame_bytes c,
      max_response_audio_bytes = cfg_max_response_audio_bytes c\<rparr>"

definition history_limits_of :: "SessionConfig \<Rightarrow> history_limits" where
  "history_limits_of c = \<lparr>hl_max_messages = cfg_max_history_messages c, hl_max_bytes = max_history_bytes c\<rparr>"

definition push_group :: "message_encoder \<Rightarrow> ConversationMessage list \<Rightarrow> unit session" where
  "push_group enc ms = (\<lambda>a.
     case push_history_group enc (history_limits_of (config a)) ms (conversation a) of
       (r, h) \<Rightarrow> (r, a\<lparr>conversation := h\<rparr>))"

fun expire_ids :: "string list \<Rightarrow> string set \<Rightarrow> string list \<times> string set" where
  "expire_ids [] st = ([], st)"
| "expire_ids (x # xs) st =
     (if length (x # xs) \<ge> 1024 then expire_ids xs (st - {x}) else (x # xs, st))"

definition remember_message :: "string \<Rightarrow> SessionActor \<Rightarrow> SessionActor" where
  "remember_message mid a =
     (case expire_ids (recent_message_ids a) (recent_message_set a) of
        (ids, st) \<Rightarrow> a\<lparr>recent_message_ids := ids @ [mid], recent_message_set := insert mid st\<rparr>)"

definition is_duplicate_message :: "string \<Rightarrow> bool session" where
  "is_duplicate_message mid =
     readE (\<lambda>a. mid \<in> recent_message_set a) (\<lambda>seen.
       if seen then returnE True else thenE (modifyE (remember_message mid)) (returnE False))"

definition record_playout :: "string \<Rightarrow> f64 \<Rightarrow> unit session" where
  "record_playout rid ms = (\<lambda>a.
     case playout_record (playout a) rid ms of
       Inl e \<Rightarrow> (Inl e, a) | Inr (_, h) \<Rightarrow> (Inr (), a\<lparr>playout := h\<rparr>))"

subsection \<open>Ending a session\<close>

definition terminal_reason_code :: "string \<Rightarrow> string" where
  "terminal_reason_code reason =
     (if reason \<in> set [''client_request'', ''control_plane_cancel'', ''runtime_draining'',
          ''runtime_shutdown_forced'', ''session_deadline'', ''simulation_complete'', ''transport_closed'']
      then reason else ''internal_request'')"

definition interrupt_payload :: "CurrentResponse \<Rightarrow> string \<Rightarrow> f64 option \<Rightarrow> (string, json) btree_map" where
  "interrupt_payload cur reason played =
     (let p = payload_map [(''responseId'', JString (cur_id cur)), (''epoch'', json_u64 (cur_epoch cur)),
                           (''reasonCode'', JString reason)] in
      case played of
        Some (Finite ms) \<Rightarrow> btree_insert ''playedThroughMs'' (JNumber (Float ms)) p
      | _ \<Rightarrow> p)"

definition interrupt_current :: "string \<Rightarrow> unit session" where
  "interrupt_current reason =
     readE current_response (\<lambda>c.
       case c of
         None \<Rightarrow> returnE ()
       | Some cur \<Rightarrow>
           thenE (modifyE take_current)
             (readE (\<lambda>a. played_through_ms (playout a) (cur_id cur)) (\<lambda>played.
                thenE (emit_server (\<lambda>env. ResponseCompleted env (cur_id cur) (cur_epoch cur) True))
                  (emit_event EventType.SessionInterrupted SourceRuntime PrivacyInternal
                     (interrupt_payload cur reason played)))))"

definition is_terminal_phase :: "SessionPhase \<Rightarrow> bool" where
  "is_terminal_phase ph \<longleftrightarrow> ph = Completed \<or> ph = Canceled \<or> ph = Failed"

definition finish_with :: "SessionPhase \<Rightarrow> EventType \<Rightarrow> string \<Rightarrow> unit session" where
  "finish_with ph ty reason =
     readE phase (\<lambda>p. if is_terminal_phase p then returnE ()
       else seqE
         [modifyE (set_phase Draining),
          interrupt_current (terminal_reason_code reason),
          modifyE cancel_input,
          modifyE (set_phase ph),
          emit_terminal_event ty (payload_map [(''reasonCode'', JString (terminal_reason_code reason))])])"

definition complete :: "string \<Rightarrow> unit session" where
  "complete reason = finish_with Completed EventType.SessionCompleted reason"

definition cancel_session :: "string \<Rightarrow> unit session" where
  "cancel_session reason = finish_with Canceled EventType.SessionCanceled reason"

definition note_failure :: "string \<Rightarrow> SessionActor \<Rightarrow> SessionActor" where
  "note_failure code a =
     a\<lparr>phase := Failed,
       terminal_failure_code := (case terminal_failure_code a of None \<Rightarrow> Some code | Some c \<Rightarrow> Some c)\<rparr>"

definition set_terminal_error :: "RuntimeError \<Rightarrow> SessionActor \<Rightarrow> SessionActor" where
  "set_terminal_error e a = a\<lparr>terminal_error := Some e\<rparr>"

definition fail_session :: "string \<Rightarrow> string \<Rightarrow> unit session" where
  "fail_session code msg =
     readE phase (\<lambda>p. if is_terminal_phase p then returnE ()
       else seqE
         [modifyE cancel_children,
          modifyE (note_failure code),
          send_error (RuntimeError.Provider ''session'' msg),
          modifyE (set_terminal_error (RuntimeError.Provider ''session'' msg))])"

definition record_unexpected_failure :: "RuntimeError \<Rightarrow> unit session" where
  "record_unexpected_failure e =
     thenE (modifyE (\<lambda>a. (cancel_children a)\<lparr>phase := Failed\<rparr>))
       (readE terminal_failure_code (\<lambda>code.
          thenE (modifyE (\<lambda>a. a\<lparr>terminal_failure_code := None\<rparr>))
            (emit_terminal_event EventType.SessionFailed
               (payload_map [(''code'', JString (case code of Some c \<Rightarrow> c | None \<Rightarrow> error_code e))]))))"

subsection \<open>Responses\<close>

definition start_response :: "message_encoder \<Rightarrow> string \<Rightarrow> unit session" where
  "start_response enc input =
     thenE (interrupt_current ''superseded_response'')
       (readE (\<lambda>a. history (conversation a)) (\<lambda>prior_history.
         seqE
           [push_group enc [User input],
            modifyE next_response_epoch,
            readE (\<lambda>a. payload_map
                [(''responseId'', JString (response_id_of (session_id (tenant a)) (response_epoch a))),
                 (''epoch'', json_u64 (response_epoch a))])
              (emit_event EventType.ReasoningStarted SourceProvider PrivacyInternal),
            modifyE (spawn_response (prior_history @ [User input]))]))"

text \<open>Taking the pending tool call out of the current response.\<close>

definition take_pending_tool :: "string \<Rightarrow> string \<Rightarrow> string \<Rightarrow> string \<Rightarrow> PendingToolCall session" where
  "take_pending_tool missing mismatch cid name =
     readE (\<lambda>a. Option.bind (current_response a) pending_tool) (\<lambda>p.
       thenE (modifyE (update_current (\<lambda>c. c\<lparr>pending_tool := None\<rparr>)))
         (case p of
            None \<Rightarrow> throwE (RuntimeError.Provider ''tool'' missing)
          | Some call \<Rightarrow>
              if pending_call_id call \<noteq> cid \<or> pending_name call \<noteq> name
              then throwE (RuntimeError.Provider ''tool'' mismatch)
              else returnE call))"

abbreviation response_payload :: "string \<Rightarrow> u64 \<Rightarrow> (string, json) btree_map" where
  "response_payload rid epoch \<equiv> payload_map [(''responseId'', JString rid), (''epoch'', json_u64 epoch)]"

definition audio_output :: "SessionConfig \<Rightarrow> string \<Rightarrow> u64 \<Rightarrow> u64 \<Rightarrow> byte list \<Rightarrow> RealtimeEnvelope \<Rightarrow> RealtimeOutput" where
  "audio_output cfg rid epoch sq bytes env =
     RealtimeOutput.Audio
       \<lparr>frame_header = \<lparr>message_type = ''audio.chunk'', hdr_envelope = env, hdr_response_id = rid,
          hdr_epoch = epoch, hdr_sequence = sq, hdr_encoding = Pcm16Le,
          hdr_sample_rate_hz = cfg_sample_rate_hz cfg, hdr_channels = 1\<rparr>,
        frame_audio = bytes\<rparr>"

definition on_tool_started :: "string \<Rightarrow> string \<Rightarrow> json \<Rightarrow> unit session" where
  "on_tool_started cid name input =
     readE current_response (\<lambda>c.
       case c of
         None \<Rightarrow> throwE (Internal ''tool response state disappeared'')
       | Some cur \<Rightarrow>
           if pending_tool cur \<noteq> None
           then throwE (RuntimeError.Provider ''tool'' ''provider started overlapping tool calls'')
           else
             thenE (modifyE (update_current (\<lambda>c. c\<lparr>pending_tool := Some
                 \<lparr>pending_call_id = cid, pending_name = name, pending_input = input\<rparr>\<rparr>)))
               (emit_event EventType.ToolStarted SourceTool Sensitive
                  (payload_map [(''callId'', JString cid), (''toolName'', JString name)])))"

definition on_tool_completed :: "message_encoder \<Rightarrow> string \<Rightarrow> string \<Rightarrow> json \<Rightarrow> bool \<Rightarrow> unit session" where
  "on_tool_completed enc cid name out was_cached =
     bindE (take_pending_tool ''tool completed without a matching call''
              ''tool completion did not match its call'' cid name)
       (\<lambda>call. thenE
         (push_group enc
            [AssistantToolCall (pending_call_id call) (pending_name call) (pending_input call),
             ConversationMessage.Tool (pending_call_id call) (pending_name call) out])
         (emit_event EventType.ToolCompleted SourceTool Sensitive
            (payload_map [(''callId'', JString cid), (''toolName'', JString name), (''cached'', JBool was_cached)])))"

definition on_tool_failed :: "string \<Rightarrow> string \<Rightarrow> string \<Rightarrow> unit session" where
  "on_tool_failed cid name code =
     bindE (take_pending_tool ''tool failed without a matching call''
              ''tool failure did not match its call'' cid name)
       (\<lambda>_. emit_event EventType.ToolFailed SourceTool Sensitive
         (payload_map [(''callId'', JString cid), (''toolName'', JString name), (''code'', JString code)]))"

definition on_response_completed :: "message_encoder \<Rightarrow> string \<Rightarrow> u64 \<Rightarrow> unit session" where
  "on_response_completed enc rid epoch =
     readE current_response (\<lambda>c.
       case c of
         None \<Rightarrow> throwE (Internal ''completed response state disappeared'')
       | Some cur \<Rightarrow>
           thenE (modifyE drop_current)
             (if pending_tool cur \<noteq> None
              then throwE (RuntimeError.Provider ''tool'' ''response completed with an unfinished tool call'')
              else case pending_assistant cur of
                None \<Rightarrow> throwE (RuntimeError.Provider ''reasoner'' ''response completed without retained assistant text'')
              | Some tx \<Rightarrow>
                  thenE (push_group enc [Assistant tx])
                    (emit_server (\<lambda>env. ResponseCompleted env rid epoch False))))"

definition is_current :: "string \<Rightarrow> u64 \<Rightarrow> SessionActor \<Rightarrow> bool" where
  "is_current rid epoch a \<longleftrightarrow>
     (case current_response a of None \<Rightarrow> False | Some cur \<Rightarrow> cur_id cur = rid \<and> cur_epoch cur = epoch)"

definition pipeline_event :: "message_encoder \<Rightarrow> string \<Rightarrow> u64 \<Rightarrow> PipelineEvent \<Rightarrow> unit session" where
  "pipeline_event enc rid epoch ev =
     (case ev of
        PipelineEvent.ReasoningDelta tx \<Rightarrow>
          thenE (emit_server (\<lambda>env. ResponseDelta env rid epoch tx))
            (emit_event EventType.ReasoningDelta SourceProvider Pii
               (payload_map [(''responseId'', JString rid), (''epoch'', json_u64 epoch),
                             (''deltaBytes'', json_u64 (length tx))]))
      | PipelineEvent.ToolStarted cid name input \<Rightarrow> on_tool_started cid name input
      | PipelineEvent.ToolCompleted cid name out was_cached \<Rightarrow> on_tool_completed enc cid name out was_cached
      | PipelineEvent.ToolFailed cid name code \<Rightarrow> on_tool_failed cid name code
      | PipelineEvent.ReasoningCompleted tx \<Rightarrow>
          thenE (modifyE (update_current (\<lambda>c. c\<lparr>pending_assistant := Some tx\<rparr>)))
            (emit_event EventType.ReasoningCompleted SourceProvider Pii
               (payload_map [(''responseId'', JString rid), (''epoch'', json_u64 epoch),
                             (''textBytes'', json_u64 (length tx))]))
      | PipelineEvent.TtsStarted \<Rightarrow>
          emit_event EventType.TtsStarted SourceProvider PrivacyInternal (response_payload rid epoch)
      | PipelineEvent.Audio sq bytes \<Rightarrow>
          thenE
            (if sq = 0
             then emit_event EventType.TtsFirstAudio SourceProvider PrivacyInternal (response_payload rid epoch)
             else returnE ())
            (readE config (\<lambda>cfg. emit_with (audio_output cfg rid epoch sq bytes)))
      | PipelineEvent.TtsCompleted \<Rightarrow>
          emit_event EventType.TtsCompleted SourceProvider PrivacyInternal (response_payload rid epoch)
      | PipelineEvent.Completed \<Rightarrow> on_response_completed enc rid epoch
      | PipelineEvent.Failed e \<Rightarrow> fail_session ''provider_pipeline_failed'' (perr_message e))"

definition handle_pipeline :: "message_encoder \<Rightarrow> string \<Rightarrow> u64 \<Rightarrow> PipelineEvent \<Rightarrow> unit session" where
  "handle_pipeline enc rid epoch ev =
     readE (is_current rid epoch) (\<lambda>current. if current then pipeline_event enc rid epoch ev else returnE ())"

subsection \<open>Input\<close>

definition speech_payload :: "string \<Rightarrow> string \<Rightarrow> (string, json) btree_map" where
  "speech_payload turn tx = payload_map [(''turnId'', JString turn), (''textBytes'', json_u64 (length tx))]"

definition handle_stt_update :: "message_encoder \<Rightarrow> u64 \<Rightarrow> string \<Rightarrow> ProviderError + TranscriptSegment \<Rightarrow> unit session" where
  "handle_stt_update enc epoch turn r =
     readE (\<lambda>a. (input_epoch a, max_provider_text_delta_bytes (config a))) (\<lambda>(current, bound).
       if epoch \<noteq> current then returnE ()
       else case r of
         Inr seg \<Rightarrow>
           if segment_text seg = [] \<or> length (segment_text seg) > bound
           then fail_session ''stt_output_invalid'' ''STT provider returned an invalid transcript segment''
           else seqE
             [emit_transcript turn (segment_text seg) (is_final seg),
              emit_event (if is_final seg then EventType.SpeechFinal else EventType.SpeechPartial)
                SourceProvider Pii (speech_payload turn (segment_text seg)),
              (if is_final seg then start_response enc (segment_text seg) else returnE ())]
       | Inl e \<Rightarrow>
           if perr_kind e = ProviderErrorKind.Cancelled then returnE ()
           else fail_session ''stt_provider_failed'' (perr_message e))"

definition handle_audio :: "byte list \<Rightarrow> unit session" where
  "handle_audio audio =
     bindE require_active (\<lambda>active.
       if \<not> active then returnE ()
       else
         thenE
           (readE speech_in_progress (\<lambda>speaking.
              if speaking then returnE ()
              else seqE
                [modifyE begin_input, modifyE start_speech, interrupt_current ''audio_barge_in'',
                 emit_event EventType.SpeechStarted SourceRuntime PrivacyInternal
                   (payload_map [(''bufferedBytes'', json_u64 0)])]))
           (readE (\<lambda>a. saturating_add (length (audio_buffer a)) (length audio) > max_buffered_audio_bytes (config a))
              (\<lambda>overflow.
                if overflow
                then fail_session ''audio_buffer_overflow'' ''committed audio exceeded its session budget''
                else modifyE (append_audio audio))))"

definition on_session_start :: "unit session" where
  "on_session_start =
     readE phase (\<lambda>ph.
       if ph \<noteq> Ready then send_error (InvalidState ''session.start requires ready state'')
       else seqE
         [modifyE (set_phase Active),
          readE (\<lambda>a. payload_map [(''runtimeGeneration'', json_u64 (runtime_generation (tenant a)))])
            (emit_event EventType.SessionStarted SourceRuntime PrivacyInternal),
          emit_server (\<lambda>env. ServerMessage.SessionStarted env)])"

definition on_input_text :: "message_encoder \<Rightarrow> string \<Rightarrow> unit session" where
  "on_input_text enc tx =
     bindE require_active (\<lambda>active.
       if \<not> active then returnE ()
       else seqE
         [modifyE clear_speech, modifyE begin_input, interrupt_current ''text_barge_in'',
          readE (\<lambda>a. turn_id_of (input_epoch a)) (\<lambda>turn.
            thenE (emit_transcript turn tx True)
              (emit_event EventType.SpeechFinal SourceProvider Pii (speech_payload turn tx))),
          start_response enc tx])"

definition on_input_commit :: "unit session" where
  "on_input_commit =
     bindE require_active (\<lambda>active.
       if \<not> active then returnE ()
       else readE audio_buffer (\<lambda>buffered.
         if buffered = [] then send_error (RuntimeError.Protocol ''input.commit requires buffered audio'')
         else modifyE commit_audio))"

definition on_response_cancel :: "string \<Rightarrow> unit session" where
  "on_response_cancel rid =
     readE (\<lambda>a. case current_response a of None \<Rightarrow> False | Some cur \<Rightarrow> cur_id cur = rid) (\<lambda>current.
       if current then interrupt_current ''client_cancel'' else returnE ())"

text \<open>The dispatch of a fresh client message: \<open>False\<close> ends the session's loop.\<close>

definition client_message :: "message_encoder \<Rightarrow> ClientMessage \<Rightarrow> bool session" where
  "client_message enc m =
     (case m of
        SessionStart _ \<Rightarrow> thenE on_session_start (returnE True)
      | InputText _ tx \<Rightarrow> thenE (on_input_text enc tx) (returnE True)
      | InputCommit _ \<Rightarrow> thenE on_input_commit (returnE True)
      | ResponseCancel _ rid \<Rightarrow> thenE (on_response_cancel rid) (returnE True)
      | PlayoutAck _ rid ms \<Rightarrow> thenE (record_playout rid ms) (returnE True)
      | SessionEnd _ _ \<Rightarrow> thenE (complete ''client_request'') (returnE False))"

definition handle_client :: "message_encoder \<Rightarrow> ClientMessage \<Rightarrow> bool session" where
  "handle_client enc m =
     readE tenant (\<lambda>t.
       bindE (liftE (client_validate m (session_id t) (runtime_generation t))) (\<lambda>_.
         bindE (is_duplicate_message (env_message_id (client_envelope m))) (\<lambda>dup.
           if dup then returnE True else client_message enc m)))"

subsection \<open>The loop\<close>

definition still_running :: "bool session" where
  "still_running = readE phase (\<lambda>ph. returnE (ph \<noteq> Failed))"

definition handle_control :: "message_encoder \<Rightarrow> ControlCommand \<Rightarrow> bool session" where
  "handle_control enc cmd =
     (case cmd of
        Client m \<Rightarrow> handle_client enc m
      | CmdSttUpdate epoch turn r \<Rightarrow> thenE (handle_stt_update enc epoch turn r) still_running
      | CmdSttEnded epoch saw_final \<Rightarrow>
          readE input_epoch (\<lambda>current.
            if epoch = current \<and> \<not> saw_final
            then thenE (fail_session ''stt_ended_without_final'' ''STT ended without a final transcript'') (returnE False)
            else returnE True)
      | CmdPipeline rid epoch ev \<Rightarrow> thenE (handle_pipeline enc rid epoch ev) still_running
      | Complete reason \<Rightarrow> thenE (complete reason) (returnE False)
      | Cancel reason \<Rightarrow> thenE (cancel_session reason) (returnE False))"

text \<open>What the \<open>select!\<close> of the loop may deliver; \<open>None\<close> is a closed mailbox.\<close>

datatype loop_event =
    ForceCancelled
  | MediaOverrun
  | DeadlineElapsed
  | ControlRecv "ControlCommand option"
  | MediaRecv "MediaCommand option"

definition loop_body :: "message_encoder \<Rightarrow> loop_event \<Rightarrow> bool session" where
  "loop_body enc ev =
     (case ev of
        ForceCancelled \<Rightarrow>
          thenE (fail_session ''runtime_shutdown_forced'' ''runtime forced session shutdown'') (returnE False)
      | MediaOverrun \<Rightarrow>
          thenE (seqE
            [emit_event EventType.AudioOverrun SourceRuntime PrivacyInternal
               (payload_map [(''outcome'', JString ''session_failed'')]),
             modifyE (\<lambda>a. a\<lparr>audio_buffer := []\<rparr>),
             fail_session ''audio_overrun'' ''realtime audio mailbox overflowed'']) (returnE False)
      | DeadlineElapsed \<Rightarrow>
          thenE (readE phase (\<lambda>ph.
              if ph = Ready
              then fail_session ''session_start_timeout'' ''client did not start the attached session before its deadline''
              else complete ''session_deadline'')) (returnE False)
      | ControlRecv None \<Rightarrow>
          thenE (fail_session ''control_lane_closed'' ''control mailbox closed unexpectedly'') (returnE False)
      | ControlRecv (Some cmd) \<Rightarrow> handle_control enc cmd
      | MediaRecv None \<Rightarrow>
          thenE (fail_session ''media_lane_closed'' ''media mailbox closed unexpectedly'') (returnE False)
      | MediaRecv (Some (MediaAudio audio)) \<Rightarrow> thenE (handle_audio audio) still_running
      | MediaRecv (Some (OrderedControl m)) \<Rightarrow> handle_client enc m)"

text \<open>After an iteration the deadline is armed anew, once, when the session has become active.\<close>

definition loop_tail :: "SessionActor \<Rightarrow> SessionActor" where
  "loop_tail a =
     (if \<not> active_deadline_started a \<and> phase a = Active
      then a\<lparr>deadline := max_session_duration (config a), active_deadline_started := True\<rparr>
      else a)"

text \<open>
  The loop over a list of deliveries. The result is \<open>None\<close> while it still runs; otherwise it is
  the value of \<open>run_loop\<close>.
\<close>

fun loop_run :: "message_encoder \<Rightarrow> loop_event list \<Rightarrow> SessionActor \<Rightarrow> unit result option \<times> SessionActor" where
  "loop_run enc [] a = (None, a)"
| "loop_run enc (ev # evs) a =
     (case loop_body enc ev a of
        (Inl e, a') \<Rightarrow> (Some (Inl e), a')
      | (Inr True, a') \<Rightarrow> loop_run enc evs (loop_tail a')
      | (Inr False, a') \<Rightarrow>
          (Some (case terminal_error a' of None \<Rightarrow> Inr () | Some e \<Rightarrow> Inl e), a'\<lparr>terminal_error := None\<rparr>))"

definition run_prologue :: "unit session" where
  "run_prologue =
     thenE
       (readE (\<lambda>a. payload_map [(''runtimeGeneration'', json_u64 (runtime_generation (tenant a)))])
          (emit_event EventType.SessionReady SourceRuntime PrivacyInternal))
       (thenE
          (readE (\<lambda>a. map capability_as_str (provider_capabilities a)) (\<lambda>caps.
             emit_server (\<lambda>env. ServerMessage.SessionReady env caps)))
          (modifyE (\<lambda>a. a\<lparr>deadline := start_timeout (config a), active_deadline_started := False\<rparr>)))"

definition run_loop :: "message_encoder \<Rightarrow> loop_event list \<Rightarrow> SessionActor \<Rightarrow> unit result option \<times> SessionActor" where
  "run_loop enc evs a =
     (case run_prologue a of
        (Inl e, a') \<Rightarrow> (Some (Inl e), a')
      | (Inr _, a') \<Rightarrow> loop_run enc evs a')"

text \<open>
  \<open>run\<close> after the loop: record the failure, cancel the children and close the event pipeline.
  The worker then flushes (\<open>flush\<close> lists its steps) and \<open>session_result\<close> is the value of \<open>run\<close>
  once the worker has stopped.
\<close>

definition run_close :: "unit result \<Rightarrow> SessionActor \<Rightarrow> SessionActor" where
  "run_close r a =
     (let a = (case r of Inl e \<Rightarrow> snd (record_unexpected_failure e a) | Inr _ \<Rightarrow> a);
          a = cancel_children a in
      a\<lparr>events := pipeline_close (events a)\<rparr>)"

definition session_result :: "unit result \<Rightarrow> SessionActor \<Rightarrow> unit result poll" where
  "session_result r a =
     (case close_result True (events a) of
        poll.Pending \<Rightarrow> poll.Pending
      | poll.Ready flush \<Rightarrow> poll.Ready (case r of Inl e \<Rightarrow> Inl e | Inr _ \<Rightarrow> flush))"

definition terminal_outcome :: "unit result poll \<Rightarrow> SessionTerminalOutcome" where
  "terminal_outcome r =
     (case r of
        poll.Pending \<Rightarrow> SessionTerminalOutcome.Pending
      | poll.Ready (Inr _) \<Rightarrow> Flushed
      | poll.Ready (Inl _) \<Rightarrow> OutcomeFailed)"

text \<open>\<open>spawn\<close>: the checks, then the initial state; the lanes of the handle are empty.\<close>

definition initial_actor ::
  "SessionConfig \<Rightarrow> TenantContext \<Rightarrow> ProviderCapability btree_set \<Rightarrow> EventPipeline \<Rightarrow> PlayoutAckHistory \<Rightarrow>
   env_action list list \<Rightarrow> SessionActor" where
  "initial_actor cfg ctx caps p po env =
     \<lparr>config = cfg, tenant = ctx, provider_capabilities = caps, events = p, phase = Ready,
      output_tx = chan_new (output_capacity cfg), current_response = None, response_epoch = 0,
      input_epoch = 0, input_cancel = None, input_task = None, audio_buffer = [],
      speech_in_progress = False, conversation = history_new, playout = po, message_sequence = 0,
      recent_message_ids = [], recent_message_set = {}, terminal_failure_code = None,
      terminal_error = None, deadline = 0, active_deadline_started = False, tokens = 0,
      cancelled = [], aborted = [], responses = [], transcriptions = [], wall_clock = [],
      env_pending = env\<rparr>"

text \<open>The lanes of a session fit a channel; \<open>None\<close> is a panic of a constructor.\<close>

definition lanes_ok :: "SessionConfig \<Rightarrow> bool" where
  "lanes_ok c \<longleftrightarrow> control_capacity c \<le> MAX_PERMITS \<and> media_capacity c \<le> MAX_PERMITS \<and> output_capacity c \<le> MAX_PERMITS"

definition session_spawn ::
  "SessionConfig \<Rightarrow> TenantContext \<Rightarrow> ProviderSet \<Rightarrow> EventPipeline \<Rightarrow> env_action list list \<Rightarrow>
   (SessionHandle \<times> SessionActor) result option" where
  "session_spawn cfg ctx ps p env =
     (case andR (config_validate cfg) (andR (context_validate ctx)
             (ensure_capabilities ps (cfg_required_capabilities cfg))) of
        Inl e \<Rightarrow> Some (Inl e)
      | Inr _ \<Rightarrow>
          if \<not> lanes_ok cfg then None
          else (case playout_new (playout_history_capacity cfg) of
             None \<Rightarrow> None
           | Some po \<Rightarrow>
               Some (Inr
                 (\<lparr>hnd_context = ctx, hnd_control = chan_new (control_capacity cfg),
                   hnd_media = chan_new (media_capacity cfg),
                   hnd_max_audio_frame_bytes = max_audio_frame_bytes cfg,
                   hnd_force_cancel = False, hnd_media_overrun = False\<rparr>,
                  initial_actor cfg ctx (capabilities ps) p po env))))"

end
