(* ===== verification/SessionContract.thy ===== *)
theory SessionContract
  imports Session
begin

text \<open>
  What every handler of the session actor keeps. The locale \<open>actor_contract\<close> states what a
  property must tolerate: the concurrent environment, an accepted ordinary event, a message sent
  under a fresh envelope and each of the actor's state updates. Its lemmas lift that to the
  handlers, once for all properties; \<open>failing_contract\<close> adds the failure of the session and
  \<open>ending_contract\<close> its orderly end. \<open>J\<close> holds between handlers, \<open>I\<close> when a handler has failed,
  and \<open>K\<close> in \<open>start_response\<close> between the new epoch and the spawned task.
\<close>

fun output_envelope :: "RealtimeOutput \<Rightarrow> RealtimeEnvelope" where
  "output_envelope (Control m) = server_envelope m"
| "output_envelope (RealtimeOutput.Audio f) = hdr_envelope (frame_header f)"

lemma audio_output_envelope [simp]: "output_envelope (audio_output cfg rid epoch sq bytes env) = env"
  by (simp add: audio_output_def)

definition same_response :: "(CurrentResponse \<Rightarrow> CurrentResponse) \<Rightarrow> bool" where
  "same_response f \<longleftrightarrow> (\<forall>c. cur_id (f c) = cur_id c \<and> cur_epoch (f c) = cur_epoch c \<and> cur_token (f c) = cur_token c)"

fun ends_session :: "loop_event \<Rightarrow> bool" where
  "ends_session DeadlineElapsed = True"
| "ends_session (ControlRecv (Some (Client (SessionEnd _ _)))) = True"
| "ends_session (ControlRecv (Some (Complete _))) = True"
| "ends_session (ControlRecv (Some (Cancel _))) = True"
| "ends_session (MediaRecv (Some (OrderedControl (SessionEnd _ _)))) = True"
| "ends_session _ = False"

locale actor_contract =
  fixes enc :: message_encoder
    and J K I :: "SessionActor \<Rightarrow> bool"
  assumes J_I: "J a \<Longrightarrow> I a" and K_I: "K a \<Longrightarrow> I a"
    and J_env: "J a \<Longrightarrow> J (environment a)" and K_env: "K a \<Longrightarrow> K (environment a)"
    and J_publish: "J a \<Longrightarrow> try_publish (events a) ev = Inr p \<Longrightarrow> \<not> is_terminal_event (event_type ev) \<Longrightarrow>
      J (a\<lparr>events := p\<rparr>)"
    and K_publish: "K a \<Longrightarrow> try_publish (events a) ev = Inr p \<Longrightarrow> \<not> is_terminal_event (event_type ev) \<Longrightarrow>
      K (a\<lparr>events := p\<rparr>)"
    and J_send: "(\<And>env. output_envelope (mk env) = env) \<Longrightarrow> hoare J I (emit_with mk)"
    and J_cancel_input: "J a \<Longrightarrow> J (cancel_input a)"
    and J_take_current: "J a \<Longrightarrow> J (take_current a)"
    and J_begin_input: "J a \<Longrightarrow> J (begin_input a)"
    and J_commit: "J a \<Longrightarrow> J (commit_audio a)"
    and J_activate: "J a \<Longrightarrow> phase a = Ready \<Longrightarrow> J (set_phase Active a)"
    and J_clear: "J a \<Longrightarrow> J (clear_speech a)"
    and J_speech: "J a \<Longrightarrow> J (start_speech a)"
    and J_append: "J a \<Longrightarrow> saturating_add (length (audio_buffer a)) (length audio) \<le> max_buffered_audio_bytes (config a) \<Longrightarrow>
      J (append_audio audio a)"
    and J_drop: "J a \<Longrightarrow> J (drop_current a)"
    and J_update: "J a \<Longrightarrow> same_response f \<Longrightarrow> J (update_current f a)"
    and J_epoch: "J a \<Longrightarrow> K (next_response_epoch a)"
    and K_spawn: "K a \<Longrightarrow> J (spawn_response msgs a)"
    and J_history: "J a \<Longrightarrow> grouped ms \<Longrightarrow>
      push_history_group enc (history_limits_of (config a)) ms (conversation a) = (r, h) \<Longrightarrow> J (a\<lparr>conversation := h\<rparr>)"
    and J_playout: "J a \<Longrightarrow> playout_record (playout a) rid x = Inr (adv, po) \<Longrightarrow> J (a\<lparr>playout := po\<rparr>)"
    and J_remember: "J a \<Longrightarrow> mid \<notin> recent_message_set a \<Longrightarrow> J (remember_message mid a)"
    and J_deadline: "J a \<Longrightarrow> J (a\<lparr>deadline := d, active_deadline_started := st\<rparr>)"
begin

lemma publish_now_ok: "\<not> is_terminal_event (event_type ev) \<Longrightarrow> hoare J I (publish_now ev)"
  by (rule hoareI) (auto simp: publish_now_def wpE_def split: sum.splits intro: J_I J_publish)

lemma emit_event_ok [hoare]: "\<not> is_terminal_event ty \<Longrightarrow> hoare J I (emit_event ty s pr pl)"
  unfolding emit_event_def
proof (rule hoare_thenE)
  show "hoare J I (modifyE environment)" by (rule hoare_modifyE) (rule J_env)
  show "\<not> is_terminal_event ty \<Longrightarrow> hoare J I
      (readE (\<lambda>a. pending_event (wall_clock a) ty (correlation_id (tenant a)) None s pr pl) publish_now)"
    by (rule hoareI) (simp add: wp hoareD [OF publish_now_ok] pending_event_def)
qed

lemma emit_server_ok [hoare]: "(\<And>env. server_envelope (mk env) = env) \<Longrightarrow> hoare J I (emit_server mk)"
  unfolding emit_server_def by (rule J_send) simp

lemma send_error_ok [hoare]: "hoare J I (send_error e)"
  unfolding send_error_def by (rule emit_server_ok) simp

lemma emit_transcript_ok [hoare]: "hoare J I (emit_transcript turn tx fin)"
  unfolding emit_transcript_def by (rule emit_server_ok) simp

lemma require_active_ok [hoare]: "hoare J I require_active"
  unfolding require_active_def by (intro hoare)

lemma interrupt_current_ok [hoare]: "hoare J I (interrupt_current reason)"
  unfolding interrupt_current_def
  by (rule hoare_readE) (auto split: option.split intro!: hoare J_take_current simp: is_terminal_event_def)

lemma throw_ok [hoare]: "hoare J I (throwE e)"
  by (rule hoare_throwE) (rule J_I)

lemma push_group_ok [hoare]: "grouped ms \<Longrightarrow> hoare J I (push_group enc ms)"
  by (rule hoareI) (auto simp: push_group_def wpE_def split: prod.splits sum.splits intro: J_I J_history)

lemma record_playout_ok [hoare]: "hoare J I (record_playout rid ms)"
  by (rule hoareI) (auto simp: record_playout_def wpE_def split: sum.splits intro: J_I J_playout)

lemma is_duplicate_ok [hoare]: "hoare J I (is_duplicate_message mid)"
  by (rule hoareI) (auto simp: is_duplicate_message_def wp intro: J_remember)

text \<open>\<open>start_response\<close> passes through \<open>K\<close>.\<close>

lemma emit_event_K: "\<not> is_terminal_event ty \<Longrightarrow> K a \<Longrightarrow> wpE (emit_event ty s pr pl) (\<lambda>_. K) (\<lambda>_. I) a"
  by (auto simp: emit_event_def publish_now_def wp wpE_def pending_event_def readE_def thenE_def bindE_def
      modifyE_def split: sum.splits intro: K_env K_I K_publish)

lemma start_response_ok [hoare]: "hoare J I (start_response enc input)"
proof -
  have "hoare J I (seqE [push_group enc [User input], modifyE next_response_epoch,
      readE f (emit_event EventType.ReasoningStarted SourceProvider PrivacyInternal),
      modifyE (spawn_response msgs)])" (is "hoare J I (seqE [?push, ?epoch, ?emit, ?spawn])") for f msgs
  proof -
    have "hoare J I (thenE ?epoch (thenE ?emit (thenE ?spawn (returnE ()))))"
    proof (rule hoareI)
      fix a
      assume "J a"
      then have "K (next_response_epoch a)" by (rule J_epoch)
      then show "wpE (thenE ?epoch (thenE ?emit (thenE ?spawn (returnE ())))) (\<lambda>_. J) (\<lambda>_. I) a"
        by (auto simp: wp is_terminal_event_def intro!: wpE_mono [OF emit_event_K] K_spawn)
    qed
    then show ?thesis by (auto intro!: hoare_thenE push_group_ok)
  qed
  then show ?thesis
    unfolding start_response_def by (intro hoare_thenE hoare_readE interrupt_current_ok)
qed

lemma take_pending_tool_ok [hoare]: "hoare J I (take_pending_tool missing mismatch cid name)"
  unfolding take_pending_tool_def
  by (intro hoare J_update) (auto simp: same_response_def split: option.split intro!: hoare)

lemma on_tool_started_ok [hoare]: "hoare J I (on_tool_started cid name input)"
  unfolding on_tool_started_def
  by (rule hoare_readE) (auto split: option.split intro!: hoare J_update simp: is_terminal_event_def same_response_def)

lemma on_tool_completed_ok [hoare]: "hoare J I (on_tool_completed enc cid name out was_cached)"
  unfolding on_tool_completed_def by (intro hoare) (auto simp: is_terminal_event_def)

lemma on_tool_failed_ok [hoare]: "hoare J I (on_tool_failed cid name code)"
  unfolding on_tool_failed_def by (intro hoare) (auto simp: is_terminal_event_def)

lemma on_response_completed_ok [hoare]: "hoare J I (on_response_completed enc rid epoch)"
  unfolding on_response_completed_def
  by (rule hoare_readE) (auto split: option.split intro!: hoare J_drop)

lemma on_session_start_ok [hoare]: "hoare J I on_session_start"
proof (rule hoareI)
  fix a
  assume J: "J a"
  let ?rest = "seqE [readE (\<lambda>a. payload_map [(''runtimeGeneration'', json_u64 (runtime_generation (tenant a)))])
      (emit_event EventType.SessionStarted SourceRuntime PrivacyInternal),
    emit_server (\<lambda>env. ServerMessage.SessionStarted env)]"
  have rest: "hoare J I ?rest" by (intro hoare) (auto intro!: hoare simp: is_terminal_event_def)
  show "wpE on_session_start (\<lambda>_. J) (\<lambda>_. I) a"
  proof (cases "phase a = Ready")
    case True
    with J hoareD [OF rest J_activate, of a] show ?thesis by (simp add: on_session_start_def wp)
  next
    case False
    with J hoareD [OF send_error_ok] show ?thesis by (simp add: on_session_start_def wp)
  qed
qed

lemma on_input_text_ok [hoare]: "hoare J I (on_input_text enc tx)"
  unfolding on_input_text_def
  by (intro hoare) (auto intro!: hoare J_clear J_begin_input simp: is_terminal_event_def)

lemma on_input_commit_ok [hoare]: "hoare J I on_input_commit"
  unfolding on_input_commit_def by (intro hoare J_commit)

lemma on_response_cancel_ok [hoare]: "hoare J I (on_response_cancel rid)"
  unfolding on_response_cancel_def by (intro hoare)

lemma lift_ok [hoare]: "hoare J I (liftE r)"
  by (rule hoareI) (auto simp: wp split: sum.split intro: J_I)

lemma client_message_ok:
  "(\<And>env r. m \<noteq> SessionEnd env r) \<Longrightarrow> hoare J I (client_message enc m)"
  by (cases m) (auto simp: client_message_def intro!: hoare)

lemma handle_client_ok:
  "(\<And>env r. m \<noteq> SessionEnd env r) \<Longrightarrow> hoare J I (handle_client enc m)"
  unfolding handle_client_def by (intro hoare client_message_ok) auto

lemma run_prologue_ok: "hoare J I run_prologue"
  unfolding run_prologue_def
  by (intro hoare J_deadline) (auto simp: is_terminal_event_def intro!: hoare J_deadline)

lemma loop_tail_J: "J a \<Longrightarrow> J (loop_tail a)"
  by (simp add: loop_tail_def J_deadline)

end


text \<open>The session fails: the phase changes, an error goes to the client, the error is kept.\<close>

locale failing_contract = actor_contract +
  assumes J_fail: "hoare J I (fail_session code msg)"
    and J_clear_audio: "J a \<Longrightarrow> J (a\<lparr>audio_buffer := []\<rparr>)"
begin

lemma pipeline_event_ok [hoare]: "hoare J I (pipeline_event enc rid epoch ev)"
  unfolding pipeline_event_def
  by (cases ev) (auto intro!: hoare J_update J_fail J_send simp: is_terminal_event_def same_response_def)

lemma handle_pipeline_ok [hoare]: "hoare J I (handle_pipeline enc rid epoch ev)"
  unfolding handle_pipeline_def by (intro hoare)

lemma handle_stt_update_ok [hoare]: "hoare J I (handle_stt_update enc epoch turn r)"
  unfolding handle_stt_update_def
  by (cases r) (auto intro!: hoare J_fail simp: is_terminal_event_def simp del: seqE.simps split: if_splits)

lemma handle_audio_ok [hoare]: "hoare J I (handle_audio audio)"
proof -
  have last: "hoare J I (readE (\<lambda>a. saturating_add (length (audio_buffer a)) (length audio)
        > max_buffered_audio_bytes (config a))
      (\<lambda>over. if over then fail_session c m else modifyE (append_audio audio)))" for c m
    by (rule hoareI) (auto simp: wp not_less intro: hoareD [OF J_fail] J_append)
  have first: "hoare J I (readE speech_in_progress (\<lambda>speaking. if speaking then returnE ()
      else seqE [modifyE begin_input, modifyE start_speech, interrupt_current ''audio_barge_in'',
        emit_event EventType.SpeechStarted SourceRuntime PrivacyInternal
          (payload_map [(''bufferedBytes'', json_u64 0)])]))"
    by (intro hoare) (auto intro!: hoare J_begin_input J_speech simp: is_terminal_event_def)
  show ?thesis
    unfolding handle_audio_def
    by (intro hoare_bindE hoare_if hoare_thenE require_active_ok hoare_returnE first last)
qed

lemma still_running_ok [hoare]: "hoare J I still_running"
  unfolding still_running_def by (intro hoare)

lemma handle_control_ok:
  "\<not> ends_session (ControlRecv (Some cmd)) \<Longrightarrow> hoare J I (handle_control enc cmd)"
  unfolding handle_control_def
  by (cases cmd) (auto intro!: hoare J_fail handle_client_ok)

lemma fail_then_stop [hoare]: "hoare J I (thenE (fail_session code msg) (returnE b))"
  by (intro hoare J_fail)

lemma loop_body_running_ok: "\<not> ends_session ev \<Longrightarrow> hoare J I (loop_body enc ev)"
proof (cases ev)
  case MediaOverrun
  then show ?thesis
    unfolding loop_body_def
    by (auto intro!: hoare J_fail J_clear_audio simp: is_terminal_event_def)
next
  case (ControlRecv cmd)
  assume "\<not> ends_session ev"
  with ControlRecv show ?thesis
    unfolding loop_body_def by (cases cmd) (auto intro!: hoare handle_control_ok)
next
  case (MediaRecv cmd)
  assume "\<not> ends_session ev"
  with MediaRecv show ?thesis
    unfolding loop_body_def
    by (auto intro!: hoare handle_client_ok split: option.split MediaCommand.split)
qed (auto simp: loop_body_def intro!: hoare)

end

text \<open>A contract that also survives the orderly end of the session holds along every run.\<close>

locale ending_contract = failing_contract +
  assumes J_phase: "J a \<Longrightarrow> J (set_phase ph a)"
    and J_terminal: "hoare J I (emit_terminal_event ty pl)"
    and J_take_error: "J a \<Longrightarrow> J (a\<lparr>terminal_error := None\<rparr>)"
begin

lemma finish_ok [hoare]: "hoare J I (finish_with ph ty reason)"
  unfolding finish_with_def by (intro hoare) (auto intro!: hoare J_terminal J_phase J_cancel_input)

lemma loop_body_ok: "hoare J I (loop_body enc ev)"
proof (cases "ends_session ev")
  case True
  then show ?thesis
    by (cases ev rule: ends_session.cases)
      (auto simp: loop_body_def handle_control_def handle_client_def client_message_def complete_def
        cancel_session_def intro!: hoare J_fail)
qed (rule loop_body_running_ok)

lemma loop_run_ok:
  "J a \<Longrightarrow> loop_run enc evs a = (r, a') \<Longrightarrow> (if r = None then J a' else I a')"
proof (induction evs arbitrary: a)
  case (Cons ev evs)
  obtain rb b where lb: "loop_body enc ev a = (rb, b)" by fastforce
  from hoare_result [OF loop_body_ok Cons.prems(1) lb]
  have "case rb of Inl _ \<Rightarrow> I b | Inr _ \<Rightarrow> J b" .
  with lb Cons.prems(2) Cons.IH [of "loop_tail b"] show ?case
    by (auto split: sum.splits if_splits bool.splits simp: loop_tail_J intro: J_I J_take_error)
qed simp

lemma run_loop_ok:
  assumes "J a" "run_loop enc evs a = (r, a')"
  shows "if r = None then J a' else I a'"
proof -
  obtain rp b where p: "run_prologue a = (rp, b)" by fastforce
  from hoare_result [OF run_prologue_ok assms(1) p]
  have "case rp of Inl _ \<Rightarrow> I b | Inr _ \<Rightarrow> J b" .
  with p assms(2) loop_run_ok [of b evs] show ?thesis
    by (auto simp: run_loop_def split: sum.splits)
qed

end

end
