(* ===== verification/ActorInv.thy ===== *)
theory ActorInv
  imports SessionContract
begin

text \<open>
  Invariants of the session actor, each an interpretation of the contract of theory
  \<open>SessionContract\<close>: the structural bounds of every buffer the actor keeps, the numbering of the
  envelopes it sends and the epochs of the responses it spawns.
\<close>

subsection \<open>The environment\<close>

lemma environment_induct:
  assumes "P a" "\<And>a r. P a \<Longrightarrow> P (a\<lparr>env_pending := r\<rparr>)" "\<And>x a. P a \<Longrightarrow> P (env_act x a)"
  shows "P (environment a)"
proof -
  have "P b \<Longrightarrow> P (fold env_act xs b)" for xs b
    by (induction xs arbitrary: b) (auto intro: assms(3))
  with assms(1,2) show ?thesis by (auto simp: environment_def split: list.split)
qed

text \<open>The environment moves the two shared queues and the clock, and nothing else.\<close>

definition frame :: "SessionActor \<Rightarrow> SessionActor \<Rightarrow> bool" where
  "frame a b \<longleftrightarrow> (\<exists>p c w r. b = a\<lparr>events := p, output_tx := c, wall_clock := w, env_pending := r\<rparr>)"

lemma frameI [intro]: "frame a (a\<lparr>events := p, output_tx := c, wall_clock := w, env_pending := r\<rparr>)"
  by (auto simp: frame_def)

lemma frame_updates:
  "frame a b \<Longrightarrow> frame a (b\<lparr>events := p\<rparr>)" "frame a b \<Longrightarrow> frame a (b\<lparr>output_tx := c\<rparr>)"
  "frame a b \<Longrightarrow> frame a (b\<lparr>wall_clock := w\<rparr>)" "frame a b \<Longrightarrow> frame a (b\<lparr>env_pending := r\<rparr>)"
  by (cases a; auto simp: frame_def)+

lemma environment_frame: "frame a (environment a)"
proof (rule environment_induct [where P = "frame a"])
  show "frame a a"
    unfolding frame_def
    by (intro exI [of _ "events a"] exI [of _ "output_tx a"] exI [of _ "wall_clock a"] exI [of _ "env_pending a"]) simp
  show "frame a b \<Longrightarrow> frame a (env_act x b)" for x b
    by (cases x) (auto simp: step_events_def intro: frame_updates split: option.split)
qed (rule frame_updates)

lemma environment_fields [simp]:
  "config (environment a) = config a" "tenant (environment a) = tenant a" "phase (environment a) = phase a"
  "current_response (environment a) = current_response a" "response_epoch (environment a) = response_epoch a"
  "input_epoch (environment a) = input_epoch a" "input_cancel (environment a) = input_cancel a"
  "input_task (environment a) = input_task a" "audio_buffer (environment a) = audio_buffer a"
  "speech_in_progress (environment a) = speech_in_progress a" "conversation (environment a) = conversation a"
  "playout (environment a) = playout a" "message_sequence (environment a) = message_sequence a"
  "recent_message_ids (environment a) = recent_message_ids a"
  "recent_message_set (environment a) = recent_message_set a"
  "terminal_failure_code (environment a) = terminal_failure_code a"
  "terminal_error (environment a) = terminal_error a" "tokens (environment a) = tokens a"
  "cancelled (environment a) = cancelled a" "aborted (environment a) = aborted a"
  "responses (environment a) = responses a" "transcriptions (environment a) = transcriptions a"
  using environment_frame [of a] by (auto simp: frame_def)

text \<open>The spool keeps its invariant, its log, its sender and its sequence under the environment.\<close>

definition spool_frame :: "EventPipeline \<Rightarrow> EventPipeline \<Rightarrow> bool" where
  "spool_frame p q \<longleftrightarrow>
     chan_sent (ep_chan q) = chan_sent (ep_chan p) \<and> ep_sender q = ep_sender p \<and>
     next_producer_sequence q = next_producer_sequence p \<and> (\<forall>n. pipeline_inv n p \<longrightarrow> pipeline_inv n q)"

lemma spool_frame_refl [simp]: "spool_frame p p"
  by (simp add: spool_frame_def)

lemma spool_frame_trans: "spool_frame p q \<Longrightarrow> spool_frame q r \<Longrightarrow> spool_frame p r"
  by (simp add: spool_frame_def)

lemma take_queued_frame:
  "take_queued p = Some (ev, q) \<Longrightarrow> chan_sent (ep_chan q) = chan_sent (ep_chan p) \<and> ep_sender q = ep_sender p
     \<and> next_producer_sequence q = next_producer_sequence p"
  by (auto simp: take_queued_def chan_recv_def split: option.splits list.splits)

lemma worker_frame: "worker_step p q \<Longrightarrow> spool_frame p q"
proof -
  assume s: "worker_step p q"
  then have "chan_sent (ep_chan q) = chan_sent (ep_chan p) \<and> ep_sender q = ep_sender p
     \<and> next_producer_sequence q = next_producer_sequence p"
    by (cases rule: worker_step.cases)
      (auto simp: worker_recv_def worker_collect_def worker_publish_def stop_worker_def Let_def
        split: option.splits if_splits worker_state.splits sum.splits dest: take_queued_frame)
  with worker_step_inv [OF s] show ?thesis by (simp add: spool_frame_def)
qed

lemma step_events_frame:
  "(\<And>p q. f p = Some q \<Longrightarrow> worker_step p q) \<Longrightarrow> spool_frame (events a) (events (step_events f a))"
  by (auto simp: step_events_def worker_frame split: option.split)

lemma environment_events: "spool_frame (events a) (events (environment a))"
proof (rule environment_induct [where P = "\<lambda>b. spool_frame (events a) (events b)"])
  fix x and b :: SessionActor
  assume "spool_frame (events a) (events b)"
  moreover have "spool_frame (events b) (events (env_act x b))"
    by (cases x) (auto intro!: step_events_frame intro: worker_step.intros split: option.split)
  ultimately show "spool_frame (events a) (events (env_act x b))" by (rule spool_frame_trans)
qed simp_all

lemma environment_sent [simp]:
  "chan_sent (ep_chan (events (environment a))) = chan_sent (ep_chan (events a))"
  "ep_sender (events (environment a)) = ep_sender (events a)"
  "next_producer_sequence (events (environment a)) = next_producer_sequence (events a)"
  using environment_events [of a] by (simp_all add: spool_frame_def)

lemma environment_spool: "pipeline_inv n (events a) \<Longrightarrow> pipeline_inv n (events (environment a))"
  using environment_events [of a] by (simp add: spool_frame_def)

lemma env_act_output:
  "chan_sent (output_tx (env_act x a)) = chan_sent (output_tx a)"
  "chan_cap (output_tx (env_act x a)) = chan_cap (output_tx a)"
  "chan_wf (output_tx a) \<Longrightarrow> chan_wf (output_tx (env_act x a))"
  by (cases x; auto simp: step_events_def chan_recv_def chan_wf_def chan_pending_def
      split: option.splits list.splits dest: arg_cong [of _ _ length])+

lemma environment_output [simp]:
  "chan_sent (output_tx (environment a)) = chan_sent (output_tx a)"
  "chan_cap (output_tx (environment a)) = chan_cap (output_tx a)"
  by (rule environment_induct [where P = "\<lambda>b. chan_sent (output_tx b) = chan_sent (output_tx a)"];
      simp add: env_act_output)
    (rule environment_induct [where P = "\<lambda>b. chan_cap (output_tx b) = chan_cap (output_tx a)"];
      simp add: env_act_output)

lemma environment_output_wf: "chan_wf (output_tx a) \<Longrightarrow> chan_wf (output_tx (environment a))"
  by (rule environment_induct [where P = "\<lambda>b. chan_wf (output_tx b)"]) (simp_all add: env_act_output)

text \<open>A predicate that the sequence counter, the environment and the output queue do not touch.\<close>

lemma emit_with_hoare:
  assumes "\<And>a k. J a \<Longrightarrow> J (a\<lparr>message_sequence := k\<rparr>)" "\<And>a. J a \<Longrightarrow> J (environment a)"
    "\<And>a c. J a \<Longrightarrow> J (a\<lparr>output_tx := c\<rparr>)" "\<And>a. J a \<Longrightarrow> I a"
  shows "hoare J I (emit_with mk)"
  unfolding emit_with_def
proof (rule hoare_bindE)
  show "hoare J I next_server_envelope"
    by (rule hoareI) (auto simp: next_server_envelope_def wpE_def Let_def assms(1))
  show "hoare J I (emit_output out)" for out
    by (rule hoareI)
      (auto simp: emit_output_def wpE_def thenE_def bindE_def modifyE_def assms split: sum.split try_send_error.split)
qed

subsection \<open>The bounds of the actor's buffers\<close>

definition config_wf :: "SessionConfig \<Rightarrow> bool" where
  "config_wf c \<longleftrightarrow> limits_wf (history_limits_of c) \<and> max_buffered_audio_bytes c < u64_max"

definition dedup_inv :: "SessionActor \<Rightarrow> bool" where
  "dedup_inv a \<longleftrightarrow>
     length (recent_message_ids a) \<le> 1024 \<and> distinct (recent_message_ids a) \<and>
     set (recent_message_ids a) = recent_message_set a"

definition actor_inv :: "message_encoder \<Rightarrow> SessionConfig \<Rightarrow> usize \<Rightarrow> SessionActor \<Rightarrow> bool" where
  "actor_inv enc cfg n a \<longleftrightarrow>
     config a = cfg \<and> config_wf cfg \<and> history_inv enc (history_limits_of cfg) (conversation a) \<and>
     playout_wf (playout a) \<and> ack_capacity (playout a) = playout_history_capacity cfg \<and>
     length (audio_buffer a) \<le> max_buffered_audio_bytes cfg \<and> dedup_inv a \<and>
     pipeline_inv n (events a) \<and> chan_wf (output_tx a) \<and> chan_cap (output_tx a) = output_capacity cfg"

lemma actor_inv_cong:
  "actor_inv enc cfg n a \<Longrightarrow> config b = config a \<Longrightarrow> conversation b = conversation a \<Longrightarrow> playout b = playout a \<Longrightarrow>
   length (audio_buffer b) \<le> length (audio_buffer a) \<Longrightarrow> recent_message_ids b = recent_message_ids a \<Longrightarrow>
   recent_message_set b = recent_message_set a \<Longrightarrow> pipeline_inv n (events b) \<Longrightarrow> chan_wf (output_tx b) \<Longrightarrow>
   chan_cap (output_tx b) = chan_cap (output_tx a) \<Longrightarrow> actor_inv enc cfg n b"
  by (simp add: actor_inv_def dedup_inv_def)

lemma actor_inv_parts:
  "actor_inv enc cfg n a \<Longrightarrow> pipeline_inv n (events a)" "actor_inv enc cfg n a \<Longrightarrow> chan_wf (output_tx a)"
  by (simp_all add: actor_inv_def)

lemmas actor_update_defs = cancel_input_def abort_input_def take_current_def cancel_children_def begin_input_def
  commit_audio_def set_phase_def clear_speech_def start_speech_def append_audio_def drop_current_def
  update_current_def next_response_epoch_def spawn_response_def note_failure_def set_terminal_error_def

text \<open>An update of one of the actor's own fields that the invariant does not read.\<close>

lemma actor_inv_updates:
  assumes "actor_inv enc cfg n a"
  shows "actor_inv enc cfg n (cancel_input a)" "actor_inv enc cfg n (take_current a)" "actor_inv enc cfg n (begin_input a)"
    "actor_inv enc cfg n (commit_audio a)" "actor_inv enc cfg n (set_phase ph a)" "actor_inv enc cfg n (clear_speech a)"
    "actor_inv enc cfg n (start_speech a)" "actor_inv enc cfg n (drop_current a)" "actor_inv enc cfg n (update_current f a)"
    "actor_inv enc cfg n (next_response_epoch a)" "actor_inv enc cfg n (spawn_response msgs a)"
    "actor_inv enc cfg n (cancel_children a)" "actor_inv enc cfg n (note_failure code a)"
    "actor_inv enc cfg n (set_terminal_error e a)" "actor_inv enc cfg n (a\<lparr>audio_buffer := []\<rparr>)"
    "actor_inv enc cfg n (a\<lparr>terminal_error := te\<rparr>)" "actor_inv enc cfg n (a\<lparr>message_sequence := k\<rparr>)"
    "actor_inv enc cfg n (a\<lparr>deadline := d, active_deadline_started := st\<rparr>)"
  using actor_inv_parts [OF assms]
  by (auto intro!: actor_inv_cong [OF assms] simp: actor_update_defs Let_def split: option.split)

lemma actor_inv_env: "actor_inv enc cfg n a \<Longrightarrow> actor_inv enc cfg n (environment a)"
  by (frule actor_inv_cong) (auto simp: actor_inv_parts environment_spool environment_output_wf)

lemma actor_inv_publish: "actor_inv enc cfg n a \<Longrightarrow> try_publish (events a) ev = Inr p \<Longrightarrow> actor_inv enc cfg n (a\<lparr>events := p\<rparr>)"
  by (frule actor_inv_cong) (auto simp: actor_inv_parts intro: pipeline_step_inv pipeline_step.publish)

lemma actor_inv_terminal:
  "actor_inv enc cfg n a \<Longrightarrow> publish_terminal (events a) ev b = poll.Ready (Inr p) \<Longrightarrow> actor_inv enc cfg n (a\<lparr>events := p\<rparr>)"
  by (frule actor_inv_cong) (auto simp: actor_inv_parts intro: pipeline_step_inv pipeline_step.terminal)

lemma expire_ids_spec:
  "expire_ids xs st = (ys, st') \<Longrightarrow> distinct xs \<Longrightarrow> set xs = st \<Longrightarrow>
   ys = drop (Suc (length xs) - 1024) xs \<and> set ys = st' \<and> length ys < 1024"
proof (induction xs st rule: expire_ids.induct)
  case (2 x xs st)
  show ?case
  proof (cases "length (x # xs) \<ge> 1024")
    case True
    with 2 have "ys = drop (Suc (length xs) - 1024) xs \<and> set ys = st' \<and> length ys < 1024" by auto
    moreover from True have "Suc (length (x # xs)) - 1024 = Suc (Suc (length xs) - 1024)" by simp
    ultimately show ?thesis by (metis drop_Suc_Cons)
  qed (use 2 in auto)
qed auto

lemma dedup_remember: "dedup_inv a \<Longrightarrow> mid \<notin> recent_message_set a \<Longrightarrow> dedup_inv (remember_message mid a)"
  by (auto simp: dedup_inv_def remember_message_def split: prod.split dest!: expire_ids_spec dest: in_set_dropD)

lemma emit_output_actor: "hoare (actor_inv enc cfg n) (actor_inv enc cfg n) (emit_output out)"
proof (rule hoareI)
  fix a assume "actor_inv enc cfg n a"
  then have e: "actor_inv enc cfg n (environment a)" by (rule actor_inv_env)
  have "chan_try_send (output_tx (environment a)) out = Inr c \<Longrightarrow>
      chan_wf c \<and> chan_cap c = chan_cap (output_tx (environment a))" for c
    using actor_inv_parts(2) [OF e] by (rule lane.send_cases [of _ out]) auto
  with e show "wpE (emit_output out) (\<lambda>_. actor_inv enc cfg n) (\<lambda>_. actor_inv enc cfg n) a"
    by (auto simp: emit_output_def wp wpE_def thenE_def bindE_def modifyE_def actor_inv_parts
        split: sum.split try_send_error.split intro: actor_inv_cong [OF e])
qed

lemma emit_with_actor: "hoare (actor_inv enc cfg n) (actor_inv enc cfg n) (emit_with mk)"
  unfolding emit_with_def
proof (rule hoare_bindE)
  show "hoare (actor_inv enc cfg n) (actor_inv enc cfg n) next_server_envelope"
    by (rule hoareI) (auto simp: next_server_envelope_def wpE_def Let_def actor_inv_updates)
qed (rule emit_output_actor)

lemma emit_terminal_actor: "hoare (actor_inv enc cfg n) (actor_inv enc cfg n) (emit_terminal_event ty pl)"
  by (rule hoareI)
    (auto simp: emit_terminal_event_def wpE_def Let_def actor_inv_env actor_inv_terminal
      split: poll.split sum.split)

lemma fail_session_actor: "hoare (actor_inv enc cfg n) (actor_inv enc cfg n) (fail_session code msg)"
  unfolding fail_session_def send_error_def emit_server_def
  by (intro hoare) (auto intro!: hoare emit_with_actor actor_inv_updates)

lemma actor_inv_append:
  assumes "actor_inv enc cfg n a" "saturating_add (length (audio_buffer a)) (length audio) \<le> max_buffered_audio_bytes (config a)"
  shows "actor_inv enc cfg n (append_audio audio a)"
  using assms saturating_add_bound [of "max_buffered_audio_bytes (config a)"]
  by (auto simp: actor_inv_def append_audio_def config_wf_def dedup_inv_def)

interpretation bounded_actor: ending_contract enc "actor_inv enc cfg n" "actor_inv enc cfg n" "actor_inv enc cfg n"
proof
  show "actor_inv enc cfg n a \<Longrightarrow> grouped ms \<Longrightarrow>
      push_history_group enc (history_limits_of (config a)) ms (conversation a) = (r, h) \<Longrightarrow>
      actor_inv enc cfg n (a\<lparr>conversation := h\<rparr>)" for a ms r h
    using push_group_inv [of enc "history_limits_of (config a)" "conversation a" ms r h]
    by (simp add: actor_inv_def config_wf_def dedup_inv_def)
  show "actor_inv enc cfg n a \<Longrightarrow> playout_record (playout a) rid x = Inr (adv, po) \<Longrightarrow> actor_inv enc cfg n (a\<lparr>playout := po\<rparr>)"
    for a rid x adv po
    using playout_record_wf [of "playout a" rid x adv po] by (simp add: actor_inv_def dedup_inv_def)
  show "actor_inv enc cfg n a \<Longrightarrow> mid \<notin> recent_message_set a \<Longrightarrow> actor_inv enc cfg n (remember_message mid a)" for a mid
    using dedup_remember [of a mid] by (auto simp: actor_inv_def remember_message_def split: prod.splits)
qed (auto intro: actor_inv_env actor_inv_publish emit_with_actor actor_inv_updates actor_inv_append fail_session_actor
    emit_terminal_actor)

lemma initial_actor_inv:
  assumes "session_spawn cfg ctx ps p env = Some (Inr (h, a))" "config_wf cfg" "pipeline_inv n p"
  shows "actor_inv enc cfg n a"
proof -
  from assms(1) obtain po where "playout_new (playout_history_capacity cfg) = Some po"
    "a = initial_actor cfg ctx (capabilities ps) p po env"
    by (auto simp: session_spawn_def split: sum.splits option.splits if_splits)
  then show ?thesis using assms(2,3)
    by (auto simp: initial_actor_def actor_inv_def dedup_inv_def history_inv_new playout_new_def
        playout_wf_def hash_wf_def chan_new_def chan_wf_def split: if_splits)
qed

subsection \<open>The envelopes of the messages sent\<close>

definition nth_envelope :: "TenantContext \<Rightarrow> nat \<Rightarrow> RealtimeEnvelope" where
  "nth_envelope t k = envelope_server (session_id t) (runtime_generation t) (''server-'' @ string_of_nat k)"

definition envelopes_inv :: "TenantContext \<Rightarrow> SessionActor \<Rightarrow> bool" where
  "envelopes_inv t a \<longleftrightarrow>
     tenant a = t \<and> message_sequence a \<le> u64_max \<and>
     (\<exists>ks. map output_envelope (chan_sent (output_tx a)) = map (nth_envelope t) ks \<and>
        (\<forall>k \<in> set ks. k \<le> message_sequence a) \<and> (message_sequence a < u64_max \<longrightarrow> sorted_wrt (<) ks))"

lemma envelopes_cong:
  "envelopes_inv t a \<Longrightarrow> tenant b = tenant a \<Longrightarrow> message_sequence b = message_sequence a \<Longrightarrow>
   chan_sent (output_tx b) = chan_sent (output_tx a) \<Longrightarrow> envelopes_inv t b"
  by (simp add: envelopes_inv_def)

lemma envelopes_emit_with:
  assumes mk: "\<And>env. output_envelope (mk env) = env"
  shows "hoare (envelopes_inv t) (envelopes_inv t) (emit_with mk)"
proof (rule hoareI)
  fix a
  assume inv: "envelopes_inv t a"
  then obtain ks where ks: "map output_envelope (chan_sent (output_tx a)) = map (nth_envelope t) ks"
    "\<forall>k \<in> set ks. k \<le> message_sequence a" "message_sequence a < u64_max \<longrightarrow> sorted_wrt (<) ks"
    and t: "tenant a = t" "message_sequence a \<le> u64_max" by (auto simp: envelopes_inv_def)
  define k where "k = saturating_add (message_sequence a) 1"
  let ?b = "environment (a\<lparr>message_sequence := k\<rparr>)"
  have k: "message_sequence a \<le> k" "k \<le> u64_max" "k < u64_max \<Longrightarrow> message_sequence a < k"
    using t(2) by (auto simp: k_def saturating_add_def split: if_splits)
  have small: "sorted_wrt (<) (ks @ [k])" if "k < u64_max"
    using ks(2,3) k(3) that by (auto simp: sorted_wrt_append)
  have le: "\<forall>j \<in> set (ks @ [k]). j \<le> k" using ks(2) k(1) by auto
  have b: "envelopes_inv t ?b"
    using t ks(1) k(2) le small by (auto simp: envelopes_inv_def sorted_wrt_append intro!: exI [of _ ks])
  have sent: "envelopes_inv t (?b\<lparr>output_tx := c\<rparr>)"
    if "chan_try_send (output_tx ?b) (mk (nth_envelope t k)) = Inr c" for c
    using that t ks(1) k(2) le small mk
    by (auto simp: envelopes_inv_def chan_try_send_def split: if_splits intro!: exI [of _ "ks @ [k]"])
  have env: "next_server_envelope a = (Inr (nth_envelope t k), a\<lparr>message_sequence := k\<rparr>)"
    by (simp only: next_server_envelope_def Let_def k_def t nth_envelope_def)
  show "wpE (emit_with mk) (\<lambda>_. envelopes_inv t) (\<lambda>_. envelopes_inv t) a"
    using b sent
    by (auto simp: emit_with_def env emit_output_def wpE_def bindE_def thenE_def modifyE_def
        split: sum.split try_send_error.split)
qed

lemma envelopes_own_updates:
  assumes "envelopes_inv t a"
  shows "envelopes_inv t (environment a)" "envelopes_inv t (cancel_input a)" "envelopes_inv t (take_current a)"
    "envelopes_inv t (begin_input a)" "envelopes_inv t (commit_audio a)" "envelopes_inv t (set_phase ph a)"
    "envelopes_inv t (clear_speech a)" "envelopes_inv t (start_speech a)" "envelopes_inv t (append_audio au a)"
    "envelopes_inv t (drop_current a)" "envelopes_inv t (update_current f a)" "envelopes_inv t (next_response_epoch a)"
    "envelopes_inv t (spawn_response msgs a)" "envelopes_inv t (cancel_children a)" "envelopes_inv t (note_failure code a)"
    "envelopes_inv t (set_terminal_error e a)" "envelopes_inv t (remember_message mid a)"
    "envelopes_inv t (a\<lparr>audio_buffer := []\<rparr>)" "envelopes_inv t (a\<lparr>terminal_error := te\<rparr>)" "envelopes_inv t (a\<lparr>events := p\<rparr>)"
    "envelopes_inv t (a\<lparr>conversation := h\<rparr>)" "envelopes_inv t (a\<lparr>playout := po\<rparr>)"
    "envelopes_inv t (a\<lparr>deadline := d, active_deadline_started := st\<rparr>)"
  by (auto intro!: envelopes_cong [OF assms] simp: actor_update_defs remember_message_def Let_def split: option.split prod.split)

lemma envelopes_fail: "hoare (envelopes_inv t) (envelopes_inv t) (fail_session code msg)"
  unfolding fail_session_def send_error_def emit_server_def
  by (intro hoare) (auto intro!: hoare envelopes_emit_with envelopes_own_updates)

lemma envelopes_terminal: "hoare (envelopes_inv t) (envelopes_inv t) (emit_terminal_event ty pl)"
  by (rule hoareI)
    (auto simp: emit_terminal_event_def wpE_def Let_def envelopes_own_updates split: poll.split sum.split)

interpretation numbered_actor: ending_contract enc "envelopes_inv t" "envelopes_inv t" "envelopes_inv t"
  by unfold_locales
    (auto intro: envelopes_own_updates envelopes_emit_with envelopes_fail envelopes_terminal)

subsection \<open>The epochs of the tasks spawned\<close>

definition same_task :: "CurrentResponse \<Rightarrow> spawned_response \<Rightarrow> bool" where
  "same_task c s \<longleftrightarrow> sp_id s = cur_id c \<and> sp_epoch s = cur_epoch c \<and> sp_token s = cur_token c"

definition responses_below :: "(nat \<Rightarrow> nat \<Rightarrow> bool) \<Rightarrow> SessionActor \<Rightarrow> bool" where
  "responses_below R a \<longleftrightarrow>
     (response_epoch a < u64_max \<longrightarrow>
        sorted_wrt (<) (map sp_epoch (responses a)) \<and> (\<forall>s \<in> set (responses a). R (sp_epoch s) (response_epoch a)))"

definition tasks_inv :: "(nat \<Rightarrow> nat \<Rightarrow> bool) \<Rightarrow> SessionActor \<Rightarrow> bool" where
  "tasks_inv R a \<longleftrightarrow>
     response_epoch a \<le> u64_max \<and> input_epoch a \<le> u64_max \<and> responses_below R a \<and>
     (\<forall>c. current_response a = Some c \<longrightarrow> responses a \<noteq> [] \<and> same_task c (last (responses a))) \<and>
     (\<forall>s \<in> set (transcriptions a). st_epoch s \<le> input_epoch a)"

lemma tasks_cong:
  "tasks_inv R a \<Longrightarrow> response_epoch b = response_epoch a \<Longrightarrow> input_epoch b = input_epoch a \<Longrightarrow>
   responses b = responses a \<Longrightarrow> transcriptions b = transcriptions a \<Longrightarrow>
   current_response b = current_response a \<or> current_response b = None \<Longrightarrow> tasks_inv R b"
  by (auto simp: tasks_inv_def responses_below_def)

lemma tasks_own_updates:
  assumes "tasks_inv R a"
  shows "tasks_inv R (environment a)" "tasks_inv R (cancel_input a)" "tasks_inv R (take_current a)"
    "tasks_inv R (set_phase ph a)" "tasks_inv R (clear_speech a)" "tasks_inv R (start_speech a)"
    "tasks_inv R (append_audio au a)" "tasks_inv R (drop_current a)" "tasks_inv R (cancel_children a)"
    "tasks_inv R (note_failure code a)" "tasks_inv R (set_terminal_error e a)" "tasks_inv R (remember_message mid a)"
    "tasks_inv R (a\<lparr>audio_buffer := []\<rparr>)" "tasks_inv R (a\<lparr>terminal_error := te\<rparr>)" "tasks_inv R (a\<lparr>events := p\<rparr>)"
    "tasks_inv R (a\<lparr>conversation := h\<rparr>)" "tasks_inv R (a\<lparr>playout := po\<rparr>)" "tasks_inv R (a\<lparr>output_tx := c\<rparr>)"
    "tasks_inv R (a\<lparr>message_sequence := k\<rparr>)"
    "tasks_inv R (a\<lparr>deadline := d, active_deadline_started := st\<rparr>)"
  by (auto intro!: tasks_cong [OF assms] simp: actor_update_defs remember_message_def Let_def split: option.split prod.split)

lemma tasks_update: "tasks_inv R a \<Longrightarrow> same_response f \<Longrightarrow> tasks_inv R (update_current f a)"
  by (auto simp: tasks_inv_def responses_below_def update_current_def same_response_def same_task_def)

lemma tasks_begin: "tasks_inv R a \<Longrightarrow> tasks_inv R (begin_input a)"
  using saturating_add_mono [of "input_epoch a" 1] saturating_add_le [of "input_epoch a" 1]
  by (auto simp: tasks_inv_def responses_below_def begin_input_def cancel_input_def abort_input_def Let_def
      split: option.split dest: order_trans)

lemma tasks_commit: "tasks_inv R a \<Longrightarrow> tasks_inv R (commit_audio a)"
  by (auto simp: tasks_inv_def responses_below_def commit_audio_def Let_def split: option.split)

lemma tasks_epoch: "tasks_inv (\<le>) a \<Longrightarrow> tasks_inv (<) (next_response_epoch a)"
  by (fastforce simp: tasks_inv_def responses_below_def next_response_epoch_def saturating_add_def)

lemma tasks_spawn: "tasks_inv (<) a \<Longrightarrow> tasks_inv (\<le>) (spawn_response msgs a)"
  by (auto simp: tasks_inv_def responses_below_def spawn_response_def Let_def same_task_def sorted_wrt_append less_imp_le)

lemma tasks_weaken: "tasks_inv (<) a \<Longrightarrow> tasks_inv (\<le>) a"
  by (auto simp: tasks_inv_def responses_below_def less_imp_le)

lemma tasks_emit_with: "hoare (tasks_inv R) (tasks_inv R) (emit_with mk)"
  by (rule emit_with_hoare) (auto intro: tasks_own_updates)

lemma tasks_fail: "hoare (tasks_inv R) (tasks_inv R) (fail_session code msg)"
  unfolding fail_session_def send_error_def emit_server_def
  by (intro hoare) (auto intro!: hoare tasks_emit_with tasks_own_updates)

lemma tasks_terminal: "hoare (tasks_inv R) (tasks_inv R) (emit_terminal_event ty pl)"
  by (rule hoareI) (auto simp: emit_terminal_event_def wpE_def Let_def tasks_own_updates split: poll.split sum.split)

interpretation fenced_actor: ending_contract enc "tasks_inv (\<le>)" "tasks_inv (<)" "tasks_inv (\<le>)"
  by unfold_locales
    (auto intro: tasks_own_updates tasks_update tasks_begin tasks_commit tasks_epoch tasks_spawn tasks_weaken
      tasks_emit_with tasks_fail tasks_terminal)

subsection \<open>Sessions that have been spawned\<close>

inductive spawned :: "SessionConfig \<Rightarrow> TenantContext \<Rightarrow> usize \<Rightarrow> SessionActor \<Rightarrow> bool" where
  spawned: "spawn_with_retry n batch retry = Some p \<Longrightarrow> session_spawn cfg ctx ps p env = Some (Inr (h, a)) \<Longrightarrow>
    spawned cfg ctx n a"

lemma spawned_initial:
  assumes "spawned cfg ctx n a"
  obtains p po env caps where "a = initial_actor cfg ctx caps p po env" "pipeline_inv n p" "ep_sender p"
    "chan_sent (ep_chan p) = []" "playout_new (playout_history_capacity cfg) = Some po"
  using assms
proof cases
  case (spawned batch retry p ps env h)
  from spawned(2) obtain po where "playout_new (playout_history_capacity cfg) = Some po"
    "a = initial_actor cfg ctx (capabilities ps) p po env"
    by (auto simp: session_spawn_def split: sum.splits option.splits if_splits)
  moreover have "pipeline_inv n p" using spawned(1) by (rule spawn_inv)
  moreover have "ep_sender p" "chan_sent (ep_chan p) = []"
    using spawned(1) by (auto simp: spawn_with_retry_def chan_new_def split: option.splits if_splits)
  ultimately show ?thesis using that by blast
qed

lemma spawned_actor_inv: "spawned cfg ctx n a \<Longrightarrow> config_wf cfg \<Longrightarrow> actor_inv enc cfg n a"
  by (erule spawned_initial)
    (auto simp: initial_actor_def actor_inv_def dedup_inv_def history_inv_new playout_new_def
      playout_wf_def hash_wf_def chan_new_def chan_wf_def split: if_splits)

lemma spawned_envelopes: "spawned cfg ctx n a \<Longrightarrow> envelopes_inv ctx a"
  by (erule spawned_initial) (simp add: initial_actor_def envelopes_inv_def chan_new_def)

lemma spawned_tasks: "spawned cfg ctx n a \<Longrightarrow> tasks_inv (\<le>) a"
  by (erule spawned_initial) (simp add: initial_actor_def tasks_inv_def responses_below_def)

text \<open>A concrete session: its context, a provider set without capabilities and its initial state.\<close>

abbreviation demo_context :: TenantContext where
  "demo_context \<equiv> \<lparr>organization_id = ''org_01JABCDEF'', project_id = ''prj_01JABCDEF'',
     deployment_id = ''dep_01JABCDEF'', session_id = ''ses_01JABCDEF'', runtime_generation = 1,
     correlation_id = ''correlation''\<rparr>"

abbreviation demo_providers :: ProviderSet where
  "demo_providers \<equiv> \<lparr>ps_speech_to_text = \<lparr>stt_capabilities = [], stt_transcribe = \<lambda>_ _. []\<rparr>,
     ps_reasoner = \<lparr>reasoner_capabilities = [], reasoner_reason = \<lambda>_ _. []\<rparr>,
     ps_text_to_speech = \<lparr>tts_capabilities = [], tts_synthesize = \<lambda>_ _. []\<rparr>,
     ps_tools = demo_coordinator, ps_realtime_speech = None, tool_execution_enabled = False\<rparr>"

abbreviation demo_spool :: EventPipeline where
  "demo_spool \<equiv> \<lparr>ep_sender = True, ep_handle = True, ep_chan = chan_new 9, ordinary_slots = 8,
     next_producer_sequence = 1, ep_worker = Receiving, ep_batch_size = 4, ep_retry = default_retry, ep_published = []\<rparr>"

definition demo_actor :: SessionActor where
  "demo_actor = initial_actor default_config demo_context [] demo_spool
     \<lparr>ack_capacity = 64, ack_order = [], played_through = []\<rparr> []"

lemma demo_spawned: "spawned default_config demo_context 8 demo_actor"
proof (rule spawned.intros [where ps = demo_providers and p = demo_spool and env = "[]"])
  show "spawn_with_retry 8 4 default_retry = Some demo_spool"
    by (simp add: spawn_with_retry_def checked_add_def MAX_PERMITS_def u64_max_def default_retry_def from_millis_def from_secs_def)
  have "config_validate default_config = Inr ()"
    by (simp add: config_validate_def default_config_def from_secs_def)
  moreover have "context_validate demo_context = Inr ()" by (simp add: context_validate_ok ident_eval)
  moreover have "capabilities demo_providers = []" by (simp add: capabilities_def btree_set_extend_def)
  ultimately show "session_spawn default_config demo_context demo_providers demo_spool [] = Some (Inr
      (\<lparr>hnd_context = demo_context, hnd_control = chan_new 64, hnd_media = chan_new 128,
        hnd_max_audio_frame_bytes = 64 * 1024, hnd_force_cancel = False, hnd_media_overrun = False\<rparr>, demo_actor))"
    by (simp add: session_spawn_def andR_def ensure_capabilities_def demo_actor_def playout_new_def default_config_def lanes_ok_def
        MAX_PERMITS_def u64_max_def)
qed

lemma demo_config_wf: "config_wf default_config"
  by (simp add: config_wf_def limits_wf_def history_limits_of_def default_config_def u64_max_def)

end
