(* ===== verification/Terminal.thy ===== *)
theory Terminal
  imports ActorInv
begin

text \<open>
  How a session ends. The terminal event is published last, once, through the slot of the spool
  that is reserved for it, and its type tells the result of the run. The proof follows the phases:
  \<open>calm S\<close> holds while no terminal event has been published and the phase is in \<open>S\<close>.
\<close>

subsection \<open>The reserved slot\<close>

definition quiet :: "usize \<Rightarrow> EventPipeline \<Rightarrow> bool" where
  "quiet n p \<longleftrightarrow>
     pipeline_inv n p \<and> ep_sender p \<and>
     (\<forall>q \<in> set (chan_sent (ep_chan p)). ordinary_slot q \<and> \<not> is_terminal_event (event_type (queued_event q)))"

definition closing :: "usize \<Rightarrow> EventType \<Rightarrow> EventPipeline \<Rightarrow> bool" where
  "closing n ty p \<longleftrightarrow>
     pipeline_inv n p \<and> (\<exists>evs ev. accepted p = evs @ [ev] \<and> event_type ev = ty \<and>
       (\<forall>e \<in> set evs. \<not> is_terminal_event (event_type e)))"

text \<open>The sink is gone or every sequence number is used.\<close>

definition spool_dead :: "EventPipeline \<Rightarrow> bool" where
  "spool_dead p \<longleftrightarrow> chan_closed (ep_chan p) \<or> next_producer_sequence p = u64_max"

lemma quiet_environment: "quiet n (events a) \<Longrightarrow> quiet n (events (environment a))"
  by (simp add: quiet_def environment_spool)

lemma quiet_publish:
  "quiet n p \<Longrightarrow> try_publish p ev = Inr p' \<Longrightarrow> \<not> is_terminal_event (event_type ev) \<Longrightarrow> quiet n p'"
  using pipeline_step_inv [OF pipeline_step.publish]
  by (auto simp: quiet_def try_publish_ok enqueue_def)

lemma quiet_has_room:
  assumes "quiet n p"
  shows "has_room p"
proof -
  have "\<forall>q \<in> set (chan_pending (ep_chan p)). ordinary_slot q"
    using assms by (auto simp: quiet_def chan_pending_def dest: in_set_dropD)
  then have "filter ordinary_slot (chan_pending (ep_chan p)) = chan_pending (ep_chan p)" by simp
  with assms show ?thesis by (simp add: quiet_def pipeline_inv_def spool_inv_def has_room_def)
qed

lemma publish_terminal_quiet:
  assumes q: "quiet n p" and ty: "is_terminal_event (event_type ev)"
  shows "(\<exists>e. publish_terminal p ev b = poll.Ready (Inl e) \<and> spool_dead p) \<or>
    (\<exists>p'. publish_terminal p ev b = poll.Ready (Inr p') \<and> closing n (event_type ev) p')"
proof (cases "publish_terminal p ev b")
  case (Ready r)
  show ?thesis
  proof (cases r)
    case (Inl e)
    with Ready q ty quiet_has_room [OF q] show ?thesis
      by (auto simp: publish_terminal_def quiet_def spool_dead_def pipeline_inv_def sequence_inv_def checked_add_None
          split: if_splits option.splits)
  next
    case (Inr p')
    with Ready have ok: "publish_terminal p ev b = poll.Ready (Inr p')" by simp
    have "pipeline_inv n p'" using q ok by (auto simp: quiet_def intro: pipeline_step_inv pipeline_step.terminal)
    with ok q Ready Inr show ?thesis
      by (auto simp: publish_terminal_ok closing_def enqueue_def quiet_def)
  qed
qed (use q ty quiet_has_room [OF q] in \<open>auto simp: publish_terminal_def split: if_splits option.splits\<close>)

lemma emit_terminal_quiet:
  assumes "quiet n (events a)" "is_terminal_event ty"
  shows "wpE (emit_terminal_event ty pl)
    (\<lambda>_ b. closing n ty (events b) \<and> phase b = phase a \<and> terminal_error b = terminal_error a)
    (\<lambda>_ b. quiet n (events b) \<and> spool_dead (events b)) a"
proof -
  let ?a = "environment a"
  let ?ev = "pending_event (wall_clock ?a) ty (correlation_id (tenant ?a)) None SourceRuntime PrivacyInternal pl"
  have q: "quiet n (events ?a)" using assms(1) by (rule quiet_environment)
  from publish_terminal_quiet [OF q, of ?ev False] assms(2) q show ?thesis
    by (auto simp: emit_terminal_event_def wpE_def Let_def pending_event_def)
qed

subsection \<open>A session that has not ended\<close>

definition calm :: "SessionPhase set \<Rightarrow> usize \<Rightarrow> SessionActor \<Rightarrow> bool" where
  "calm S n a \<longleftrightarrow> quiet n (events a) \<and> phase a \<in> S \<and> terminal_error a = None"

abbreviation open_phases :: "SessionPhase set" where
  "open_phases \<equiv> {SessionPhase.Ready, Active}"

lemma calm_updates:
  assumes "calm S n a"
  shows "calm S n (environment a)" "calm S n (cancel_input a)" "calm S n (take_current a)" "calm S n (begin_input a)"
    "calm S n (commit_audio a)" "calm S n (clear_speech a)" "calm S n (start_speech a)" "calm S n (append_audio au a)"
    "calm S n (drop_current a)" "calm S n (update_current f a)" "calm S n (next_response_epoch a)"
    "calm S n (spawn_response msgs a)" "calm S n (cancel_children a)" "calm S n (remember_message mid a)"
    "calm S n (a\<lparr>audio_buffer := []\<rparr>)" "calm S n (a\<lparr>conversation := h\<rparr>)" "calm S n (a\<lparr>playout := po\<rparr>)"
    "calm S n (a\<lparr>message_sequence := k\<rparr>)" "calm S n (a\<lparr>output_tx := c\<rparr>)"
    "calm S n (a\<lparr>deadline := d, active_deadline_started := st\<rparr>)" "ph \<in> T \<Longrightarrow> calm T n (set_phase ph a)"
  using assms
  by (auto simp: calm_def quiet_environment actor_update_defs remember_message_def Let_def split: option.split prod.split)

lemma calm_publish:
  "calm S n a \<Longrightarrow> try_publish (events a) ev = Inr p \<Longrightarrow> \<not> is_terminal_event (event_type ev) \<Longrightarrow>
   calm S n (a\<lparr>events := p\<rparr>)"
  by (auto simp: calm_def intro: quiet_publish)

lemma calm_quiet: "calm S n a \<Longrightarrow> quiet n (events a)"
  by (simp add: calm_def)

lemma calm_phase: "calm S n a \<Longrightarrow> phase a \<in> S"
  by (simp add: calm_def)

lemma calm_emit_with: "hoare (calm S n) (\<lambda>a. quiet n (events a)) (emit_with mk)"
  by (rule emit_with_hoare) (auto intro: calm_updates calm_quiet)

interpretation calm_open: actor_contract enc "calm open_phases n" "calm open_phases n" "\<lambda>a. quiet n (events a)"
  by unfold_locales (auto intro: calm_updates calm_publish calm_quiet calm_emit_with)

interpretation calm_draining: actor_contract enc "calm {Draining} n" "calm {Draining} n" "\<lambda>a. quiet n (events a)"
  by unfold_locales
    (auto intro: calm_updates calm_publish calm_quiet calm_emit_with dest: calm_phase)

subsection \<open>Failing\<close>

definition failed :: "usize \<Rightarrow> SessionActor \<Rightarrow> bool" where
  "failed n a \<longleftrightarrow> quiet n (events a) \<and> phase a = SessionPhase.Failed \<and> terminal_error a \<noteq> None"

lemma emit_with_phase:
  "hoare (\<lambda>a. quiet n (events a) \<and> phase a = ph) (\<lambda>a. quiet n (events a)) (emit_with mk)"
  by (rule emit_with_hoare) (auto intro: quiet_environment)

lemma fail_session_calm:
  assumes "calm open_phases n a"
  shows "wpE (fail_session code msg) (\<lambda>_. failed n) (\<lambda>_ b. quiet n (events b)) a"
proof -
  let ?a = "note_failure code (cancel_children a)"
  have p: "\<not> is_terminal_phase (phase a)" using assms by (auto simp: calm_def is_terminal_phase_def)
  have q: "quiet n (events ?a)" "phase ?a = SessionPhase.Failed"
    using calm_updates(13) [OF assms] by (simp_all add: note_failure_def calm_def)
  have "wpE (send_error e) (\<lambda>_ b. quiet n (events b) \<and> phase b = SessionPhase.Failed) (\<lambda>_ b. quiet n (events b)) ?a" for e
    unfolding send_error_def emit_server_def using q by (intro hoareD [OF emit_with_phase] conjI)
  then have "wpE (send_error e) (\<lambda>_ b. failed n (set_terminal_error e b)) (\<lambda>_ b. quiet n (events b)) ?a" for e
    by (rule wpE_mono) (simp_all add: failed_def set_terminal_error_def)
  with p show ?thesis by (simp add: fail_session_def wp wp_fun)
qed

definition running :: "usize \<Rightarrow> SessionActor \<Rightarrow> bool" where
  "running n a \<longleftrightarrow> calm open_phases n a \<or> failed n a"

lemma running_cong:
  "running n a \<Longrightarrow> quiet n (events b) \<Longrightarrow> phase b = phase a \<Longrightarrow> terminal_error b = terminal_error a \<Longrightarrow> running n b"
  by (auto simp: running_def calm_def failed_def)

lemma running_quiet: "running n a \<Longrightarrow> quiet n (events a)"
  by (auto simp: running_def calm_def failed_def)

lemma running_updates:
  assumes "running n a"
  shows "running n (environment a)" "running n (cancel_input a)" "running n (take_current a)" "running n (begin_input a)"
    "running n (commit_audio a)" "running n (clear_speech a)" "running n (start_speech a)" "running n (append_audio au a)"
    "running n (drop_current a)" "running n (update_current f a)" "running n (next_response_epoch a)"
    "running n (spawn_response msgs a)" "running n (remember_message mid a)"
    "running n (a\<lparr>audio_buffer := []\<rparr>)" "running n (a\<lparr>conversation := h\<rparr>)" "running n (a\<lparr>playout := po\<rparr>)"
    "running n (a\<lparr>message_sequence := k\<rparr>)" "running n (a\<lparr>output_tx := c\<rparr>)"
    "running n (a\<lparr>deadline := d, active_deadline_started := st\<rparr>)"
  using running_quiet [OF assms]
  by (auto intro!: running_cong [OF assms] simp: quiet_environment actor_update_defs remember_message_def Let_def
      split: option.split prod.split)

lemma running_activate: "running n a \<Longrightarrow> phase a = SessionPhase.Ready \<Longrightarrow> running n (set_phase Active a)"
  by (auto simp: running_def calm_def failed_def set_phase_def)

lemma running_publish:
  "running n a \<Longrightarrow> try_publish (events a) ev = Inr p \<Longrightarrow> \<not> is_terminal_event (event_type ev) \<Longrightarrow>
   running n (a\<lparr>events := p\<rparr>)"
  by (auto simp: running_def calm_def failed_def intro: quiet_publish)

lemma running_emit_with: "hoare (running n) (\<lambda>a. quiet n (events a)) (emit_with mk)"
  by (rule emit_with_hoare) (auto intro: running_updates running_quiet)

lemma running_fail: "hoare (running n) (\<lambda>a. quiet n (events a)) (fail_session code msg)"
proof (rule hoareI)
  fix a
  assume r: "running n a"
  show "wpE (fail_session code msg) (\<lambda>_. running n) (\<lambda>_ b. quiet n (events b)) a"
  proof (cases "calm open_phases n a")
    case True
    from fail_session_calm [OF this] show ?thesis by (rule wpE_mono) (simp_all add: running_def)
  next
    case False
    with r show ?thesis
      by (auto simp: running_def failed_def fail_session_def wp is_terminal_phase_def)
  qed
qed

interpretation running_actor: failing_contract enc "running n" "running n" "\<lambda>a. quiet n (events a)"
  by unfold_locales
    (auto intro: running_updates running_publish running_quiet running_emit_with running_fail running_activate)

subsection \<open>Ending in good order\<close>

inductive ended :: "usize \<Rightarrow> SessionActor \<Rightarrow> bool" where
  completed: "closing n EventType.SessionCompleted (events a) \<Longrightarrow> phase a = SessionPhase.Completed \<Longrightarrow>
    terminal_error a = None \<Longrightarrow> ended n a"
| canceled: "closing n EventType.SessionCanceled (events a) \<Longrightarrow> phase a = SessionPhase.Canceled \<Longrightarrow>
    terminal_error a = None \<Longrightarrow> ended n a"

lemma finish_calm:
  assumes "calm open_phases n a" "is_terminal_event ty"
  shows "wpE (finish_with ph ty reason)
    (\<lambda>_ b. closing n ty (events b) \<and> phase b = ph \<and> terminal_error b = None) (\<lambda>_ b. quiet n (events b)) a"
proof -
  let ?Q = "\<lambda>_ b. closing n ty (events b) \<and> phase b = ph \<and> terminal_error b = None"
  have p: "\<not> is_terminal_phase (phase a)" using assms(1) by (auto simp: calm_def is_terminal_phase_def)
  have last: "wpE (emit_terminal_event ty pl) ?Q (\<lambda>_ b. quiet n (events b)) (set_phase ph (cancel_input b))"
    if b: "calm {Draining} n b" for b pl
  proof (rule wpE_mono)
    have "quiet n (events (set_phase ph (cancel_input b)))" "terminal_error (set_phase ph (cancel_input b)) = None"
      using calm_updates(2) [OF b] by (simp_all add: calm_def set_phase_def)
    with emit_terminal_quiet [OF this(1) assms(2)]
    show "wpE (emit_terminal_event ty pl) ?Q (\<lambda>_ b. quiet n (events b) \<and> spool_dead (events b))
        (set_phase ph (cancel_input b))" by (simp add: set_phase_def)
  qed simp_all
  have "calm {Draining} n (set_phase Draining a)" using assms(1) by (rule calm_updates) simp
  from hoareD [OF calm_draining.interrupt_current_ok this]
  have "wpE (interrupt_current rc) (\<lambda>_. calm {Draining} n) (\<lambda>_ b. quiet n (events b)) (set_phase Draining a)" for rc .
  then have "wpE (interrupt_current rc) (\<lambda>_ b. wpE (emit_terminal_event ty pl) ?Q (\<lambda>_ b. quiet n (events b))
      (set_phase ph (cancel_input b))) (\<lambda>_ b. quiet n (events b)) (set_phase Draining a)" for rc pl
    by (rule wpE_mono) (simp_all add: last)
  with p show ?thesis by (simp add: finish_with_def wp wp_fun)
qed

lemma complete_calm:
  "calm open_phases n a \<Longrightarrow> wpE (complete reason) (\<lambda>_. ended n) (\<lambda>_ b. quiet n (events b)) a"
  unfolding complete_def
  by (rule wpE_mono [OF finish_calm]) (auto simp: is_terminal_event_def intro: ended.completed)

lemma cancel_calm:
  "calm open_phases n a \<Longrightarrow> wpE (cancel_session reason) (\<lambda>_. ended n) (\<lambda>_ b. quiet n (events b)) a"
  unfolding cancel_session_def
  by (rule wpE_mono [OF finish_calm]) (auto simp: is_terminal_event_def intro: ended.canceled)

subsection \<open>One iteration of the loop\<close>

definition iterated :: "usize \<Rightarrow> bool \<Rightarrow> SessionActor \<Rightarrow> bool" where
  "iterated n go a \<longleftrightarrow> (if go then calm open_phases n a else failed n a \<or> ended n a)"

lemma running_iterated: "running n a \<Longrightarrow> iterated n (phase a \<noteq> SessionPhase.Failed) a"
  by (auto simp: running_def iterated_def failed_def calm_def)

lemma still_running_iterated:
  assumes "hoare (running n) (\<lambda>a. quiet n (events a)) m" "running n a"
  shows "wpE (thenE m still_running) (iterated n) (\<lambda>_ b. quiet n (events b)) a"
  using hoareD [OF assms]
  by (auto simp: still_running_def wp intro: running_iterated elim!: wpE_mono)

lemma fail_then_stop_iterated:
  "calm open_phases n a \<Longrightarrow> wpE (thenE (fail_session code msg) (returnE False)) (iterated n) (\<lambda>_ b. quiet n (events b)) a"
  by (auto simp: wp iterated_def intro: wpE_mono [OF fail_session_calm])

lemma client_iterated:
  assumes "calm open_phases n a"
  shows "wpE (handle_client enc m) (iterated n) (\<lambda>_ b. quiet n (events b)) a"
proof (cases "\<exists>env r. m = SessionEnd env r")
  case True
  then obtain env r where m: "m = SessionEnd env r" by blast
  have "calm open_phases n b \<Longrightarrow> wpE (client_message enc m) (iterated n) (\<lambda>_ b. quiet n (events b)) b" for b
    by (auto simp: m client_message_def wp iterated_def intro: wpE_mono [OF complete_calm])
  with calm_updates(14) [OF assms] assms show ?thesis
    by (auto simp: handle_client_def is_duplicate_message_def wp iterated_def calm_quiet split: sum.split)
next
  case False
  have "wpE (client_message enc m) (\<lambda>b _. b) (\<lambda>_ _. True) s" for s
    using False by (cases m) (auto simp: client_message_def wp wp_fun wpE_true)
  then have "wpE (handle_client enc m) (\<lambda>b _. b) (\<lambda>_ _. True) a"
    by (auto simp: handle_client_def is_duplicate_message_def wp split: sum.split)
  from wpE_conj [OF this hoareD [OF calm_open.handle_client_ok assms]] False show ?thesis
    by (auto simp: iterated_def elim!: wpE_mono)
qed

lemma control_iterated:
  assumes "calm open_phases n a"
  shows "wpE (handle_control enc cmd) (iterated n) (\<lambda>_ b. quiet n (events b)) a"
proof -
  have r: "running n a" using assms by (simp add: running_def)
  show ?thesis
  proof (cases cmd)
    case (Complete reason)
    then show ?thesis
      by (auto simp: handle_control_def wp iterated_def intro: wpE_mono [OF complete_calm [OF assms]])
  next
    case (Cancel reason)
    then show ?thesis
      by (auto simp: handle_control_def wp iterated_def intro: wpE_mono [OF cancel_calm [OF assms]])
  next
    case (CmdSttEnded epoch fin)
    then show ?thesis
      using assms fail_then_stop_iterated [OF assms]
      by (auto simp: handle_control_def wp iterated_def)
  qed (use assms r in \<open>auto simp: handle_control_def client_iterated
      intro!: still_running_iterated running_actor.handle_stt_update_ok running_actor.handle_pipeline_ok\<close>)
qed

lemma loop_body_iterated:
  assumes "calm open_phases n a"
  shows "wpE (loop_body enc ev) (iterated n) (\<lambda>_ b. quiet n (events b)) a"
proof (cases ev)
  case MediaOverrun
  have "calm open_phases n b \<Longrightarrow> wpE (fail_session code msg) (\<lambda>_. iterated n False) (\<lambda>_ b. quiet n (events b)) (b\<lparr>audio_buffer := []\<rparr>)"
    for b code msg by (rule wpE_mono [OF fail_session_calm]) (auto simp: calm_updates iterated_def)
  with MediaOverrun show ?thesis
    by (auto simp: loop_body_def wp wp_fun is_terminal_event_def
        intro!: wpE_mono [OF hoareD [OF calm_open.emit_event_ok assms]])
next
  case DeadlineElapsed
  then show ?thesis
    by (auto simp: loop_body_def wp iterated_def intro!: wpE_mono [OF complete_calm [OF assms]]
        wpE_mono [OF fail_session_calm [OF assms]])
next
  case (ControlRecv cmd)
  then show ?thesis
    using assms by (cases cmd) (auto simp: loop_body_def intro: control_iterated fail_then_stop_iterated)
next
  case (MediaRecv cmd)
  have "running n a" using assms by (simp add: running_def)
  with MediaRecv show ?thesis
    using assms
    by (auto simp: loop_body_def client_iterated fail_then_stop_iterated
        intro!: still_running_iterated running_actor.handle_audio_ok split: option.split MediaCommand.split)
qed (use assms in \<open>auto simp: loop_body_def fail_then_stop_iterated\<close>)

subsection \<open>A whole run\<close>

text \<open>
  The value of the loop and the state it leaves: a failure has published no terminal event yet,
  success has published it.
\<close>

definition looped :: "usize \<Rightarrow> unit result option \<Rightarrow> SessionActor \<Rightarrow> bool" where
  "looped n r a \<longleftrightarrow>
     (case r of
        None \<Rightarrow> calm open_phases n a
      | Some (Inl _) \<Rightarrow> quiet n (events a)
      | Some (Inr _) \<Rightarrow> ended n a)"

lemma ended_quiet: "ended n a \<Longrightarrow> \<exists>ty. closing n ty (events a) \<and> terminal_error a = None"
  by (auto elim: ended.cases)

lemma loop_run_looped:
  "calm open_phases n a \<Longrightarrow> loop_run enc evs a = (r, a') \<Longrightarrow> looped n r a'"
proof (induction evs arbitrary: a)
  case (Cons ev evs)
  obtain rb b where lb: "loop_body enc ev a = (rb, b)" by fastforce
  from wpE_result [OF loop_body_iterated [OF Cons.prems(1)] lb]
  have b: "case rb of Inl _ \<Rightarrow> quiet n (events b) | Inr go \<Rightarrow> iterated n go b" .
  have tail: "calm open_phases n b \<Longrightarrow> calm open_phases n (loop_tail b)"
    by (simp add: loop_tail_def calm_updates)
  show ?case
  proof (cases rb)
    case (Inl e)
    with b lb Cons.prems(2) show ?thesis by (auto simp: looped_def)
  next
    case (Inr go)
    show ?thesis
    proof (cases go)
      case True
      with b Inr lb Cons.prems(2) Cons.IH [OF tail] show ?thesis by (auto simp: iterated_def)
    next
      case False
      with b Inr have "failed n b \<or> ended n b" by (simp add: iterated_def)
      then show ?thesis
      proof
        assume "failed n b"
        then obtain e where "terminal_error b = Some e" "quiet n (events b)" by (auto simp: failed_def)
        with lb Inr False Cons.prems(2) show ?thesis by (auto simp: looped_def)
      next
        assume e: "ended n b"
        then have "ended n (b\<lparr>terminal_error := None\<rparr>)" by cases (auto intro: ended.intros)
        with e lb Inr False Cons.prems(2) show ?thesis by (auto simp: looped_def dest: ended_quiet)
      qed
    qed
  qed
qed (simp add: looped_def)

lemma run_loop_looped:
  assumes "calm open_phases n a" "run_loop enc evs a = (r, a')"
  shows "looped n r a'"
proof -
  obtain rp b where p: "run_prologue a = (rp, b)" by fastforce
  from hoare_result [OF calm_open.run_prologue_ok assms(1) p]
  have "case rp of Inl _ \<Rightarrow> quiet n (events b) | Inr _ \<Rightarrow> calm open_phases n b" .
  with p assms(2) loop_run_looped [of n b enc evs r a'] show ?thesis
    by (cases rp) (auto simp: run_loop_def looped_def [of n "Some (Inl e)" for e])
qed

lemma unexpected_failure_terminal:
  assumes "quiet n (events a)" "record_unexpected_failure e a = (r, b)"
  shows "if r = Inr () then closing n EventType.SessionFailed (events b) else quiet n (events b) \<and> spool_dead (events b)"
proof -
  define a' where "a' = (cancel_children a)\<lparr>phase := SessionPhase.Failed, terminal_failure_code := None\<rparr>"
  have q: "quiet n (events a')"
    using assms(1) by (auto simp: a'_def actor_update_defs split: option.split)
  have "\<exists>pl. record_unexpected_failure e a = emit_terminal_event EventType.SessionFailed pl a'"
    by (auto simp: record_unexpected_failure_def errorE_defs a'_def)
  then obtain pl where "emit_terminal_event EventType.SessionFailed pl a' = (r, b)" using assms(2) by auto
  from wpE_result [OF emit_terminal_quiet [OF q] this] show ?thesis
    by (auto simp: is_terminal_event_def split: sum.splits)
qed

lemma pipeline_close_closing: "closing n ty p \<Longrightarrow> closing n ty (pipeline_close p)"
  using pipeline_step_inv [OF pipeline_step.close] by (auto simp: closing_def pipeline_close_def)

lemma cancel_children_events [simp]: "events (cancel_children a) = events a"
  by (simp add: actor_update_defs split: option.split)

definition terminal_types :: "EventPipeline \<Rightarrow> EventType list" where
  "terminal_types p = map event_type (filter (\<lambda>e. is_terminal_event (event_type e)) (accepted p))"

lemma closing_types: "closing n ty p \<Longrightarrow> is_terminal_event ty \<Longrightarrow> terminal_types p = [ty]"
  by (auto simp: closing_def terminal_types_def)

lemma quiet_types: "quiet n p \<Longrightarrow> terminal_types p = []"
  by (auto simp: quiet_def terminal_types_def)

text \<open>What is left behind when \<open>run\<close> closes the pipeline.\<close>

lemma run_close_terminal:
  assumes "looped n (Some r) a"
  shows "case r of
      Inr _ \<Rightarrow> closing n EventType.SessionCompleted (events (run_close r a)) \<or>
               closing n EventType.SessionCanceled (events (run_close r a))
    | Inl _ \<Rightarrow> closing n EventType.SessionFailed (events (run_close r a)) \<or>
               terminal_types (events (run_close r a)) = [] \<and> spool_dead (events (run_close r a))"
proof (cases r)
  case (Inr u)
  with assms show ?thesis
    by (auto simp: looped_def run_close_def Let_def elim!: ended.cases intro: pipeline_close_closing)
next
  case (Inl e)
  obtain rr b where b: "record_unexpected_failure e a = (rr, b)" by fastforce
  have "quiet n (events a)" using assms Inl by (simp add: looped_def)
  note u = unexpected_failure_terminal [OF this b]
  have ev: "events (run_close r a) = pipeline_close (events b)" using b Inl by (simp add: run_close_def Let_def)
  have "terminal_types (pipeline_close p) = terminal_types p" "spool_dead (pipeline_close p) = spool_dead p" for p
    by (simp_all add: terminal_types_def pipeline_close_def spool_dead_def)
  then show ?thesis
    using u Inl ev by (auto split: if_splits intro: pipeline_close_closing quiet_types)
qed

lemma spawned_calm: "spawned cfg ctx n a \<Longrightarrow> calm open_phases n a"
  by (erule spawned_initial) (simp add: calm_def quiet_def initial_actor_def)

lemma worker_steps_frame: "worker_step\<^sup>*\<^sup>* p q \<Longrightarrow> spool_frame p q"
  by (induction rule: rtranclp_induct) (auto intro: spool_frame_trans worker_frame)

lemma closing_frame: "closing n ty p \<Longrightarrow> spool_frame p q \<Longrightarrow> closing n ty q"
  by (simp add: closing_def spool_frame_def)

subsection \<open>Properties\<close>

text \<open>
  C15 (safety). Whatever a session receives, in whatever order, and however the event worker and
  the client behave, a run that ends has published exactly one terminal event: completed or
  canceled when the run succeeds, failed when it fails; the only exception is a spool whose
  worker has already stopped or whose sequence numbers are exhausted.
\<close>

theorem session_one_terminal_event:
  assumes "spawned cfg ctx n a0" and "run_loop enc evs a0 = (Some r, a)"
  shows "case r of
      Inr _ \<Rightarrow> terminal_types (events (run_close r a)) \<in> {[EventType.SessionCompleted], [EventType.SessionCanceled]}
    | Inl _ \<Rightarrow> terminal_types (events (run_close r a)) = [EventType.SessionFailed] \<or>
        terminal_types (events (run_close r a)) = [] \<and> spool_dead (events (run_close r a))"
  using run_close_terminal [OF run_loop_looped [OF spawned_calm [OF assms(1)] assms(2)]] closing_types
  by (auto simp: is_terminal_event_def split: sum.splits)

lemmas ending_eval = run_loop_def run_prologue_def loop_body_def handle_control_def complete_def finish_with_def
  interrupt_current_def emit_event_def emit_terminal_event_def emit_server_def emit_with_def emit_output_def
  next_server_envelope_def publish_now_def environment_def errorE_defs actor_update_defs is_terminal_phase_def
  terminal_reason_code_def try_publish_def publish_terminal_def is_terminal_event_def has_room_def enqueue_def
  pending_event_def checked_add_def saturating_add_def u64_max_def chan_new_def chan_pending_def chan_try_send_def
  Let_def

lemma demo_end_run:
  "\<exists>a. run_loop (\<lambda>_. Inr 10) [ControlRecv (Some (Complete ''transport_closed''))] demo_actor = (Some (Inr ()), a) \<and>
     phase a = SessionPhase.Completed \<and>
     (\<exists>e1 e2. chan_sent (ep_chan (events a)) = [e1, e2]) \<and> ep_worker (events a) = Receiving \<and> ep_batch_size (events a) = 4 \<and>
     chan_taken (ep_chan (events a)) = 0"
  unfolding demo_actor_def initial_actor_def by (simp add: ending_eval default_config_def)

theorem session_one_terminal_event_witness:
  "\<exists>a. run_loop (\<lambda>_. Inr 10) [ControlRecv (Some (Complete ''transport_closed''))] demo_actor = (Some (Inr ()), a) \<and>
     terminal_types (events (run_close (Inr ()) a)) \<in> {[EventType.SessionCompleted], [EventType.SessionCanceled]}"
  using demo_end_run session_one_terminal_event [OF demo_spawned] by fastforce

text \<open>
  C16 (functional). A session whose outcome is Flushed has ended in good order and its sink has
  accepted every event it ever published, in order, with consecutive sequence numbers, the
  terminal event last.
\<close>

theorem flushed_session_delivered:
  assumes "spawned cfg ctx n a0" and run: "run_loop enc evs a0 = (Some r, a)"
    and steps: "worker_step\<^sup>*\<^sup>* (events (run_close r a)) p"
    and flushed: "terminal_outcome (session_result r ((run_close r a)\<lparr>events := p\<rparr>)) = Flushed"
  shows "r = Inr () \<and> (\<exists>delivered ev. concat (ep_published p) = delivered @ [ev] \<and>
    event_type ev \<in> {EventType.SessionCompleted, EventType.SessionCanceled} \<and>
    (\<forall>e \<in> set delivered. \<not> is_terminal_event (event_type e)) \<and>
    map producer_sequence (concat (ep_published p)) = [1..<next_producer_sequence p])"
proof -
  from flushed have r: "r = Inr ()" and p: "ep_worker p = Stopped (Inr ())"
    by (auto simp: terminal_outcome_def session_result_def close_result_def split: poll.splits sum.splits worker_state.splits)
  have "looped n (Some r) a" using run_loop_looped [OF spawned_calm [OF assms(1)] run] .
  from run_close_terminal [OF this] r
  obtain ty where ty: "closing n ty (events (run_close r a))" "ty \<in> {EventType.SessionCompleted, EventType.SessionCanceled}"
    by auto
  from closing_frame [OF ty(1) worker_steps_frame [OF steps]] have c: "closing n ty p" .
  then obtain delivered ev where d: "accepted p = delivered @ [ev]" "event_type ev = ty"
    "\<forall>e \<in> set delivered. \<not> is_terminal_event (event_type e)" and inv: "pipeline_inv n p"
    unfolding closing_def by blast
  have "accepted p = concat (ep_published p)" using inv p by (auto simp: pipeline_inv_def delivery_inv_def)
  moreover have "map producer_sequence (accepted p) = [1..<next_producer_sequence p]"
    using inv unfolding pipeline_inv_def sequence_inv_def by blast
  ultimately show ?thesis using d ty(2) r by (intro conjI exI [of _ delivered] exI [of _ ev]) auto
qed

lemma demo_flush:
  assumes "chan_sent (ep_chan p) = [e1, e2]" "ep_worker p = Receiving" "ep_batch_size p = 4" "chan_taken (ep_chan p) = 0"
    "\<not> ep_sender p"
  shows "\<exists>q. worker_step\<^sup>*\<^sup>* p q \<and> ep_worker q = Stopped (Inr ())"
proof -
  let ?c = "ep_chan p"
  define p1 where "p1 = p\<lparr>ep_chan := ?c\<lparr>chan_taken := 1\<rparr>, ordinary_slots := (if ordinary_slot e1 then ordinary_slots p + 1
    else ordinary_slots p), ep_worker := Collecting [queued_event e1]\<rparr>"
  define p2 where "p2 = p1\<lparr>ep_chan := ?c\<lparr>chan_taken := 2\<rparr>, ordinary_slots := (if ordinary_slot e2 then ordinary_slots p1 + 1
    else ordinary_slots p1), ep_worker := Collecting [queued_event e1, queued_event e2]\<rparr>"
  define p3 where "p3 = p2\<lparr>ep_worker := Publishing [queued_event e1, queued_event e2] (initial_backoff (ep_retry p)) 1\<rparr>"
  define p4 where "p4 = p3\<lparr>ep_worker := Receiving, ep_published := ep_published p3 @ [[queued_event e1, queued_event e2]]\<rparr>"
  note defs = p1_def p2_def p3_def p4_def
  have "worker_recv p = Some p1"
    using assms by (simp add: worker_recv_def take_queued_def chan_recv_def chan_pending_def defs)
  moreover have "worker_collect p1 = Some p2" "worker_collect p2 = Some p3"
    using assms by (simp_all add: worker_collect_def take_queued_def chan_recv_def chan_pending_def defs)
  moreover have "worker_publish p3 (Inr ()) = Some p4" by (simp add: worker_publish_def defs)
  moreover have "worker_recv p4 = Some (stop_worker p4 (Inr ()))"
    using assms by (simp add: worker_recv_def take_queued_def chan_recv_def chan_pending_def defs)
  ultimately have "worker_step p p1" "worker_step p1 p2" "worker_step p2 p3" "worker_step p3 p4"
    "worker_step p4 (stop_worker p4 (Inr ()))" by (auto intro: worker_step.intros)
  then have "worker_step\<^sup>*\<^sup>* p (stop_worker p4 (Inr ()))"
    by (meson converse_rtranclp_into_rtranclp r_into_rtranclp)
  then show ?thesis by (rule exI [of _ "stop_worker p4 (Inr ())", OF conjI]) (simp add: stop_worker_def)
qed

theorem flushed_session_delivered_witness:
  "\<exists>a p. run_loop (\<lambda>_. Inr 10) [ControlRecv (Some (Complete ''transport_closed''))] demo_actor = (Some (Inr ()), a) \<and>
     worker_step\<^sup>*\<^sup>* (events (run_close (Inr ()) a)) p \<and> (\<exists>delivered ev. concat (ep_published p) = delivered @ [ev])"
proof -
  obtain a where a: "run_loop (\<lambda>_. Inr 10) [ControlRecv (Some (Complete ''transport_closed''))] demo_actor = (Some (Inr ()), a)"
    "\<exists>e1 e2. chan_sent (ep_chan (events a)) = [e1, e2]" "ep_worker (events a) = Receiving" "ep_batch_size (events a) = 4"
    "chan_taken (ep_chan (events a)) = 0" using demo_end_run by blast
  let ?p = "events (run_close (Inr ()) a)"
  have "\<exists>e1 e2. chan_sent (ep_chan ?p) = [e1, e2]" "ep_worker ?p = Receiving" "ep_batch_size ?p = 4"
    "chan_taken (ep_chan ?p) = 0" "\<not> ep_sender ?p" using a by (auto simp: run_close_def Let_def pipeline_close_def)
  then obtain q where q: "worker_step\<^sup>*\<^sup>* ?p q" "ep_worker q = Stopped (Inr ())" using demo_flush by blast
  then have "terminal_outcome (session_result (Inr ()) ((run_close (Inr ()) a)\<lparr>events := q\<rparr>)) = Flushed"
    by (simp add: terminal_outcome_def session_result_def close_result_def)
  from flushed_session_delivered [OF demo_spawned a(1) q(1) this] a(1) q(1) show ?thesis by blast
qed

end
