(* ===== verification/Responses.thy ===== *)
theory Responses
  imports ActorInv
begin

text \<open>
  The actor's side of a response refines the protocol automaton of theory \<open>Pipeline\<close>: while the
  task of the current response sends what the automaton allows, the actor's own bookkeeping (the
  pending tool call and the retained text) follows the automaton's state, and none of the errors
  that report a broken protocol is ever raised.
\<close>

subsection \<open>The refinement relation\<close>

fun refines :: "response_state \<Rightarrow> CurrentResponse \<Rightarrow> bool" where
  "refines Reasoning c \<longleftrightarrow> pending_tool c = None \<and> pending_assistant c = None"
| "refines (InTool i m) c \<longleftrightarrow>
     pending_assistant c = None \<and>
     (\<exists>call. pending_tool c = Some call \<and> pending_call_id call = i \<and> pending_name call = m)"
| "refines ToolBroken c \<longleftrightarrow> pending_tool c = None \<and> pending_assistant c = None"
| "refines Answered c \<longleftrightarrow> pending_tool c = None \<and> pending_assistant c \<noteq> None"
| "refines (Speaking _) c \<longleftrightarrow> pending_tool c = None \<and> pending_assistant c \<noteq> None"
| "refines Spoken c \<longleftrightarrow> pending_tool c = None \<and> pending_assistant c \<noteq> None"
| "refines Ended c \<longleftrightarrow> False"

definition response_rel :: "string \<Rightarrow> u64 \<Rightarrow> response_state \<Rightarrow> SessionActor \<Rightarrow> bool" where
  "response_rel rid epoch q a \<longleftrightarrow>
     (case current_response a of
        None \<Rightarrow> q = Ended
      | Some c \<Rightarrow> cur_id c = rid \<and> cur_epoch c = epoch \<and> refines q c)"

text \<open>The errors that say a response broke the protocol between task and actor.\<close>

definition protocol_error :: "RuntimeError \<Rightarrow> bool" where
  "protocol_error e \<longleftrightarrow>
     (\<exists>m. e = RuntimeError.Provider ''tool'' m \<or> e = RuntimeError.Provider ''reasoner'' m) \<or>
     e = Internal ''tool response state disappeared'' \<or> e = Internal ''completed response state disappeared''"

subsection \<open>Steps that leave the current response alone\<close>

definition keeps_current :: "'a session \<Rightarrow> bool" where
  "keeps_current m \<longleftrightarrow>
     (\<forall>a. wpE m (\<lambda>_ b. current_response b = current_response a \<and> phase b = phase a) (\<lambda>e _. \<not> protocol_error e) a)"

lemma keeps_currentD:
  "keeps_current m \<Longrightarrow> (\<And>x b. current_response b = current_response a \<Longrightarrow> phase b = phase a \<Longrightarrow> Q x b) \<Longrightarrow>
   wpE m Q (\<lambda>e _. \<not> protocol_error e) a"
  unfolding keeps_current_def by (auto elim!: wpE_mono allE [of _ a])

lemma keeps_emit_event: "keeps_current (emit_event ty s pr pl)"
  by (auto simp: keeps_current_def emit_event_def wpE_def errorE_defs publish_now_def try_publish_def protocol_error_def
      split: if_splits option.split)

lemma keeps_emit_with: "keeps_current (emit_with mk)"
  by (auto simp: keeps_current_def emit_with_def next_server_envelope_def emit_output_def wpE_def errorE_defs Let_def
      protocol_error_def split: sum.split try_send_error.split)

lemma keeps_emit_server: "keeps_current (emit_server mk)"
  unfolding emit_server_def by (rule keeps_emit_with)

lemma keeps_then: "keeps_current m \<Longrightarrow> keeps_current k \<Longrightarrow> keeps_current (thenE m k)"
  unfolding keeps_current_def wpE_thenE
proof
  fix a
  assume m: "\<forall>a. wpE m (\<lambda>_ b. current_response b = current_response a \<and> phase b = phase a) (\<lambda>e _. \<not> protocol_error e) a"
    and k: "\<forall>a. wpE k (\<lambda>_ b. current_response b = current_response a \<and> phase b = phase a) (\<lambda>e _. \<not> protocol_error e) a"
  show "wpE m (\<lambda>_. wpE k (\<lambda>_ b. current_response b = current_response a \<and> phase b = phase a)
      (\<lambda>e _. \<not> protocol_error e)) (\<lambda>e _. \<not> protocol_error e) a"
  proof (rule wpE_mono [OF m [rule_format]])
    fix t :: SessionActor
    assume "current_response t = current_response a \<and> phase t = phase a"
    with k [rule_format, of t] show "wpE k (\<lambda>_ b. current_response b = current_response a \<and> phase b = phase a)
        (\<lambda>e _. \<not> protocol_error e) t" by simp
  qed
qed

lemma keeps_readE: "(\<And>x. keeps_current (f x)) \<Longrightarrow> keeps_current (readE g f)"
  by (simp add: keeps_current_def wp)

lemma keeps_if: "keeps_current m \<Longrightarrow> keeps_current k \<Longrightarrow> keeps_current (if b then m else k)"
  by simp

lemma keeps_returnE: "keeps_current (returnE x)"
  by (simp add: keeps_current_def wp)

lemmas keeps_rules = keeps_then keeps_readE keeps_if keeps_returnE keeps_emit_event keeps_emit_with keeps_emit_server

lemma pop_errors: "pop_times enc j g = (Inl e, g') \<Longrightarrow> \<not> protocol_error e"
proof (induction j arbitrary: g)
  case (Suc j)
  show ?case
  proof (cases "pop_oldest enc g")
    case (Pair r g1)
    with Suc show ?thesis
      by (cases r) (auto simp: errorE_defs pop_oldest_def protocol_error_def split: list.splits sum.splits)
  qed
qed (simp add: returnE_def)

lemma oldest_group_errors: "oldest_group ms = Inl e \<Longrightarrow> \<not> protocol_error e"
  by (auto simp: oldest_group_def protocol_error_def split: list.splits ConversationMessage.splits if_splits)

lemma evict_errors: "evict_until enc l k n h = (Inl e, h') \<Longrightarrow> \<not> protocol_error e"
proof (induction enc l k n h rule: evict_until.induct)
  case (1 enc l k n h)
  obtain r g where ev: "evict_oldest_history_group enc h = (r, g)" by fastforce
  then have "r = Inl e' \<Longrightarrow> \<not> protocol_error e'" for e'
    by (auto simp: evict_oldest_history_group_def readE_def bindE_def liftE_def split: sum.splits
        dest: pop_errors oldest_group_errors)
  with 1 ev show ?case by (cases r) (auto simp: evict_until.simps [of enc l k n h] split: if_splits)
qed

lemma keeps_push_group: "keeps_current (push_group enc ms)"
proof -
  have "encode_all enc xs = Inl e \<Longrightarrow> \<not> protocol_error e" for xs e
    by (induction xs arbitrary: e) (auto simp: protocol_error_def split: sum.splits)
  then show ?thesis
    by (auto simp: keeps_current_def push_group_def push_history_group_def wpE_def Let_def
        split: sum.split prod.split dest: evict_errors)
      (auto simp: protocol_error_def)
qed

subsection \<open>The simulation\<close>

lemma wpE_keep_then:
  assumes "keeps_current m"
    and "\<And>b. current_response b = current_response a \<Longrightarrow> phase b = phase a \<Longrightarrow> wpE k Q (\<lambda>e _. \<not> protocol_error e) b"
  shows "wpE (thenE m k) Q (\<lambda>e _. \<not> protocol_error e) a"
  unfolding wpE_thenE by (rule keeps_currentD [OF assms(1)]) (rule assms(2))

lemma fail_session_ends:
  assumes "\<not> is_terminal_phase (phase a)"
  shows "wpE (fail_session code msg) (\<lambda>_ b. current_response b = None) (\<lambda>e _. \<not> protocol_error e) a"
proof -
  have none: "current_response (note_failure code (cancel_children a)) = None"
    by (simp add: actor_update_defs split: option.split)
  have "wpE (send_error e) (\<lambda>_ b. current_response b = None) (\<lambda>e _. \<not> protocol_error e) (note_failure code (cancel_children a))" for e
    unfolding send_error_def by (rule keeps_currentD [OF keeps_emit_server]) (simp add: none)
  then have "wpE (send_error e) (\<lambda>_ b. current_response (set_terminal_error e b) = None) (\<lambda>e _. \<not> protocol_error e)
      (note_failure code (cancel_children a))" for e
    by (rule wpE_mono) (simp_all add: set_terminal_error_def)
  with assms show ?thesis by (simp add: fail_session_def wp wp_fun)
qed

definition at_state :: "string \<Rightarrow> u64 \<Rightarrow> response_state \<Rightarrow> SessionPhase \<Rightarrow> SessionActor \<Rightarrow> bool" where
  "at_state rid epoch q ph a \<longleftrightarrow>
     (\<exists>c. current_response a = Some c \<and> cur_id c = rid \<and> cur_epoch c = epoch \<and> refines q c) \<and> phase a = ph"

lemma at_state_keep:
  "keeps_current m \<Longrightarrow> at_state rid epoch q ph a \<Longrightarrow> wpE m (\<lambda>_. at_state rid epoch q ph) (\<lambda>e _. \<not> protocol_error e) a"
  by (rule keeps_currentD) (auto simp: at_state_def)

lemma at_state_then:
  assumes "keeps_current m" "at_state rid epoch q ph a"
    "\<And>b. at_state rid epoch q ph b \<Longrightarrow> wpE k Q (\<lambda>e _. \<not> protocol_error e) b"
  shows "wpE (thenE m k) Q (\<lambda>e _. \<not> protocol_error e) a"
  unfolding wpE_thenE by (rule wpE_mono [OF at_state_keep [OF assms(1,2)]]) (auto intro: assms(3))

lemma at_state_update:
  "at_state rid epoch q ph a \<Longrightarrow> same_response f \<Longrightarrow> (\<And>c. refines q c \<Longrightarrow> refines q' (f c)) \<Longrightarrow>
   at_state rid epoch q' ph (update_current f a)"
  by (auto simp: at_state_def update_current_def same_response_def)

lemma tool_started_simulates:
  assumes "at_state rid epoch Reasoning ph a"
  shows "wpE (on_tool_started i m x) (\<lambda>_. at_state rid epoch (InTool i m) ph) (\<lambda>e _. \<not> protocol_error e) a"
proof -
  let ?f = "\<lambda>c. c\<lparr>pending_tool := Some \<lparr>pending_call_id = i, pending_name = m, pending_input = x\<rparr>\<rparr>"
  have "at_state rid epoch (InTool i m) ph (update_current ?f a)"
    by (rule at_state_update [OF assms]) (auto simp: same_response_def)
  with at_state_keep [OF keeps_emit_event this] assms show ?thesis
    by (auto simp: on_tool_started_def wp at_state_def)
qed

lemma take_pending_simulates:
  assumes "at_state rid epoch (InTool i m) ph a"
  shows "wpE (take_pending_tool mis mm i m) (\<lambda>_. at_state rid epoch Reasoning ph) (\<lambda>e _. \<not> protocol_error e) a"
proof -
  have "at_state rid epoch Reasoning ph (update_current (\<lambda>c. c\<lparr>pending_tool := None\<rparr>) a)"
    by (rule at_state_update [OF assms]) (auto simp: same_response_def)
  moreover obtain c call where "current_response a = Some c" "pending_tool c = Some call" "pending_call_id call = i"
    "pending_name call = m" using assms by (auto simp: at_state_def)
  ultimately show ?thesis by (simp add: take_pending_tool_def wp)
qed

lemma tool_completed_simulates:
  assumes "at_state rid epoch (InTool i m) ph a"
  shows "wpE (on_tool_completed enc i m out cached) (\<lambda>_. at_state rid epoch Reasoning ph) (\<lambda>e _. \<not> protocol_error e) a"
  unfolding on_tool_completed_def wpE_bindE
  by (rule wpE_mono [OF take_pending_simulates [OF assms]])
    (auto intro!: at_state_keep keeps_then keeps_push_group keeps_emit_event)

lemma tool_failed_simulates:
  assumes "at_state rid epoch (InTool i m) ph a"
  shows "wpE (on_tool_failed i m code) (\<lambda>_. at_state rid epoch ToolBroken ph) (\<lambda>e _. \<not> protocol_error e) a"
proof -
  have "at_state rid epoch Reasoning ph b \<Longrightarrow> at_state rid epoch ToolBroken ph b" for b by (simp add: at_state_def)
  then show ?thesis
    unfolding on_tool_failed_def wpE_bindE
    by (intro wpE_mono [OF take_pending_simulates [OF assms]]) (auto intro: at_state_keep keeps_emit_event)
qed

lemma reasoning_completed_simulates:
  assumes "at_state rid epoch Reasoning ph a"
  shows "wpE (thenE (modifyE (update_current (\<lambda>c. c\<lparr>pending_assistant := Some tx\<rparr>))) (emit_event ty s pr pl))
    (\<lambda>_. at_state rid epoch Answered ph) (\<lambda>e _. \<not> protocol_error e) a"
proof -
  have "at_state rid epoch Answered ph (update_current (\<lambda>c. c\<lparr>pending_assistant := Some tx\<rparr>) a)"
    by (rule at_state_update [OF assms]) (auto simp: same_response_def)
  from at_state_keep [OF keeps_emit_event this] show ?thesis by (simp add: wp)
qed

lemma response_completed_simulates:
  assumes "at_state rid epoch Spoken ph a"
  shows "wpE (on_response_completed enc rid epoch) (\<lambda>_ b. current_response b = None) (\<lambda>e _. \<not> protocol_error e) a"
proof -
  obtain c tx where c: "current_response a = Some c" "pending_tool c = None" "pending_assistant c = Some tx"
    using assms by (auto simp: at_state_def)
  have "wpE (thenE (push_group enc [Assistant tx]) (emit_server mk)) (\<lambda>_ b. current_response b = None)
      (\<lambda>e _. \<not> protocol_error e) (drop_current a)" for mk
    by (intro wpE_keep_then keeps_push_group keeps_currentD [OF keeps_emit_server]) (simp add: drop_current_def)
  with c show ?thesis by (simp add: on_response_completed_def wp)
qed

lemma at_state_step:
  assumes "keeps_current m" "at_state rid epoch q ph a" "\<And>c. refines q c \<Longrightarrow> refines q' c"
  shows "wpE m (\<lambda>_. at_state rid epoch q' ph) (\<lambda>e _. \<not> protocol_error e) a"
  by (rule wpE_mono [OF at_state_keep [OF assms(1,2)]]) (use assms(3) in \<open>auto simp: at_state_def\<close>)

definition simulated :: "string \<Rightarrow> u64 \<Rightarrow> response_state \<Rightarrow> SessionPhase \<Rightarrow> SessionActor \<Rightarrow> bool" where
  "simulated rid epoch q ph a \<longleftrightarrow> (if q = Ended then current_response a = None else at_state rid epoch q ph a)"

lemma simulated_simps:
  "q \<noteq> Ended \<Longrightarrow> simulated rid epoch q ph = at_state rid epoch q ph"
  "simulated rid epoch Ended ph = (\<lambda>a. current_response a = None)"
  by (simp_all add: fun_eq_iff simulated_def)

lemma pipeline_event_simulates:
  assumes a: "at_state rid epoch q ph a" and ph: "\<not> is_terminal_phase ph" and acc: "accept q ev = Some q'"
  shows "wpE (pipeline_event enc rid epoch ev) (\<lambda>_. simulated rid epoch q' ph) (\<lambda>e _. \<not> protocol_error e) a"
proof -
  have fail: "wpE (fail_session code msg) (\<lambda>_. simulated rid epoch Ended ph) (\<lambda>e _. \<not> protocol_error e) a" for code msg
    by (rule wpE_mono [OF fail_session_ends]) (use a ph in \<open>auto simp: simulated_simps at_state_def\<close>)
  show ?thesis
  proof (cases ev)
    case (ReasoningDelta tx)
    with acc have "q = Reasoning" "q' = Reasoning" by (cases q; simp)+
    with a ReasoningDelta show ?thesis
      by (auto simp: pipeline_event_def simulated_simps intro!: at_state_keep keeps_rules)
  next
    case (ToolStarted i m x)
    with acc have "q = Reasoning" "q' = InTool i m" by (cases q; simp)+
    with a ToolStarted tool_started_simulates show ?thesis by (simp add: pipeline_event_def simulated_simps)
  next
    case (ToolCompleted i m out cached)
    with acc have "q = InTool i m" "q' = Reasoning" by (cases q; simp split: if_splits)+
    with a ToolCompleted tool_completed_simulates show ?thesis by (simp add: pipeline_event_def simulated_simps)
  next
    case (ToolFailed i m code)
    with acc have "q = InTool i m" "q' = ToolBroken" by (cases q; simp split: if_splits)+
    with a ToolFailed tool_failed_simulates show ?thesis by (simp add: pipeline_event_def simulated_simps)
  next
    case (ReasoningCompleted tx)
    with acc have "q = Reasoning" "q' = Answered" by (cases q; simp)+
    with a ReasoningCompleted reasoning_completed_simulates show ?thesis
      by (simp add: pipeline_event_def simulated_simps)
  next
    case TtsStarted
    with acc have "q = Answered" "q' = Speaking 0" by (cases q; simp)+
    with a TtsStarted show ?thesis
      by (auto simp: pipeline_event_def simulated_simps intro!: at_state_step keeps_rules)
  next
    case (Audio k bytes)
    with acc have "q = Speaking k" "q' = Speaking (k + 1)" by (cases q; simp split: if_splits)+
    with a Audio show ?thesis
      by (auto simp: pipeline_event_def simulated_simps intro!: at_state_step keeps_rules)
  next
    case TtsCompleted
    with acc obtain k where "q = Speaking k" "q' = Spoken" by (cases q) (auto split: if_splits)
    with a TtsCompleted show ?thesis
      by (auto simp: pipeline_event_def simulated_simps intro!: at_state_step keeps_rules)
  next
    case Completed
    with acc have "q = Spoken" "q' = Ended" by (cases q; simp)+
    with a Completed response_completed_simulates show ?thesis by (simp add: pipeline_event_def simulated_simps)
  next
    case (Failed e)
    with acc have "q' = Ended" by (cases q) simp_all
    with Failed fail show ?thesis by (simp add: pipeline_event_def)
  qed
qed

lemma handle_pipeline_simulates:
  assumes "simulated rid epoch q ph a" "\<not> is_terminal_phase ph" "accept q ev = Some q'"
  shows "wpE (handle_pipeline enc rid epoch ev) (\<lambda>_. simulated rid epoch q' ph) (\<lambda>e _. \<not> protocol_error e) a"
proof -
  have "q \<noteq> Ended" using assms(3) by (cases ev) auto
  then have a: "at_state rid epoch q ph a" using assms(1) by (simp add: simulated_def)
  then have "is_current rid epoch a" by (auto simp: at_state_def is_current_def)
  with pipeline_event_simulates [OF a assms(2,3)] show ?thesis by (simp add: handle_pipeline_def wp)
qed

text \<open>The events of one task, handled in order.\<close>

definition handle_events :: "message_encoder \<Rightarrow> string \<Rightarrow> u64 \<Rightarrow> PipelineEvent list \<Rightarrow> unit session" where
  "handle_events enc rid epoch evs = seqE (map (handle_pipeline enc rid epoch) evs)"

lemma handle_events_simulates:
  assumes "simulated rid epoch q ph a" "\<not> is_terminal_phase ph" "accept_all q evs = Some q'"
  shows "wpE (handle_events enc rid epoch evs) (\<lambda>_. simulated rid epoch q' ph) (\<lambda>e _. \<not> protocol_error e) a"
  using assms
proof (induction evs arbitrary: q a)
  case (Cons ev evs)
  obtain q1 where q1: "accept q ev = Some q1" "accept_all q1 evs = Some q'"
    using Cons.prems(3) by (auto split: option.splits)
  have "simulated rid epoch q1 ph b \<Longrightarrow>
      wpE (seqE (map (handle_pipeline enc rid epoch) evs)) (\<lambda>_. simulated rid epoch q' ph) (\<lambda>e _. \<not> protocol_error e) b" for b
    using Cons.IH [OF _ Cons.prems(2) q1(2)] by (simp add: handle_events_def)
  then show ?case
    by (auto simp: handle_events_def wp intro: wpE_mono [OF handle_pipeline_simulates [OF Cons.prems(1,2) q1(1)]])
qed (simp add: handle_events_def wp)

subsection \<open>Properties\<close>

text \<open>
  C21 (refinement). The actor refines the protocol automaton of a response: handling any prefix
  of what the response task sends, its pending tool call and retained text follow the state of
  the automaton, and none of the errors that report a broken task protocol is ever raised.
\<close>

theorem response_events_refine_automaton:
  fixes l reason synthesize ser executor co req voice rate sid k
  assumes lim: "max_response_text_bytes l < u64_max" "max_response_audio_bytes l < u64_max"
    and open_session: "phase a = Active"
    and fresh: "current_response a = Some c" "pending_tool c = None" "pending_assistant c = None"
  defines "evs \<equiv> take k (response_pipeline l reason synthesize ser executor co req voice rate sid (cur_id c))"
  shows "\<exists>q. accept_all Reasoning evs = Some q \<and>
    (case handle_events enc (cur_id c) (cur_epoch c) evs a of
       (Inl e, _) \<Rightarrow> \<not> protocol_error e
     | (Inr _, b) \<Rightarrow> (case current_response b of None \<Rightarrow> q = Ended
         | Some d \<Rightarrow> cur_id d = cur_id c \<and> cur_epoch d = cur_epoch c \<and> refines q d))"
proof -
  obtain q where q: "accept_all Reasoning evs = Some q"
    using response_pipeline_facts [OF lim] accept_all_take unfolding evs_def by blast
  have "simulated (cur_id c) (cur_epoch c) Reasoning Active a"
    using open_session fresh by (simp add: simulated_def at_state_def)
  from handle_events_simulates [OF this _ q, of enc]
  have "wpE (handle_events enc (cur_id c) (cur_epoch c) evs) (\<lambda>_. simulated (cur_id c) (cur_epoch c) q Active)
      (\<lambda>e _. \<not> protocol_error e) a" by (simp add: is_terminal_phase_def)
  with q show ?thesis
    by (auto simp: wpE_def simulated_def at_state_def split: sum.splits prod.splits if_splits option.splits)
qed

theorem response_events_refine_automaton_witness:
  "\<exists>q. accept_all Reasoning (take 4 demo_response) = Some q \<and> q = Answered \<and>
     (case handle_events (\<lambda>_. Inr 10) ''r'' 1 (take 4 demo_response)
        (demo_actor\<lparr>phase := Active, current_response := Some \<lparr>cur_id = ''r'', cur_epoch = 1, cur_token = 0,
           pending_assistant = None, pending_tool = None\<rparr>\<rparr>) of
        (Inl e, _) \<Rightarrow> \<not> protocol_error e
      | (Inr _, b) \<Rightarrow> (case current_response b of None \<Rightarrow> q = Ended
          | Some d \<Rightarrow> cur_id d = ''r'' \<and> cur_epoch d = 1 \<and> refines q d))"
proof -
  let ?c = "\<lparr>cur_id = ''r'', cur_epoch = 1, cur_token = 0, pending_assistant = None, pending_tool = None\<rparr>"
  have "accept_all Reasoning (take 4 demo_response) = Some Answered"
    unfolding demo_response_events by simp
  then show ?thesis
    using response_events_refine_automaton [of demo_limits "demo_actor\<lparr>phase := Active, current_response := Some ?c\<rparr>" ?c
        4 demo_reason "\<lambda>_. [Item (Inr [1, 2])]" demo_ser "\<lambda>_. ExecReturned (Inr (JBool True))" demo_coordinator
        "\<lparr>instructions = [], messages = []\<rparr>" "''v''" 16000 "''s''" "\<lambda>_. Inr 10"]
    by (simp add: u64_max_def split: prod.splits sum.splits option.splits)
qed

end
