(* ===== verification/SessionBounds.thy ===== *)
theory SessionBounds
  imports ActorInv
begin

text \<open>
  What holds in every state a session reaches, for every list of deliveries to its loop and every
  behaviour of the event worker and of the client: bounded memory, numbered envelopes, fenced
  tasks; and the equivalence of the duplicate filter with its specification.
\<close>

lemmas session_eval = run_loop_def run_prologue_def loop_body_def loop_tail_def handle_control_def handle_client_def
  client_message_def complete_def cancel_session_def finish_with_def interrupt_current_def emit_event_def
  emit_terminal_event_def emit_server_def emit_with_def emit_output_def next_server_envelope_def publish_now_def
  environment_def errorE_defs actor_update_defs is_terminal_phase_def terminal_reason_code_def
  try_publish_def publish_terminal_def is_terminal_event_def has_room_def enqueue_def pending_event_def
  is_duplicate_message_def remember_message_def on_session_start_def on_input_text_def require_active_def
  emit_transcript_def start_response_def push_group_def push_history_group_def history_limits_of_def
  history_new_def evict_until.simps over_limit_def append_messages_def checked_add_def saturating_add_def
  u64_max_def chan_new_def chan_pending_def chan_try_send_def Let_def

abbreviation demo_envelope :: "string \<Rightarrow> RealtimeEnvelope" where
  "demo_envelope mid \<equiv> \<lparr>env_protocol_version = 1, env_session_id = ''ses_01JABCDEF'', env_message_id = mid,
     env_runtime_generation = 1\<rparr>"

lemma demo_envelope_ok:
  "envelope_validate (demo_envelope ''m1'') ''ses_01JABCDEF'' 1 = Inr ()"
  "envelope_validate (demo_envelope ''m2'') ''ses_01JABCDEF'' 1 = Inr ()"
  "envelope_validate (demo_envelope ''m3'') ''ses_01JABCDEF'' 1 = Inr ()"
  by (simp_all add: envelope_validate_def PROTOCOL_VERSION_def ident_eval)

abbreviation demo_turn :: "loop_event list" where
  "demo_turn \<equiv> [MediaRecv (Some (OrderedControl (SessionStart (demo_envelope ''m1'')))),
     MediaRecv (Some (OrderedControl (InputText (demo_envelope ''m2'') ''hi'')))]"

lemma demo_turn_run:
  "\<exists>a. run_loop (\<lambda>_. Inr 10) demo_turn demo_actor = (None, a) \<and> phase a = Active \<and> response_epoch a = 1 \<and>
     input_epoch a = 1 \<and> message_sequence a = 3 \<and> length (chan_sent (output_tx a)) = 3 \<and>
     history (conversation a) = [User ''hi''] \<and> length (responses a) = 1 \<and> current_response a \<noteq> None"
  unfolding demo_actor_def initial_actor_def
  by (simp add: session_eval default_config_def client_validate_def demo_envelope_ok [unfolded One_nat_def])

text \<open>The client speaks again before the first response has ended.\<close>

lemma demo_barge_in_run:
  "\<exists>a. run_loop (\<lambda>_. Inr 10) (demo_turn @ [MediaRecv (Some (OrderedControl (InputText (demo_envelope ''m3'') ''no'')))])
       demo_actor = (None, a) \<and> response_epoch a = 2 \<and> input_epoch a = 2 \<and> (\<exists>s t. responses a = [s, t])"
  unfolding demo_actor_def initial_actor_def
  by (simp add: session_eval default_config_def client_validate_def demo_envelope_ok [unfolded One_nat_def]
      played_through_ms_def)

subsection \<open>The duplicate filter and its specification\<close>

text \<open>
  The filter keeps a ring of the last 1,024 identifiers and a hash set of the same identifiers.
  Its specification is one line: a message is a duplicate when its identifier is among the last
  1,024 accepted.
\<close>

fun dedup_spec :: "string list \<Rightarrow> string list \<Rightarrow> bool list" where
  "dedup_spec seen [] = []"
| "dedup_spec seen (m # ms) =
     (let dup = m \<in> set (drop (length seen - 1024) seen) in
      dup # dedup_spec (if dup then seen else seen @ [m]) ms)"

fun dedup_run :: "string list \<Rightarrow> SessionActor \<Rightarrow> (RuntimeError + bool) list" where
  "dedup_run [] a = []"
| "dedup_run (m # ms) a = (case is_duplicate_message m a of (r, a') \<Rightarrow> r # dedup_run ms a')"

definition dedup_rel :: "string list \<Rightarrow> SessionActor \<Rightarrow> bool" where
  "dedup_rel seen a \<longleftrightarrow> dedup_inv a \<and> recent_message_ids a = drop (length seen - 1024) seen"

lemma dedup_rel_remember:
  assumes rel: "dedup_rel seen a" and new: "m \<notin> recent_message_set a"
  shows "dedup_rel (seen @ [m]) (remember_message m a)"
proof -
  let ?ids = "recent_message_ids a"
  obtain ids st where e: "expire_ids ?ids (recent_message_set a) = (ids, st)" by fastforce
  have d: "distinct ?ids" "set ?ids = recent_message_set a" and l: "?ids = drop (length seen - 1024) seen"
    using rel unfolding dedup_rel_def dedup_inv_def by blast+
  have "length ?ids = length seen - (length seen - 1024)" using l by simp
  then have n: "Suc (length ?ids) - 1024 + (length seen - 1024) = Suc (length seen) - 1024" by arith
  from expire_ids_spec [OF e d] have "ids = drop (Suc (length ?ids) - 1024) (drop (length seen - 1024) seen)"
    using l by metis
  then have "ids = drop (Suc (length seen) - 1024) seen" by (simp only: drop_drop n)
  then have "recent_message_ids (remember_message m a) = drop (length (seen @ [m]) - 1024) (seen @ [m])"
    using e by (simp add: remember_message_def)
  moreover have "dedup_inv (remember_message m a)"
    using rel new by (auto simp: dedup_rel_def intro: dedup_remember)
  ultimately show ?thesis by (simp add: dedup_rel_def)
qed

lemma dedup_run_spec: "dedup_rel seen a \<Longrightarrow> dedup_run ms a = map Inr (dedup_spec seen ms)"
proof (induction ms arbitrary: seen a)
  case (Cons m ms)
  have s: "m \<in> set (drop (length seen - 1024) seen) \<longleftrightarrow> m \<in> recent_message_set a"
    using Cons.prems unfolding dedup_rel_def dedup_inv_def by metis
  show ?case
  proof (cases "m \<in> recent_message_set a")
    case True
    with s Cons show ?thesis by (simp add: is_duplicate_message_def errorE_defs)
  next
    case False
    with s Cons.IH [OF dedup_rel_remember [OF Cons.prems False]] show ?thesis
      by (simp add: is_duplicate_message_def errorE_defs Let_def)
  qed
qed simp

subsection \<open>Properties\<close>

text \<open>
  C20 (equivalence). The duplicate filter, a ring of 1,024 identifiers with a hash set beside
  it, gives on every sequence of messages the same answers as its one-line specification: a
  message is a duplicate when its identifier is among the last 1,024 accepted.
\<close>

theorem duplicate_filter_is_window:
  "dedup_run ms (initial_actor cfg ctx caps p po env) = map Inr (dedup_spec [] ms)"
  by (rule dedup_run_spec) (simp add: dedup_rel_def dedup_inv_def initial_actor_def)

text \<open>
  C17 (bounds). In every state a session reaches, the conversation history, its encoded size,
  the audio buffer, the duplicate window, the playout window, the output queue and the event
  spool are within the configured bounds, and every tool call of the history stands next to its
  result.
\<close>

theorem session_memory_bounded:
  assumes "spawned cfg ctx n a0" and "config_wf cfg" and run: "run_loop enc evs a0 = (r, a)"
  shows "length (history (conversation a)) \<le> cfg_max_history_messages cfg \<and>
    total_size enc (history (conversation a)) \<le> max_history_bytes cfg \<and> grouped (history (conversation a)) \<and>
    length (audio_buffer a) \<le> max_buffered_audio_bytes cfg \<and> length (recent_message_ids a) \<le> 1024 \<and>
    playout_len (playout a) \<le> playout_history_capacity cfg \<and>
    length (chan_pending (output_tx a)) \<le> output_capacity cfg \<and>
    length (chan_pending (ep_chan (events a))) \<le> n + 1"
proof -
  have "actor_inv enc cfg n a0" using assms(1,2) by (rule spawned_actor_inv)
  then have "actor_inv enc cfg n a" using bounded_actor.run_loop_ok [OF _ run] by (simp split: if_splits)
  then show ?thesis
    by (auto simp: actor_inv_def history_inv_def fits_def history_limits_of_def dedup_inv_def playout_wf_def
        playout_len_def pipeline_inv_def spool_inv_def dest!: lane.bounded)
qed

theorem session_memory_bounded_witness:
  "\<exists>a. run_loop (\<lambda>_. Inr 10) demo_turn demo_actor = (None, a) \<and> history (conversation a) = [User ''hi''] \<and>
     length (chan_pending (output_tx a)) \<le> 128"
proof -
  obtain a where a: "run_loop (\<lambda>_. Inr 10) demo_turn demo_actor = (None, a)" "history (conversation a) = [User ''hi'']"
    using demo_turn_run by blast
  from session_memory_bounded [OF demo_spawned demo_config_wf a(1)] a show ?thesis
    by (simp add: default_config_def)
qed

text \<open>
  C18 (invariant). Every message the session sends carries the version, session and generation
  of its tenant and a server message identifier with strictly increasing number: identifiers
  never repeat.
\<close>

theorem session_envelopes_numbered:
  assumes "spawned cfg ctx n a0" and run: "run_loop enc evs a0 = (r, a)" and "message_sequence a < u64_max"
  shows "\<exists>ks. map output_envelope (chan_sent (output_tx a)) =
      map (\<lambda>k. envelope_server (session_id ctx) (runtime_generation ctx) (''server-'' @ string_of_nat k)) ks \<and>
    sorted_wrt (<) ks \<and> distinct (map (env_message_id \<circ> output_envelope) (chan_sent (output_tx a)))"
proof -
  have "envelopes_inv ctx a"
    using numbered_actor.run_loop_ok [OF spawned_envelopes [OF assms(1)] run] by (simp split: if_splits)
  with assms(3) obtain ks where ks: "map output_envelope (chan_sent (output_tx a)) = map (nth_envelope ctx) ks"
    "sorted_wrt (<) ks" by (auto simp: envelopes_inv_def)
  have "distinct (map (env_message_id \<circ> nth_envelope ctx) ks)"
    using ks(2) by (auto simp: distinct_map inj_on_def nth_envelope_def envelope_server_def strict_sorted_iff)
  moreover have "map (env_message_id \<circ> output_envelope) (chan_sent (output_tx a)) =
      map (env_message_id \<circ> nth_envelope ctx) ks" using ks(1) by (metis map_map)
  ultimately show ?thesis using ks by (intro exI [of _ ks]) (auto simp: nth_envelope_def)
qed

theorem session_envelopes_numbered_witness:
  "\<exists>a. run_loop (\<lambda>_. Inr 10) demo_turn demo_actor = (None, a) \<and> length (chan_sent (output_tx a)) = 3 \<and>
     distinct (map (env_message_id \<circ> output_envelope) (chan_sent (output_tx a)))"
proof -
  obtain a where a: "run_loop (\<lambda>_. Inr 10) demo_turn demo_actor = (None, a)"
    "message_sequence a = 3" "length (chan_sent (output_tx a)) = 3" using demo_turn_run by blast
  from session_envelopes_numbered [OF demo_spawned a(1)] a show ?thesis by (auto simp: u64_max_def)
qed

text \<open>
  C19 (safety). The epochs of the responses a session spawns strictly increase; every event of a
  superseded or ended response is ignored without any effect, and after a barge-in so is every
  update of every transcription started before it.
\<close>

theorem stale_tasks_fenced:
  assumes "spawned cfg ctx n a0" and run: "run_loop enc evs a0 = (r, a)"
    and "response_epoch a < u64_max" and "input_epoch a < u64_max"
  shows "sorted_wrt (<) (map sp_epoch (responses a)) \<and>
    (\<forall>s ev. s \<in> set (butlast (responses a)) \<or> s \<in> set (responses a) \<and> current_response a = None \<longrightarrow>
       handle_pipeline enc (sp_id s) (sp_epoch s) ev a = (Inr (), a)) \<and>
    (\<forall>s u. s \<in> set (transcriptions a) \<longrightarrow>
       handle_stt_update enc (st_epoch s) (st_turn s) u (begin_input a) = (Inr (), begin_input a))"
proof -
  have inv: "tasks_inv (\<le>) a"
    using fenced_actor.run_loop_ok [OF spawned_tasks [OF assms(1)] run] by (simp split: if_splits)
  then have sorted: "sorted_wrt (<) (map sp_epoch (responses a))"
    using assms(3) by (simp add: tasks_inv_def responses_below_def)
  have "\<not> is_current (sp_id s) (sp_epoch s) a"
    if s: "s \<in> set (butlast (responses a)) \<or> s \<in> set (responses a) \<and> current_response a = None" for s
  proof (cases "current_response a")
    case (Some c)
    then have l: "responses a \<noteq> []" "sp_epoch (last (responses a)) = cur_epoch c"
      using inv by (auto simp: tasks_inv_def same_task_def)
    have "responses a = butlast (responses a) @ [last (responses a)]" using l(1) by simp
    then have "sorted_wrt (<) (map sp_epoch (butlast (responses a) @ [last (responses a)]))" using sorted by metis
    then have "sp_epoch s < cur_epoch c" using s Some l(2) by (auto simp: sorted_wrt_append)
    with Some show ?thesis by (simp add: is_current_def)
  qed (simp add: is_current_def)
  then have "handle_pipeline enc (sp_id s) (sp_epoch s) ev a = (Inr (), a)"
    if "s \<in> set (butlast (responses a)) \<or> s \<in> set (responses a) \<and> current_response a = None" for s ev
    using that by (simp add: handle_pipeline_def readE_def returnE_def)
  moreover have "handle_stt_update enc (st_epoch s) (st_turn s) u (begin_input a) = (Inr (), begin_input a)"
    if "s \<in> set (transcriptions a)" for s u
  proof -
    have "input_epoch (begin_input a) = Suc (input_epoch a)"
      using assms(4)
      by (simp add: begin_input_def cancel_input_def abort_input_def Let_def saturating_add_def split: option.split)
    moreover have "st_epoch s \<le> input_epoch a" using inv that by (simp add: tasks_inv_def)
    ultimately show ?thesis by (simp add: handle_stt_update_def readE_def returnE_def)
  qed
  ultimately show ?thesis using sorted by blast
qed

theorem stale_tasks_fenced_witness:
  "\<exists>a s t. run_loop (\<lambda>_. Inr 10) (demo_turn @ [MediaRecv (Some (OrderedControl (InputText (demo_envelope ''m3'') ''no'')))])
       demo_actor = (None, a) \<and> responses a = [s, t] \<and>
     (\<forall>ev. handle_pipeline (\<lambda>_. Inr 10) (sp_id s) (sp_epoch s) ev a = (Inr (), a))"
proof -
  obtain a where a: "run_loop (\<lambda>_. Inr 10) (demo_turn @
      [MediaRecv (Some (OrderedControl (InputText (demo_envelope ''m3'') ''no'')))]) demo_actor = (None, a)"
    "response_epoch a = 2" "input_epoch a = 2" "\<exists>s t. responses a = [s, t]" using demo_barge_in_run by blast
  from a(4) obtain s t where "responses a = [s, t]" by blast
  with stale_tasks_fenced [OF demo_spawned a(1)] a show ?thesis by (auto simp: u64_max_def)
qed

end
