(* ===== verification/Supervisor.thy ===== *)
theory Supervisor
  imports ActorInv
begin

text \<open>
  The supervisor of a runtime shard (\<open>supervisor.rs\<close>): the registries of active and of prepared
  sessions, admission, attachment, cancellation, expiry and draining. Every critical section of
  the source (between taking a lock and dropping it) is one action; an operation with several
  sections, or with signals to a session between them, is their sequence, and the step relation
  \<open>shard_step\<close> (theory \<open>ShardInv\<close>) interleaves the sections and signals of concurrent requests.

  External: the deployment resolver (\<open>resolve\<close>), the JSON printer and URL parser of manifest
  validation (\<open>ser\<close>, \<open>url_scheme\<close>), the clock (\<open>now\<close>), the actors behind the handles (\<open>as_finished\<close>
  is set by the environment) and the outcome of waiting for them. \<open>'x\<close> is the type of the
  runtime service access, which is only handed to the resolver.
\<close>

subsection \<open>Configuration and state\<close>

definition DEFAULT_PREPARED_SESSION_TTL :: duration where
  "DEFAULT_PREPARED_SESSION_TTL = from_secs 120"

record ShardConfig =
  max_sessions :: usize
  shard_session :: SessionConfig
  event_spool_capacity :: usize
  event_batch_size :: usize
  event_retry :: EventRetryPolicy
  shutdown_grace :: duration
  prepared_session_ttl :: duration

definition default_shard_config :: ShardConfig where
  "default_shard_config =
     \<lparr>max_sessions = 128, shard_session = default_config, event_spool_capacity = 512, event_batch_size = 32,
      event_retry = default_retry, shutdown_grace = from_secs 10,
      prepared_session_ttl = DEFAULT_PREPARED_SESSION_TTL\<rparr>"

definition shard_config_validate :: "ShardConfig \<Rightarrow> unit result" where
  "shard_config_validate c =
     andR (config_validate (shard_session c))
       (if max_sessions c = 0 \<or> event_spool_capacity c = 0 \<or> event_batch_size c = 0
           \<or> event_batch_size c > event_spool_capacity c
           \<or> max_attempts (event_retry c) = 0 \<or> initial_backoff (event_retry c) = 0
           \<or> initial_backoff (event_retry c) > max_backoff (event_retry c)
           \<or> shutdown_grace c = 0 \<or> prepared_session_ttl c = 0
        then Inl (InvalidRequest ''invalid runtime shard budget'') else Inr ())"

type_synonym fingerprint = "byte list"

record 'x SessionPreparation =
  prep_context :: TenantContext
  prep_manifest :: AgentManifest
  runtime_service_access :: "'x option"
  prep_fingerprint :: fingerprint
  prep_attachment_fingerprint :: fingerprint

datatype PreparationStatus = Created | Existing

record PreparedSession =
  pr_context :: TenantContext
  pr_session_config :: SessionConfig
  pr_providers :: ProviderSet
  pr_fingerprint :: fingerprint
  pr_attachment_fingerprint :: fingerprint
  expires_at :: nat

record ActiveSession =
  as_handle :: SessionHandle
  as_finished :: bool
  as_fingerprint :: "fingerprint option"
  as_attachment_fingerprint :: "fingerprint option"
  as_aborted :: bool
  as_actor :: nat

text \<open>
  \<open>as_actor\<close> identifies the actor behind a handle: the clones of a handle that a request keeps reach this
  actor, also when the registry has another entry under its identifier by then. \<open>sessions_poisoned\<close> and
  \<open>prepared_poisoned\<close>: a thread panicked while it held the lock of the registry. \<open>timers\<close> are
  the pending expiry tasks (identifier, fingerprint, due time); \<open>failures\<close> logs the preparations
  for which \<open>publish_prepared_failure\<close> was called, with the reported code.
\<close>

record ShardSupervisor =
  sup_config :: ShardConfig
  sup_providers :: ProviderSet
  boot_id :: string
  accepting :: bool
  sessions :: "(string, ActiveSession) hash_map"
  prepared :: "(string, PreparedSession) hash_map"
  sessions_poisoned :: bool
  prepared_poisoned :: bool
  next_actor :: nat
  timers :: "(string \<times> fingerprint \<times> nat) list"
  failures :: "(PreparedSession \<times> string) list"

type_synonym 'a shard = "(ShardSupervisor, RuntimeError, 'a) action"

definition new_supervisor :: "string \<Rightarrow> ShardConfig \<Rightarrow> ProviderSet \<Rightarrow> ShardSupervisor result" where
  "new_supervisor uuid cfg ps =
     andR (shard_config_validate cfg) (Inr
       \<lparr>sup_config = cfg, sup_providers = ps, boot_id = ''boot_'' @ uuid, accepting = True, sessions = [],
        prepared = [], sessions_poisoned = False, prepared_poisoned = False, next_actor = 0, timers = [], failures = []\<rparr>)"

subsection \<open>Checks\<close>

definition validate_active_entry :: "ActiveSession \<Rightarrow> TenantContext \<Rightarrow> fingerprint \<Rightarrow> unit result" where
  "validate_active_entry e ctx att =
     (let c = hnd_context (as_handle e) in
      if runtime_generation c \<noteq> runtime_generation ctx
      then Inl (GenerationMismatch (runtime_generation c) (runtime_generation ctx))
      else if organization_id c \<noteq> organization_id ctx \<or> project_id c \<noteq> project_id ctx
        \<or> deployment_id c \<noteq> deployment_id ctx
      then Inl (InvalidRequest ''active session tenant context does not match cancellation'')
      else if as_attachment_fingerprint e \<noteq> Some att
      then Inl (InvalidRequest ''active session ingest binding does not match cancellation'')
      else Inr ())"

definition validate_prepared_entry :: "nat \<Rightarrow> PreparedSession \<Rightarrow> TenantContext \<Rightarrow> fingerprint \<Rightarrow> unit result" where
  "validate_prepared_entry now p ctx att =
     (let c = pr_context p in
      if expires_at p \<le> now then Inl (InvalidState ''prepared session expired'')
      else if runtime_generation c \<noteq> runtime_generation ctx
      then Inl (GenerationMismatch (runtime_generation c) (runtime_generation ctx))
      else if organization_id c \<noteq> organization_id ctx \<or> project_id c \<noteq> project_id ctx
        \<or> deployment_id c \<noteq> deployment_id ctx
      then Inl (InvalidRequest ''prepared session tenant context does not match attachment'')
      else if pr_attachment_fingerprint p \<noteq> att
      then Inl (InvalidRequest ''prepared session ingest binding does not match attachment'')
      else Inr ())"

definition lock_sessions :: "unit shard" where
  "lock_sessions = readE sessions_poisoned (\<lambda>bad.
     if bad then throwE (Internal ''session registry lock poisoned'') else returnE ())"

definition lock_prepared :: "unit shard" where
  "lock_prepared = readE prepared_poisoned (\<lambda>bad.
     if bad then throwE (Internal ''prepared registry lock poisoned'') else returnE ())"

definition reap :: "ShardSupervisor \<Rightarrow> ShardSupervisor" where
  "reap s = s\<lparr>sessions := filter (\<lambda>(_, e). \<not> as_finished e) (sessions s)\<rparr>"

definition panic_locked :: "'a shard" where
  "panic_locked =
     thenE (modifyE (\<lambda>s. s\<lparr>sessions_poisoned := True\<rparr>)) (throwE (Internal ''session constructor panicked''))"

text \<open>
  The monotonic clock in nanoseconds; an instant has a signed 64-bit number of seconds, and adding a
  duration panics beyond its range.
\<close>

definition instant_max :: nat where
  "instant_max = (2 ^ 63 - 1) * 10 ^ 9 + (10 ^ 9 - 1)"

definition instant_add :: "nat \<Rightarrow> duration \<Rightarrow> nat option" where
  "instant_add now d = (if now + d \<le> instant_max then Some (now + d) else None)"

definition panic_both_locked :: "'a shard" where
  "panic_both_locked =
     thenE (modifyE (\<lambda>s. s\<lparr>sessions_poisoned := True, prepared_poisoned := True\<rparr>))
       (throwE (Internal ''overflow when adding duration to instant''))"

subsection \<open>Preparation\<close>

definition prepared_config :: "SessionConfig \<Rightarrow> AgentManifest \<Rightarrow> SessionConfig" where
  "prepared_config base m =
     (let d = agent_definition m in
      base\<lparr>max_session_duration := from_secs (max_session_seconds (agent_limits d)),
        cfg_max_history_messages := max_history_messages (agent_limits d),
        cfg_sample_rate_hz := voice_sample_rate_hz (agent_voice d),
        cfg_voice_id := voice_id (agent_voice d),
        cfg_instructions := agent_instructions d,
        cfg_required_capabilities := required_capabilities m\<rparr>)"

definition prepare_checks ::
  "serializer \<Rightarrow> (string \<Rightarrow> string option) \<Rightarrow> (AgentManifest \<Rightarrow> 'x option \<Rightarrow> ProviderSet result) \<Rightarrow>
   'x SessionPreparation \<Rightarrow> (SessionConfig \<times> ProviderSet) shard" where
  "prepare_checks ser url_scheme resolve p =
     readE accepting (\<lambda>acc. if \<not> acc then throwE RuntimeError.Draining else
       thenE (liftE (context_validate (prep_context p)))
         (thenE (liftE (manifest_validate ser url_scheme (prep_manifest p)))
           (bindE (liftE (resolve (prep_manifest p) (runtime_service_access p))) (\<lambda>ps.
             readE (\<lambda>s. prepared_config (shard_session (sup_config s)) (prep_manifest p)) (\<lambda>cfg.
               thenE (liftE (config_validate cfg)) (returnE (cfg, ps)))))))"

definition prepare_insert :: "nat \<Rightarrow> 'x SessionPreparation \<Rightarrow> SessionConfig \<Rightarrow> ProviderSet \<Rightarrow> ShardSupervisor \<Rightarrow> ShardSupervisor" where
  "prepare_insert due p cfg ps s =
     (let sid = session_id (prep_context p) in
      s\<lparr>prepared := AList.update sid
          \<lparr>pr_context = prep_context p, pr_session_config = cfg, pr_providers = ps,
           pr_fingerprint = prep_fingerprint p, pr_attachment_fingerprint = prep_attachment_fingerprint p,
           expires_at = due\<rparr> (prepared s),
        timers := timers s @ [(sid, prep_fingerprint p, due)]\<rparr>)"

text \<open>The locked part of \<open>prepare\<close>: both registries are held throughout.\<close>

definition prepare_reserve :: "nat \<Rightarrow> 'x SessionPreparation \<Rightarrow> SessionConfig \<Rightarrow> ProviderSet \<Rightarrow> PreparationStatus shard" where
  "prepare_reserve now p cfg ps =
     thenE lock_sessions (thenE (modifyE reap)
       (readE (\<lambda>s. map_of (sessions s) (session_id (prep_context p))) (\<lambda>active.
          case active of
            Some e \<Rightarrow>
              if as_fingerprint e = Some (prep_fingerprint p)
                \<and> runtime_generation (hnd_context (as_handle e)) = runtime_generation (prep_context p)
              then returnE Existing else throwE SessionConflict
          | None \<Rightarrow>
              thenE lock_prepared (readE (\<lambda>s. map_of (prepared s) (session_id (prep_context p))) (\<lambda>existing.
                case existing of
                  Some e \<Rightarrow>
                    if pr_fingerprint e = prep_fingerprint p
                      \<and> runtime_generation (pr_context e) = runtime_generation (prep_context p)
                    then returnE Existing else throwE SessionConflict
                | None \<Rightarrow>
                    readE (\<lambda>s. saturating_add (length (sessions s)) (length (prepared s)) \<ge> max_sessions (sup_config s))
                      (\<lambda>full. if full then throwE AtCapacity
                        else readE (\<lambda>s. instant_add now (prepared_session_ttl (sup_config s))) (\<lambda>due.
                          case due of
                            None \<Rightarrow> panic_both_locked
                          | Some due \<Rightarrow> thenE (modifyE (prepare_insert due p cfg ps)) (returnE Created))))))))"

definition prepare ::
  "serializer \<Rightarrow> (string \<Rightarrow> string option) \<Rightarrow> (AgentManifest \<Rightarrow> 'x option \<Rightarrow> ProviderSet result) \<Rightarrow>
   nat \<Rightarrow> 'x SessionPreparation \<Rightarrow> PreparationStatus shard" where
  "prepare ser url_scheme resolve now p =
     bindE (prepare_checks ser url_scheme resolve p) (\<lambda>(cfg, ps). prepare_reserve now p cfg ps)"

subsection \<open>Attachment and admission\<close>

definition validate_inactive :: "TenantContext \<Rightarrow> unit shard" where
  "validate_inactive ctx =
     thenE lock_sessions (thenE (modifyE reap)
       (readE (\<lambda>s. map_of (sessions s) (session_id ctx) \<noteq> None) (\<lambda>active.
          if active then throwE SessionConflict else returnE ())))"

definition validate_reservation :: "nat \<Rightarrow> TenantContext \<Rightarrow> fingerprint \<Rightarrow> unit shard" where
  "validate_reservation now ctx att =
     thenE lock_prepared (readE (\<lambda>s. map_of (prepared s) (session_id ctx)) (\<lambda>e.
       case e of
         None \<Rightarrow> throwE (InvalidState ''session was not prepared'')
       | Some p \<Rightarrow> liftE (validate_prepared_entry now p ctx att)))"

definition validate_prepared_attachment :: "nat \<Rightarrow> TenantContext \<Rightarrow> fingerprint \<Rightarrow> unit shard" where
  "validate_prepared_attachment now ctx att =
     thenE (liftE (context_validate ctx)) (thenE (validate_inactive ctx) (validate_reservation now ctx att))"

text \<open>The first section of \<open>attach_prepared\<close>: check the prepared entry and take it out.\<close>

definition attach_take :: "nat \<Rightarrow> TenantContext \<Rightarrow> fingerprint \<Rightarrow> PreparedSession shard" where
  "attach_take now ctx att =
     thenE (liftE (context_validate ctx)) (thenE lock_prepared
       (readE (\<lambda>s. map_of (prepared s) (session_id ctx)) (\<lambda>e.
          case e of
            None \<Rightarrow> throwE (InvalidState ''session was not prepared'')
          | Some p \<Rightarrow>
              thenE (liftE (validate_prepared_entry now p ctx att))
                (thenE (modifyE (\<lambda>s. s\<lparr>prepared := AList.delete (session_id ctx) (prepared s)\<rparr>)) (returnE p)))))"

definition register_active ::
  "TenantContext \<Rightarrow> SessionHandle \<Rightarrow> fingerprint option \<Rightarrow> fingerprint option \<Rightarrow> ShardSupervisor \<Rightarrow> ShardSupervisor" where
  "register_active ctx h fp att s =
     s\<lparr>sessions := AList.update (session_id ctx)
         \<lparr>as_handle = h, as_finished = False, as_fingerprint = fp, as_attachment_fingerprint = att, as_aborted = False,
          as_actor = next_actor s\<rparr>
         (sessions s),
       next_actor := next_actor s + 1\<rparr>"

text \<open>The flag is read before the lock is taken: what follows may run on a shard that has begun to drain.\<close>

definition admit_locked ::
  "TenantContext \<Rightarrow> SessionConfig \<Rightarrow> ProviderSet \<Rightarrow> fingerprint option \<Rightarrow> fingerprint option \<Rightarrow>
   env_action list list \<Rightarrow> (SessionHandle \<times> SessionActor) shard" where
  "admit_locked ctx cfg ps fp att env =
     thenE lock_sessions (thenE (modifyE reap)
       (readE (\<lambda>s. (map_of (sessions s) (session_id ctx) \<noteq> None, length (sessions s) \<ge> max_sessions (sup_config s),
              spawn_with_retry (event_spool_capacity (sup_config s)) (event_batch_size (sup_config s))
                (event_retry (sup_config s))))
          (\<lambda>(active, full, events).
            if active then throwE SessionConflict
            else if full then throwE AtCapacity
            else case events of
              None \<Rightarrow> panic_locked
            | Some p \<Rightarrow>
                (case session_spawn cfg ctx ps p env of
                   None \<Rightarrow> panic_locked
                 | Some (Inl e) \<Rightarrow> throwE e
                 | Some (Inr (h, a)) \<Rightarrow>
                     thenE (modifyE (register_active ctx h fp att)) (returnE (h, a))))))"

definition admit_internal ::
  "TenantContext \<Rightarrow> SessionConfig \<Rightarrow> ProviderSet \<Rightarrow> fingerprint option \<Rightarrow> fingerprint option \<Rightarrow>
   env_action list list \<Rightarrow> (SessionHandle \<times> SessionActor) shard" where
  "admit_internal ctx cfg ps fp att env =
     readE accepting (\<lambda>acc. if \<not> acc then throwE RuntimeError.Draining else
       thenE (liftE (context_validate ctx)) (admit_locked ctx cfg ps fp att env))"

definition attach_prepared ::
  "nat \<Rightarrow> TenantContext \<Rightarrow> fingerprint \<Rightarrow> env_action list list \<Rightarrow> (SessionHandle \<times> SessionActor) shard" where
  "attach_prepared now ctx att env =
     bindE (attach_take now ctx att) (\<lambda>p.
       admit_internal ctx (pr_session_config p) (pr_providers p) (Some (pr_fingerprint p))
         (Some (pr_attachment_fingerprint p)) env)"

definition admit :: "TenantContext \<Rightarrow> env_action list list \<Rightarrow> (SessionHandle \<times> SessionActor) shard" where
  "admit ctx env =
     readE (\<lambda>s. (shard_session (sup_config s), sup_providers s)) (\<lambda>(cfg, ps).
       admit_internal ctx cfg ps None None env)"

definition admit_with ::
  "TenantContext \<Rightarrow> SessionConfig \<Rightarrow> ProviderSet \<Rightarrow> env_action list list \<Rightarrow> (SessionHandle \<times> SessionActor) shard" where
  "admit_with ctx cfg ps env = admit_internal ctx cfg ps None None env"

subsection \<open>Expiry and the failure of a preparation\<close>

text \<open>
  \<open>publish_prepared_failure\<close>: a pipeline of its own, the terminal event, \<open>close\<close>. The worker then
  flushes as in theory \<open>Events\<close>; \<open>clock\<close> is the formatted time. \<open>None\<close>: the enqueue failed.
\<close>

definition publish_prepared_failure :: "string \<Rightarrow> PreparedSession \<Rightarrow> string \<Rightarrow> EventPipeline option" where
  "publish_prepared_failure clock p code =
     (case pipeline_spawn 2 1 of
        None \<Rightarrow> None
      | Some pipeline \<Rightarrow>
          (case publish_terminal pipeline
                 (pending_event clock EventType.SessionFailed (correlation_id (pr_context p)) None SourceRuntime PrivacyInternal
                    (payload_map [(''code'', JString code),
                       (''runtimeGeneration'', json_u64 (runtime_generation (pr_context p)))])) False of
             poll.Ready (Inr q) \<Rightarrow> Some (pipeline_close q)
           | _ \<Rightarrow> None))"

definition report_failure :: "PreparedSession \<Rightarrow> string \<Rightarrow> ShardSupervisor \<Rightarrow> ShardSupervisor" where
  "report_failure p code s = s\<lparr>failures := failures s @ [(p, code)]\<rparr>"

definition expire_prepared :: "nat \<Rightarrow> string \<Rightarrow> fingerprint \<Rightarrow> ShardSupervisor \<Rightarrow> ShardSupervisor" where
  "expire_prepared now sid fp s =
     (if prepared_poisoned s then s
      else case map_of (prepared s) sid of
        Some e \<Rightarrow>
          if pr_fingerprint e = fp \<and> expires_at e \<le> now
          then report_failure e ''preparation_expired'' (s\<lparr>prepared := AList.delete sid (prepared s)\<rparr>)
          else s
      | None \<Rightarrow> s)"

text \<open>One expiry task runs when its sleep is over.\<close>

definition fire_timer :: "nat \<Rightarrow> string \<times> fingerprint \<times> nat \<Rightarrow> ShardSupervisor \<Rightarrow> ShardSupervisor" where
  "fire_timer now t s = (case t of (sid, fp, _) \<Rightarrow> expire_prepared now sid fp (s\<lparr>timers := remove1 t (timers s)\<rparr>))"

subsection \<open>Stopping a session\<close>

definition each_session :: "(string \<Rightarrow> ActiveSession \<Rightarrow> ActiveSession) \<Rightarrow> ShardSupervisor \<Rightarrow> ShardSupervisor" where
  "each_session f s = s\<lparr>sessions := map (\<lambda>(sid, e). (sid, f sid e)) (sessions s)\<rparr>"

text \<open>What happens to an actor, whatever the registry holds under its identifier.\<close>

definition change_actor :: "nat \<Rightarrow> (ActiveSession \<Rightarrow> ActiveSession) \<Rightarrow> ShardSupervisor \<Rightarrow> ShardSupervisor" where
  "change_actor n f = each_session (\<lambda>_ e. if as_actor e = n then f e else e)"

text \<open>The cancel command to the actor; a full control lane falls back to the cancellation token.\<close>

definition signal_cancel :: "string \<Rightarrow> ActiveSession \<Rightarrow> unit result \<times> ActiveSession" where
  "signal_cancel reason e =
     (case session_cancel (as_handle e) reason of
        (Inr _, h) \<Rightarrow> (Inr (), e\<lparr>as_handle := h\<rparr>)
      | (Inl (InvalidState _), h) \<Rightarrow> (Inr (), e\<lparr>as_handle := h\<rparr>)
      | (Inl (MailboxFull _), h) \<Rightarrow> (Inr (), e\<lparr>as_handle := force_cancel h\<rparr>)
      | (Inl err, h) \<Rightarrow> (Inl err, e\<lparr>as_handle := h\<rparr>))"

text \<open>The first section of \<open>stop_session\<close>: the actor whose handle it takes along.\<close>

definition stop_begin :: "TenantContext \<Rightarrow> fingerprint \<Rightarrow> nat option shard" where
  "stop_begin ctx att =
     thenE lock_sessions (thenE (modifyE reap)
       (readE (\<lambda>s. map_of (sessions s) (session_id ctx)) (\<lambda>active.
          case active of
            None \<Rightarrow> returnE None
          | Some e \<Rightarrow> thenE (liftE (validate_active_entry e ctx att)) (returnE (Some (as_actor e))))))"

text \<open>The signal on the handle; an actor that is no longer registered has stopped or is being stopped.\<close>

definition stop_signal :: "nat \<Rightarrow> string \<Rightarrow> unit shard" where
  "stop_signal n reason =
     readE (\<lambda>s. find (\<lambda>e. as_actor e = n) (map snd (sessions s))) (\<lambda>actor.
       case actor of
         None \<Rightarrow> returnE ()
       | Some e \<Rightarrow>
           thenE (modifyE (change_actor n (\<lambda>e. snd (signal_cancel reason e)))) (liftE (fst (signal_cancel reason e))))"

definition stop_prepared :: "nat \<Rightarrow> TenantContext \<Rightarrow> fingerprint \<Rightarrow> unit shard" where
  "stop_prepared now ctx att =
     thenE lock_prepared (readE (\<lambda>s. map_of (prepared s) (session_id ctx)) (\<lambda>e.
       case e of
         None \<Rightarrow> returnE ()
       | Some p \<Rightarrow>
           thenE (liftE (validate_prepared_entry now p ctx att))
             (modifyE (\<lambda>s. s\<lparr>prepared := AList.delete (session_id ctx) (prepared s)\<rparr>))))"

text \<open>How the three waits of \<open>stop_session\<close> end: whether the actor finished within each.\<close>

record stop_waits =
  within_grace :: bool
  within_forced :: bool
  within_abort :: bool

definition mark_finished :: "ActiveSession \<Rightarrow> ActiveSession" where
  "mark_finished e = e\<lparr>as_finished := True\<rparr>"

definition force_entry :: "ActiveSession \<Rightarrow> ActiveSession" where
  "force_entry e = e\<lparr>as_handle := force_cancel (as_handle e)\<rparr>"

definition abort_entry :: "ActiveSession \<Rightarrow> ActiveSession" where
  "abort_entry e = e\<lparr>as_aborted := True\<rparr>"

definition stop_wait :: "nat \<Rightarrow> stop_waits \<Rightarrow> unit shard" where
  "stop_wait n w =
     (if within_grace w then modifyE (change_actor n mark_finished)
      else thenE (modifyE (change_actor n force_entry))
        (if within_forced w then modifyE (change_actor n mark_finished)
         else thenE (modifyE (change_actor n abort_entry))
           (if within_abort w then modifyE (change_actor n mark_finished)
            else throwE (Internal ''session actor did not stop after abort''))))"

definition stop_finish :: "TenantContext \<Rightarrow> unit shard" where
  "stop_finish ctx =
     thenE lock_sessions
       (readE (\<lambda>s. case map_of (sessions s) (session_id ctx) of
            None \<Rightarrow> False | Some e \<Rightarrow> runtime_generation (hnd_context (as_handle e)) = runtime_generation ctx)
          (\<lambda>same. if same
             then modifyE (\<lambda>s. s\<lparr>sessions := AList.delete (session_id ctx) (sessions s)\<rparr>) else returnE ()))"

definition stop_session :: "nat \<Rightarrow> TenantContext \<Rightarrow> fingerprint \<Rightarrow> string \<Rightarrow> stop_waits \<Rightarrow> unit shard" where
  "stop_session now ctx att reason w =
     thenE (liftE (context_validate ctx))
       (bindE (stop_begin ctx att) (\<lambda>active.
          case active of
            None \<Rightarrow> stop_prepared now ctx att
          | Some n \<Rightarrow> thenE (stop_signal n reason) (thenE (stop_wait n w) (stop_finish ctx))))"

definition shard_cancel_session :: "nat \<Rightarrow> TenantContext \<Rightarrow> fingerprint \<Rightarrow> stop_waits \<Rightarrow> unit shard" where
  "shard_cancel_session now ctx att w = stop_session now ctx att ''control_plane_cancel'' w"

definition disconnect_session :: "nat \<Rightarrow> TenantContext \<Rightarrow> fingerprint \<Rightarrow> stop_waits \<Rightarrow> unit shard" where
  "disconnect_session now ctx att w = stop_session now ctx att ''transport_closed'' w"

subsection \<open>Load\<close>

text \<open>\<open>utilization\<close> is the pair whose quotient the source computes in floating point.\<close>

record LoadSnapshot =
  load_boot_id :: string
  load_accepting :: bool
  load_draining :: bool
  active_sessions :: usize
  prepared_sessions :: usize
  load_max_sessions :: usize
  available_sessions :: usize
  utilization :: "usize \<times> usize"

definition load_snapshot :: "ShardSupervisor \<Rightarrow> LoadSnapshot" where
  "load_snapshot s =
     (let reserved = saturating_add (length (sessions s)) (length (prepared s)); m = max_sessions (sup_config s) in
      \<lparr>load_boot_id = boot_id s, load_accepting = accepting s, load_draining = (\<not> accepting s),
       active_sessions = length (sessions s), prepared_sessions = length (prepared s), load_max_sessions = m,
       available_sessions = saturating_sub m reserved, utilization = (reserved, m)\<rparr>)"

definition load :: "LoadSnapshot shard" where
  "load = thenE lock_sessions (thenE (modifyE reap) (thenE lock_prepared (readE load_snapshot returnE)))"

definition is_ready :: "bool shard" where
  "is_ready = (\<lambda>s.
     if \<not> accepting s then (Inr False, s)
     else case load s of
       (Inl _, s') \<Rightarrow> (Inr False, s')
     | (Inr l, s') \<Rightarrow> (Inr (available_sessions l > 0), s'))"

subsection \<open>Draining\<close>

definition begin_draining :: "ShardSupervisor \<Rightarrow> ShardSupervisor" where
  "begin_draining s = s\<lparr>accepting := False\<rparr>"

definition drain_prepared :: "ShardSupervisor \<Rightarrow> ShardSupervisor" where
  "drain_prepared s =
     s\<lparr>prepared := [], failures := failures s @ map (\<lambda>(_, p). (p, ''runtime_draining_before_attach'')) (prepared s)\<rparr>"

record DrainReport =
  drain_graceful :: usize
  drain_forced :: usize
  drain_aborted :: usize

text \<open>The actors of the sessions that have not finished.\<close>

definition unfinished :: "ShardSupervisor \<Rightarrow> nat list" where
  "unfinished s = map (\<lambda>(_, e). as_actor e) (filter (\<lambda>(_, e). \<not> as_finished e) (sessions s))"

definition unless_finished :: "(ActiveSession \<Rightarrow> ActiveSession) \<Rightarrow> ActiveSession \<Rightarrow> ActiveSession" where
  "unless_finished f e = (if as_finished e then e else f e)"

definition drain_cancel :: "ActiveSession \<Rightarrow> ActiveSession" where
  "drain_cancel e = e\<lparr>as_handle := snd (session_cancel (as_handle e) ''runtime_draining'')\<rparr>"

definition finish_when :: "(string \<Rightarrow> bool) \<Rightarrow> ShardSupervisor \<Rightarrow> ShardSupervisor" where
  "finish_when fin = each_session (\<lambda>sid e. if fin sid then mark_finished e else e)"

text \<open>The sections and signals of \<open>drain\<close>, with \<open>handles\<close> the actors it has collected.\<close>

definition drain_reservations :: "unit shard" where
  "drain_reservations = thenE lock_prepared (modifyE drain_prepared)"

definition drain_handles :: "nat list shard" where
  "drain_handles = thenE lock_sessions (readE unfinished returnE)"

definition drain_signal :: "nat list \<Rightarrow> unit shard" where
  "drain_signal handles =
     modifyE (each_session (\<lambda>_ e. if as_actor e \<in> set handles then unless_finished drain_cancel e else e))"

definition all_finished :: "nat list \<Rightarrow> ShardSupervisor \<Rightarrow> bool" where
  "all_finished handles s = list_all (\<lambda>n. n \<notin> set (unfinished s)) handles"

definition drain_force_signal :: "nat list \<Rightarrow> usize shard" where
  "drain_force_signal handles =
     readE (\<lambda>s. length (filter (\<lambda>n. n \<in> set (unfinished s)) handles)) (\<lambda>forced.
       thenE (modifyE (each_session (\<lambda>_ e. if as_actor e \<in> set handles then unless_finished force_entry e else e)))
         (returnE forced))"

definition drain_abort :: "usize shard" where
  "drain_abort =
     thenE lock_sessions (readE (\<lambda>s. length (unfinished s)) (\<lambda>n.
       thenE (modifyE (each_session (\<lambda>_. unless_finished abort_entry))) (returnE n)))"

text \<open>
  \<open>after_grace\<close> and \<open>after_force\<close> are the sessions whose actors have finished when the two waits end.
\<close>

definition drain_force :: "nat list \<Rightarrow> (string \<Rightarrow> bool) \<Rightarrow> DrainReport shard" where
  "drain_force handles after_force =
     bindE (drain_force_signal handles) (\<lambda>forced.
       thenE (modifyE (finish_when after_force))
         (readE (all_finished handles) (\<lambda>completed.
            if completed
            then returnE \<lparr>drain_graceful = saturating_sub (length handles) forced, drain_forced = forced, drain_aborted = 0\<rparr>
            else bindE drain_abort (\<lambda>n.
              returnE \<lparr>drain_graceful = saturating_sub (length handles) forced, drain_forced = forced, drain_aborted = n\<rparr>))))"

definition drain :: "(string \<Rightarrow> bool) \<Rightarrow> (string \<Rightarrow> bool) \<Rightarrow> DrainReport shard" where
  "drain after_grace after_force =
     thenE (modifyE begin_draining) (thenE drain_reservations (bindE drain_handles (\<lambda>handles.
       thenE (drain_signal handles) (thenE (modifyE (finish_when after_grace))
         (readE (all_finished handles) (\<lambda>all_done.
            if all_done
            then returnE \<lparr>drain_graceful = length handles, drain_forced = 0, drain_aborted = 0\<rparr>
            else drain_force handles after_force))))))"

end
