(* ===== verification/ShardInv.thy ===== *)
theory ShardInv
  imports Supervisor
begin

text \<open>
  Invariants of the shard supervisor under every interleaving of the lock sections and signals of its
  operations, and what a reservation is worth. A section that adds nothing to the registries is a
  \<open>section_step\<close>; what such a section does to the registries is stated once, as the locale
  \<open>section_invariant\<close>, and every invariant is an interpretation of it.
\<close>

subsection \<open>Interleaved sections\<close>

text \<open>
  The sections that only remove or signal, with what the environment does: actors finish and expiry
  tasks run. The actors \<open>n\<close> and \<open>handles\<close> that a request signals are those it collected in an earlier
  section: any actors at all here.
\<close>

inductive section_step :: "ShardSupervisor \<Rightarrow> ShardSupervisor \<Rightarrow> bool" where
  inactive: "validate_inactive ctx s = (r1, s') \<Longrightarrow> section_step s s'"
| reservation: "validate_reservation now ctx att s = (r2, s') \<Longrightarrow> section_step s s'"
| stop_begin: "stop_begin ctx att s = (r3, s') \<Longrightarrow> section_step s s'"
| stop_signal: "stop_signal n reason s = (r4, s') \<Longrightarrow> section_step s s'"
| stop_force: "section_step s (change_actor n force_entry s)"
| stop_abort: "section_step s (change_actor n abort_entry s)"
| stop_prepared: "stop_prepared now ctx att s = (r5, s') \<Longrightarrow> section_step s s'"
| stop_finish: "stop_finish ctx s = (r6, s') \<Longrightarrow> section_step s s'"
| load: "load s = (r7, s') \<Longrightarrow> section_step s s'"
| begin_draining: "section_step s (begin_draining s)"
| drain_reservations: "drain_reservations s = (r8, s') \<Longrightarrow> section_step s s'"
| drain_handles: "drain_handles s = (r9, s') \<Longrightarrow> section_step s s'"
| drain_signal: "drain_signal handles s = (r10, s') \<Longrightarrow> section_step s s'"
| drain_force: "drain_force_signal handles s = (r11, s') \<Longrightarrow> section_step s s'"
| drain_abort: "drain_abort s = (r12, s') \<Longrightarrow> section_step s s'"
| timer: "(sid, fp, due) \<in> set (timers s) \<Longrightarrow> due \<le> now \<Longrightarrow> section_step s (fire_timer now (sid, fp, due) s)"
| actor_finishes: "section_step s (change_actor n mark_finished s)"

text \<open>
  Every section. The checks of \<open>prepare\<close> only read: what follows them is \<open>reserve\<close>, whose preparation has
  no access any more (the resolver had it). The clock of a process counts fewer than \<open>2^64\<close>
  nanoseconds (\<open>clock_max\<close>). \<open>admit\<close> is the locked section alone: the flag \<open>accepting\<close> was read before, and
  may have been cleared since. The lanes of the session it spawns are those of a configuration that
  a channel can have.
\<close>

definition clock_max :: nat where
  "clock_max = u64_max"

inductive shard_step :: "ShardSupervisor \<Rightarrow> ShardSupervisor \<Rightarrow> bool" where
  reserve: "context_validate (prep_context p) = Inr () \<Longrightarrow> config_validate cfg = Inr () \<Longrightarrow> lanes_ok cfg \<Longrightarrow>
    now \<le> clock_max \<Longrightarrow> prepare_reserve now (p :: unit SessionPreparation) cfg ps s = (r1, s') \<Longrightarrow> shard_step s s'"
| take: "attach_take now ctx att s = (r2, s') \<Longrightarrow> shard_step s s'"
| admit: "lanes_ok cfg \<Longrightarrow> admit_locked ctx cfg ps fp att' env s = (r3, s') \<Longrightarrow> shard_step s s'"
| other: "section_step s s' \<Longrightarrow> shard_step s s'"

inductive shard_reachable :: "string \<Rightarrow> ShardConfig \<Rightarrow> ProviderSet \<Rightarrow> ShardSupervisor \<Rightarrow> bool"
  for uuid :: string and cfg :: ShardConfig and ps :: ProviderSet where
  start: "new_supervisor uuid cfg ps = Inr s \<Longrightarrow> shard_reachable uuid cfg ps s"
| step: "shard_reachable uuid cfg ps s \<Longrightarrow> shard_step s s' \<Longrightarrow> shard_reachable uuid cfg ps s'"

subsection \<open>What a section may do\<close>

text \<open>A change of an entry that keeps the actor and whom it belongs to, and never revives it.\<close>

definition identity_of :: "ActiveSession \<Rightarrow> nat \<times> TenantContext \<times> fingerprint option \<times> fingerprint option" where
  "identity_of e = (as_actor e, hnd_context (as_handle e), as_fingerprint e, as_attachment_fingerprint e)"

definition faithful :: "(string \<Rightarrow> ActiveSession \<Rightarrow> ActiveSession) \<Rightarrow> bool" where
  "faithful f \<longleftrightarrow> (\<forall>sid e. identity_of (f sid e) = identity_of e \<and> (as_finished e \<longrightarrow> as_finished (f sid e)))"

lemma send_control_context: "hnd_context (snd (send_control h cmd)) = hnd_context h"
  by (auto simp: send_control_def split: sum.split try_send_error.split)

lemma signal_cancel_entry:
  "identity_of (snd (signal_cancel reason e)) = identity_of e" "as_finished (snd (signal_cancel reason e)) = as_finished e"
  using send_control_context [of "as_handle e" "Cancel reason"]
  by (auto simp: signal_cancel_def session_cancel_def identity_of_def force_cancel_def split: prod.split sum.split RuntimeError.split)

lemma entry_changes [simp]:
  "identity_of (mark_finished e) = identity_of e" "as_finished (mark_finished e)"
  "identity_of (force_entry e) = identity_of e" "as_finished (force_entry e) = as_finished e"
  "identity_of (abort_entry e) = identity_of e" "as_finished (abort_entry e) = as_finished e"
  "identity_of (drain_cancel e) = identity_of e" "as_finished (drain_cancel e) = as_finished e"
  using send_control_context [of "as_handle e"]
  by (simp_all add: identity_of_def mark_finished_def force_entry_def abort_entry_def drain_cancel_def force_cancel_def session_cancel_def)

lemma faithful_if [simp]: "(\<And>e. identity_of (g e) = identity_of e \<and> (as_finished e \<longrightarrow> as_finished (g e))) \<Longrightarrow>
  faithful (\<lambda>sid e. if b sid e then g e else e)"
  by (simp add: faithful_def)

lemma unless_finished_entry [simp]:
  "identity_of (g e) = identity_of e \<Longrightarrow> identity_of (unless_finished g e) = identity_of e"
  "as_finished e \<Longrightarrow> as_finished (unless_finished g e)"
  by (simp_all add: unless_finished_def)

lemma faithful_unless [simp]: "(\<And>e. identity_of (g e) = identity_of e) \<Longrightarrow> faithful (\<lambda>_. unless_finished g)"
  by (simp add: faithful_def)

locale section_invariant =
  fixes J :: "ShardSupervisor \<Rightarrow> bool"
  assumes reaped: "J s \<Longrightarrow> J (reap s)"
    and changed: "J s \<Longrightarrow> faithful f \<Longrightarrow> J (each_session f s)"
    and dropped: "J s \<Longrightarrow> J (s\<lparr>sessions := AList.delete sid (sessions s)\<rparr>)"
    and released: "J s \<Longrightarrow> J (s\<lparr>prepared := AList.delete sid (prepared s)\<rparr>)"
    and closed: "J s \<Longrightarrow> J (begin_draining s)"
    and drained: "J s \<Longrightarrow> J (drain_prepared s)"
    and expired: "J s \<Longrightarrow> (sid, fp, due) \<in> set (timers s) \<Longrightarrow> due \<le> now \<Longrightarrow> J (fire_timer now (sid, fp, due) s)"
begin

abbreviation keeps :: "'a shard \<Rightarrow> bool" where
  "keeps \<equiv> hoare J J"

lemma keeps_basic: "keeps (throwE e)" "keeps (liftE r)" "keeps (modifyE reap)"
proof -
  show "keeps (throwE e)" by (rule hoare_throwE)
  show "keeps (liftE r)" by (rule hoareI) (auto simp: wp split: sum.split)
  show "keeps (modifyE reap)" by (intro hoare reaped)
qed

lemma keeps_locks: "keeps lock_sessions" "keeps lock_prepared"
  unfolding lock_sessions_def lock_prepared_def by (intro hoare keeps_basic)+

lemma changed_actor:
  "J s \<Longrightarrow> (\<And>e. identity_of (f e) = identity_of e \<and> (as_finished e \<longrightarrow> as_finished (f e))) \<Longrightarrow> J (change_actor n f s)"
  unfolding change_actor_def by (rule changed) simp_all

lemmas keeps_rules = keeps_basic keeps_locks

lemma keeps_validation: "keeps (validate_inactive ctx)" "keeps (validate_reservation now ctx att)"
  unfolding validate_inactive_def validate_reservation_def
  by (intro hoare keeps_rules; auto split: option.split intro!: keeps_rules)+

lemma keeps_take: "keeps (attach_take now ctx att)"
  unfolding attach_take_def
  by (intro hoare keeps_rules) (auto split: option.split intro!: hoare keeps_rules released)

lemma keeps_stop:
  "keeps (stop_begin ctx att)" "keeps (stop_signal n reason)" "keeps (stop_prepared now ctx att)" "keeps (stop_finish ctx)"
  unfolding stop_begin_def stop_signal_def stop_prepared_def stop_finish_def
  by (intro hoare keeps_rules dropped;
      auto split: option.split intro!: hoare keeps_rules released changed_actor simp: signal_cancel_entry)+

lemma keeps_load: "keeps load"
  unfolding load_def by (intro hoare keeps_rules)

lemma keeps_drain:
  "keeps drain_reservations" "keeps drain_handles" "keeps (drain_signal handles)" "keeps (drain_force_signal handles)" "keeps drain_abort"
  unfolding drain_reservations_def drain_handles_def drain_signal_def drain_force_signal_def drain_abort_def
  by (intro hoare keeps_rules drained changed; simp)+

lemma keeps_stop_wait: "keeps (stop_wait n w)"
  unfolding stop_wait_def by (intro hoare keeps_rules changed_actor; simp)

text \<open>The operations of the source, run without interference.\<close>

lemma keeps_operations:
  "keeps (validate_prepared_attachment now ctx att)" "keeps (stop_session now ctx att reason w)" "keeps (drain after_grace after_force)"
  unfolding validate_prepared_attachment_def stop_session_def drain_def drain_force_def finish_when_def
  by (intro hoare keeps_rules keeps_validation keeps_stop keeps_stop_wait keeps_drain closed changed;
      auto split: option.split intro!: hoare keeps_stop keeps_stop_wait)+

lemma keeps_result: "keeps m \<Longrightarrow> J s \<Longrightarrow> m s = (r, s') \<Longrightarrow> J s'"
  using hoare_result [of J J m s r s'] by (simp split: sum.splits)

lemmas keeps_results = keeps_validation [THEN keeps_result] keeps_stop [THEN keeps_result] keeps_load [THEN keeps_result]
  keeps_drain [THEN keeps_result]

lemma section_keeps: "section_step s s' \<Longrightarrow> J s \<Longrightarrow> J s'"
proof (induction rule: section_step.induct)
  case (timer sid fp due s now)
  then show ?case by (simp add: expired)
qed (rule keeps_results; assumption | erule closed | erule changed_actor, simp)+

end

subsection \<open>The invariant\<close>

text \<open>
  The bounds under which no constructor and no addition to the clock panics: the event spool and the
  lanes fit a channel, and the time to live of a preparation fits an instant. The configuration
  check of the source admits larger values.
\<close>

definition shard_bounds :: "ShardConfig \<Rightarrow> bool" where
  "shard_bounds c \<longleftrightarrow> event_spool_capacity c < MAX_PERMITS \<and> lanes_ok (shard_session c) \<and> max_sessions c \<le> u64_max \<and>
     clock_max + prepared_session_ttl c \<le> instant_max"

definition shard_config_wf :: "ShardConfig \<Rightarrow> bool" where
  "shard_config_wf c \<longleftrightarrow> shard_config_validate c = Inr () \<and> shard_bounds c"

text \<open>Actors are numbered as they are spawned.\<close>

definition sessions_inv :: "ShardConfig \<Rightarrow> nat \<Rightarrow> (string, ActiveSession) hash_map \<Rightarrow> bool" where
  "sessions_inv c n m \<longleftrightarrow>
     hash_wf m \<and> length m \<le> max_sessions c \<and> distinct (map (\<lambda>(_, e). as_actor e) m) \<and>
     (\<forall>sid e. (sid, e) \<in> set m \<longrightarrow> session_id (hnd_context (as_handle e)) = sid \<and> as_actor e < n)"

text \<open>Every prepared entry has a pending expiry task that will find it expired.\<close>

definition has_timer :: "(string \<times> fingerprint \<times> nat) list \<Rightarrow> string \<Rightarrow> PreparedSession \<Rightarrow> bool" where
  "has_timer ts sid p \<longleftrightarrow> (\<exists>due. (sid, pr_fingerprint p, due) \<in> set ts \<and> expires_at p \<le> due)"

definition prepared_inv ::
  "ShardConfig \<Rightarrow> (string \<times> fingerprint \<times> nat) list \<Rightarrow> (string, PreparedSession) hash_map \<Rightarrow> bool" where
  "prepared_inv c ts m \<longleftrightarrow>
     hash_wf m \<and> length m \<le> max_sessions c \<and>
     (\<forall>sid p. map_of m sid = Some p \<longrightarrow> session_id (pr_context p) = sid \<and> config_validate (pr_session_config p) = Inr () \<and>
        lanes_ok (pr_session_config p) \<and> has_timer ts sid p)"

definition shard_inv :: "ShardConfig \<Rightarrow> ShardSupervisor \<Rightarrow> bool" where
  "shard_inv c s \<longleftrightarrow>
     sup_config s = c \<and> shard_config_wf c \<and> \<not> sessions_poisoned s \<and> \<not> prepared_poisoned s \<and>
     sessions_inv c (next_actor s) (sessions s) \<and> prepared_inv c (timers s) (prepared s)"

lemma map_of_each: "map_of (map (\<lambda>(k, e). (k, f k e)) m) k = map_option (f k) (map_of m k)"
  by (induction m) auto

lemma sessions_inv_sub:
  assumes "sessions_inv c n m" "set m' \<subseteq> set m" "hash_wf m'" "length m' \<le> length m" "distinct (map (\<lambda>(_, e). as_actor e) m')"
  shows "sessions_inv c n m'"
  using assms by (auto simp: sessions_inv_def)

lemma sessions_inv_filter:
  assumes "sessions_inv c n m"
  shows "sessions_inv c n (filter P m)"
proof (rule sessions_inv_sub [OF assms])
  show "hash_wf (filter P m)" using assms by (simp add: sessions_inv_def)
  show "distinct (map (\<lambda>(_, e). as_actor e) (filter P m))"
    using assms unfolding sessions_inv_def by (intro distinct_map_filter) simp
qed auto

lemma sessions_inv_delete: "sessions_inv c n m \<Longrightarrow> sessions_inv c n (AList.delete sid m)"
  by (simp add: AList.delete_eq sessions_inv_filter)

lemma sessions_inv_each:
  assumes "sessions_inv c n m" "faithful f"
  shows "sessions_inv c n (map (\<lambda>(sid, e). (sid, f sid e)) m)"
proof -
  have f: "as_actor (f sid e) = as_actor e" "hnd_context (as_handle (f sid e)) = hnd_context (as_handle e)" for sid e
    using assms(2) by (auto simp: faithful_def identity_of_def)
  from assms(1) show ?thesis by (auto simp: sessions_inv_def hash_wf_def comp_def case_prod_unfold f)
qed

lemma update_fresh: "map_of m k = None \<Longrightarrow> AList.update k v m = m @ [(k, v)]"
  by (induction m) (auto split: if_splits)

lemma sessions_inv_register:
  assumes "sessions_inv c n m" "map_of m sid = None" "length m < max_sessions c"
    "session_id (hnd_context (as_handle e)) = sid" "as_actor e = n"
  shows "sessions_inv c (n + 1) (AList.update sid e m)"
proof -
  have "as_actor e' < n" if "(sid', e') \<in> set m" for sid' e' using that assms(1) by (auto simp: sessions_inv_def)
  then have "as_actor e \<notin> (\<lambda>(_, e). as_actor e) ` set m" using assms(5) by force
  then show ?thesis
    using assms by (fastforce simp: update_fresh sessions_inv_def hash_wf_def map_of_eq_None_iff)
qed

lemma prepared_inv_delete: "prepared_inv c ts m \<Longrightarrow> prepared_inv c ts (AList.delete sid m)"
  using hash.len_remove_le [of m sid]
  by (auto simp: prepared_inv_def hash.invar_remove delete_conv')

lemma prepared_inv_Nil: "prepared_inv c ts []"
  by (simp add: prepared_inv_def hash_wf_def)

lemma shard_inv_timer:
  assumes inv: "shard_inv c s" and t: "(sid, fp, due) \<in> set (timers s)" "due \<le> now"
  shows "shard_inv c (fire_timer now (sid, fp, due) s)"
proof -
  let ?ts = "remove1 (sid, fp, due) (timers s)"
  have keep: "has_timer ?ts k q" if "has_timer (timers s) k q" "k \<noteq> sid \<or> pr_fingerprint q \<noteq> fp \<or> \<not> expires_at q \<le> now" for k q
  proof -
    from that(1) obtain d where d: "(k, pr_fingerprint q, d) \<in> set (timers s)" "expires_at q \<le> d"
      by (auto simp: has_timer_def)
    have "(k, pr_fingerprint q, d) \<noteq> (sid, fp, due)" using that(2) d(2) t(2) by auto
    then have "(k, pr_fingerprint q, d) \<in> set ?ts" using d(1) by simp
    with d(2) show ?thesis by (auto simp: has_timer_def)
  qed
  have wf: "prepared_inv c (timers s) (prepared s)" using inv by (simp add: shard_inv_def)
  have "prepared_inv c ?ts (if \<exists>e. map_of (prepared s) sid = Some e \<and> pr_fingerprint e = fp \<and> expires_at e \<le> now
      then AList.delete sid (prepared s) else prepared s)"
    using wf keep hash.len_remove_le [of "prepared s" sid]
    by (auto simp: prepared_inv_def hash.invar_remove delete_conv' split: if_splits) (metis keep)
  with inv show ?thesis
    by (auto simp: fire_timer_def expire_prepared_def report_failure_def shard_inv_def split: option.splits if_splits)
qed

interpretation shard_sections: section_invariant "shard_inv c" for c
proof
  fix s sid fp due now f
  assume inv: "shard_inv c s"
  show "shard_inv c (reap s)" using inv by (simp add: shard_inv_def reap_def sessions_inv_filter)
  show "shard_inv c (each_session f s)" if "faithful f"
    using inv that by (simp add: shard_inv_def each_session_def sessions_inv_each)
  show "shard_inv c (s\<lparr>sessions := AList.delete sid (sessions s)\<rparr>)"
    using inv by (simp add: shard_inv_def sessions_inv_delete)
  show "shard_inv c (s\<lparr>prepared := AList.delete sid (prepared s)\<rparr>)"
    using inv by (simp add: shard_inv_def prepared_inv_delete)
  show "shard_inv c (begin_draining s)" using inv by (simp add: shard_inv_def begin_draining_def)
  show "shard_inv c (drain_prepared s)" using inv by (simp add: shard_inv_def drain_prepared_def prepared_inv_Nil)
  show "shard_inv c (fire_timer now (sid, fp, due) s)" if "(sid, fp, due) \<in> set (timers s)" "due \<le> now"
    using inv that by (rule shard_inv_timer)
qed

subsection \<open>The sections that add an entry\<close>

lemma shard_inv_unpoisoned:
  "shard_inv c s \<Longrightarrow> sup_config s = c" "shard_inv c s \<Longrightarrow> \<not> sessions_poisoned s" "shard_inv c s \<Longrightarrow> \<not> prepared_poisoned s"
  "shard_inv c s \<Longrightarrow> hash_wf (sessions s)" "shard_inv c s \<Longrightarrow> hash_wf (prepared s)" "shard_inv c s \<Longrightarrow> max_sessions c \<le> u64_max"
  by (simp_all add: shard_inv_def sessions_inv_def prepared_inv_def shard_config_wf_def shard_bounds_def)

lemma shard_inv_locks:
  "shard_inv c s \<Longrightarrow> lock_sessions s = (Inr (), s)" "shard_inv c s \<Longrightarrow> lock_prepared s = (Inr (), s)"
  by (simp_all add: lock_sessions_def lock_prepared_def errorE_defs shard_inv_def)

lemma reap_fields [simp]:
  "sup_config (reap s) = sup_config s" "prepared (reap s) = prepared s" "sessions_poisoned (reap s) = sessions_poisoned s"
  "prepared_poisoned (reap s) = prepared_poisoned s" "accepting (reap s) = accepting s" "timers (reap s) = timers s"
  "next_actor (reap s) = next_actor s" "failures (reap s) = failures s" "boot_id (reap s) = boot_id s"
  "sup_providers (reap s) = sup_providers s"
  by (simp_all add: reap_def)

lemma reserved_room:
  "max_sessions c \<le> u64_max \<Longrightarrow> saturating_add a b < max_sessions c \<Longrightarrow> a + b < max_sessions c"
  by (auto simp: saturating_add_def split: if_splits)

lemma shard_inv_insert:
  assumes inv: "shard_inv c s" and new: "map_of (prepared s) (session_id (prep_context p)) = None"
    and room: "length (prepared s) < max_sessions c" and cfg: "config_validate cfg = Inr ()" "lanes_ok cfg"
  shows "shard_inv c (prepare_insert due p cfg ps s)"
proof -
  have "hash_wf (prepared s)" using inv by (rule shard_inv_unpoisoned)
  moreover have "has_timer ts sid q \<Longrightarrow> has_timer (ts @ [t]) sid q" for ts t sid q by (auto simp: has_timer_def)
  ultimately show ?thesis
    using inv new room cfg hash.len_insert [of "prepared s" "session_id (prep_context p)"]
    by (auto simp: shard_inv_def prepared_inv_def prepare_insert_def Let_def hash.invar_insert update_conv')
      (auto simp: has_timer_def)
qed

lemma clock_in_range: "shard_inv c s \<Longrightarrow> now \<le> clock_max \<Longrightarrow> \<exists>due. instant_add now (prepared_session_ttl c) = Some due"
  by (auto simp: shard_inv_def shard_config_wf_def shard_bounds_def instant_add_def)

text \<open>What \<open>prepare_reserve\<close> does on a shard in its invariant: it inserts, or leaves the reaped shard.\<close>

lemma reserve_cases:
  assumes inv: "shard_inv c s" and now: "now \<le> clock_max" and run: "prepare_reserve now p cfg ps s = (r, s')"
  obtains "s' = reap s" "r \<noteq> Inr Created"
  | due where "s' = prepare_insert due p cfg ps (reap s)" "r = Inr Created"
      "map_of (prepared s) (session_id (prep_context p)) = None" "map_of (sessions (reap s)) (session_id (prep_context p)) = None"
      "length (sessions (reap s)) + length (prepared s) < max_sessions c" "due = now + prepared_session_ttl c"
proof -
  have r: "shard_inv c (reap s)" using inv by (rule shard_sections.reaped)
  obtain due where due: "instant_add now (prepared_session_ttl c) = Some due" using clock_in_range [OF inv now] by blast
  then have "due = now + prepared_session_ttl c" by (simp add: instant_add_def split: if_splits)
  with run that due show ?thesis
    using shard_inv_locks [OF inv] shard_inv_locks [OF r] shard_inv_unpoisoned(1,6) [OF inv]
      reserved_room [of c "length (sessions (reap s))" "length (prepared s)"]
    by (auto simp: prepare_reserve_def errorE_defs not_le split: option.splits if_splits)
qed

lemma keeps_reserve:
  assumes "config_validate cfg = Inr ()" "lanes_ok cfg" "now \<le> clock_max" "shard_inv c s" "prepare_reserve now p cfg ps s = (r, s')"
  shows "shard_inv c s'"
  using assms(4,3,5)
proof (cases rule: reserve_cases)
  case 1
  with assms(4) show ?thesis by (simp add: shard_sections.reaped)
next
  case (2 due)
  with assms show ?thesis using shard_inv_insert [OF shard_sections.reaped [OF assms(4)], of p cfg due ps] by simp
qed

lemma spawn_total: "shard_config_wf c \<Longrightarrow>
  \<exists>p. spawn_with_retry (event_spool_capacity c) (event_batch_size c) (event_retry c) = Some p"
  by (auto simp: shard_config_wf_def shard_bounds_def shard_config_validate_def spawn_with_retry_def checked_add_def
      MAX_PERMITS_def split: if_splits)

lemma session_spawn_total: "lanes_ok cfg \<Longrightarrow> session_spawn cfg ctx ps p env \<noteq> None"
  by (auto simp: session_spawn_def config_validate_def playout_new_def split: sum.split option.split if_splits)

lemma session_spawn_context: "session_spawn cfg ctx ps p env = Some (Inr (h, a)) \<Longrightarrow> hnd_context h = ctx"
  by (auto simp: session_spawn_def split: sum.splits option.splits if_splits)

lemma session_spawn_error: "session_spawn cfg ctx ps p env \<noteq> Some (Inl AtCapacity)"
  by (auto simp: session_spawn_def config_validate_def context_validate_def ensure_capabilities_def andR_def Let_def
      split: option.splits sum.splits prod.splits if_splits)

text \<open>What \<open>admit_locked\<close> does on a shard in its invariant: it registers one session, or leaves the reaped shard.\<close>

lemma admit_cases:
  assumes inv: "shard_inv c s" and lanes: "lanes_ok cfg" and run: "admit_locked ctx cfg ps fp att env s = (r, s')"
  obtains e where "s' = reap s" "r = Inl e" "e = AtCapacity \<longrightarrow> max_sessions c \<le> length (sessions (reap s))"
  | h a where "s' = register_active ctx h fp att (reap s)" "r = Inr (h, a)" "hnd_context h = ctx"
      "map_of (sessions (reap s)) (session_id ctx) = None" "length (sessions (reap s)) < max_sessions c"
proof -
  have r: "shard_inv c (reap s)" using inv by (rule shard_sections.reaped)
  obtain p where p: "spawn_with_retry (event_spool_capacity c) (event_batch_size c) (event_retry c) = Some p"
    using inv spawn_total by (auto simp: shard_inv_def)
  obtain res where res: "session_spawn cfg ctx ps p env = Some res" using session_spawn_total [OF lanes] by blast
  note run' = run [unfolded admit_locked_def, simplified errorE_defs shard_inv_locks(1) [OF inv] shard_inv_unpoisoned(1) [OF inv] p
      sum.case prod.case option.case reap_fields Let_def res]
  consider "map_of (sessions (reap s)) (session_id ctx) \<noteq> None" | "max_sessions c \<le> length (sessions (reap s))"
    | "map_of (sessions (reap s)) (session_id ctx) = None" "length (sessions (reap s)) < max_sessions c" by linarith
  then show ?thesis
  proof cases
    case 1
    with run' that(1) show ?thesis by auto
  next
    case 2
    with run' that(1) show ?thesis by (auto split: if_splits)
  next
    case 3
    show ?thesis
    proof (cases res)
      case (Inl e)
      with 3 run' res that(1) session_spawn_error [of cfg ctx ps p env] show ?thesis by (auto simp: throwE_def)
    next
      case (Inr ha)
      obtain h a where ha: "ha = (h, a)" by (cases ha)
      with 3 Inr run' that(2) [of h a] session_spawn_context res show ?thesis by (auto simp: errorE_defs)
    qed
  qed
qed

lemma keeps_admit:
  assumes "lanes_ok cfg" "shard_inv c s" "admit_locked ctx cfg ps fp att env s = (r, s')"
  shows "shard_inv c s'"
  using assms(2,1,3)
proof (cases rule: admit_cases)
  case 1
  with assms(2) show ?thesis by (simp add: shard_sections.reaped)
next
  case (2 h a)
  with shard_sections.reaped [OF assms(2)] show ?thesis
    by (auto simp: shard_inv_def register_active_def intro!: sessions_inv_register [simplified])
qed

lemma shard_step_inv: "shard_step s s' \<Longrightarrow> shard_inv c s \<Longrightarrow> shard_inv c s'"
  by (induction rule: shard_step.induct)
    (blast intro: keeps_reserve keeps_admit shard_sections.keeps_result shard_sections.keeps_take shard_sections.section_keeps)+

lemma new_shard_inv: "new_supervisor uuid cfg ps = Inr s \<Longrightarrow> shard_bounds cfg \<Longrightarrow> shard_inv cfg s"
  by (auto simp: new_supervisor_def shard_inv_def shard_config_wf_def sessions_inv_def prepared_inv_Nil hash_wf_def)

lemma reachable_shard_inv: "shard_reachable uuid cfg ps s \<Longrightarrow> shard_bounds cfg \<Longrightarrow> shard_inv cfg s"
  by (induction rule: shard_reachable.induct) (blast intro: new_shard_inv shard_step_inv)+


subsection \<open>Reservation\<close>

definition reserved :: "ShardSupervisor \<Rightarrow> nat" where
  "reserved s = length (sessions s) + length (prepared s)"

text \<open>Places for \<open>n\<close> attachments that have taken their preparation and not registered their session yet.\<close>

definition room :: "ShardConfig \<Rightarrow> nat \<Rightarrow> ShardSupervisor \<Rightarrow> bool" where
  "room c n s \<longleftrightarrow> shard_inv c s \<and> reserved s + n \<le> max_sessions c"

lemma room_less: "room c n s \<Longrightarrow> shard_inv c t \<Longrightarrow> reserved t \<le> reserved s \<Longrightarrow> room c n t"
  by (simp add: room_def)

lemma reserved_reap: "reserved (reap s) \<le> reserved s"
  by (simp add: reserved_def reap_def)

interpretation room_sections: section_invariant "room c n" for c n
proof
  fix s sid fp due now f
  assume r: "room c n s"
  then have inv: "shard_inv c s" by (simp add: room_def)
  show "room c n (reap s)" using r shard_sections.reaped [OF inv] reserved_reap by (rule room_less)
  show "room c n (each_session f s)" if "faithful f"
    using r shard_sections.changed [OF inv that] by (rule room_less) (simp add: reserved_def each_session_def)
  show "room c n (s\<lparr>sessions := AList.delete sid (sessions s)\<rparr>)"
    using r shard_sections.dropped [OF inv] by (rule room_less) (simp add: reserved_def length_delete_le)
  show "room c n (s\<lparr>prepared := AList.delete sid (prepared s)\<rparr>)"
    using r shard_sections.released [OF inv] by (rule room_less) (simp add: reserved_def length_delete_le)
  show "room c n (begin_draining s)"
    using r shard_sections.closed [OF inv] by (rule room_less) (simp add: reserved_def begin_draining_def)
  show "room c n (drain_prepared s)"
    using r shard_sections.drained [OF inv] by (rule room_less) (simp add: reserved_def drain_prepared_def)
  show "room c n (fire_timer now (sid, fp, due) s)" if t: "(sid, fp, due) \<in> set (timers s)" "due \<le> now"
    using r shard_sections.expired [OF inv t] length_delete_le [of sid "prepared s"]
    by (elim room_less) (auto simp: fire_timer_def expire_prepared_def report_failure_def reserved_def split: option.split)
qed

text \<open>
  The shard with the number of attachments between their two sections. Every session comes from an
  attachment, and a preparation is only served while no attachment is between its sections: two
  preparations, or a preparation and other requests, interleave as they like, and so do the sections of any
  number of attachments.
\<close>

inductive attach_step :: "nat \<times> ShardSupervisor \<Rightarrow> nat \<times> ShardSupervisor \<Rightarrow> bool" where
  reserve: "context_validate (prep_context p) = Inr () \<Longrightarrow> config_validate cfg = Inr () \<Longrightarrow> lanes_ok cfg \<Longrightarrow>
    now \<le> clock_max \<Longrightarrow> prepare_reserve now (p :: unit SessionPreparation) cfg ps s = (r1, s') \<Longrightarrow> attach_step (0, s) (0, s')"
| take: "attach_take now ctx att s = (Inr p, s') \<Longrightarrow> attach_step (n, s) (Suc n, s')"
| take_fails: "attach_take now ctx att s = (Inl e, s') \<Longrightarrow> attach_step (n, s) (n, s')"
| admit: "lanes_ok cfg \<Longrightarrow> admit_locked ctx cfg ps fp att' env s = (r2, s') \<Longrightarrow> attach_step (Suc n, s) (n, s')"
| refused: "attach_step (Suc n, s) (n, s)"
| other: "section_step s s' \<Longrightarrow> attach_step (n, s) (n, s')"

lemma room_reserve:
  assumes "config_validate cfg = Inr ()" "lanes_ok cfg" "now \<le> clock_max" "room c 0 s" "prepare_reserve now p cfg ps s = (r, s')"
  shows "room c 0 s'"
proof -
  have inv: "shard_inv c s" using assms(4) by (simp add: room_def)
  from inv assms(3,5) show ?thesis
  proof (cases rule: reserve_cases)
    case 1
    with assms(4) show ?thesis by (simp add: room_sections.reaped)
  next
    case (2 due)
    with keeps_reserve [OF assms(1-3) inv assms(5)] show ?thesis
      by (simp add: room_def reserved_def prepare_insert_def Let_def update_fresh)
  qed
qed

text \<open>Taking a preparation out leaves the place it had.\<close>

lemma room_take:
  assumes "room c n s" "attach_take now ctx att s = (Inr p, s')"
  shows "room c (Suc n) s'"
proof -
  have inv: "shard_inv c s" using assms(1) by (simp add: room_def)
  have s': "s' = s\<lparr>prepared := AList.delete (session_id ctx) (prepared s)\<rparr>" "map_of (prepared s) (session_id ctx) = Some p"
    using assms(2) shard_inv_locks(2) [OF inv]
    by (auto simp: attach_take_def errorE_defs split: sum.splits option.splits)
  have "length (AList.delete (session_id ctx) (prepared s)) < length (prepared s)"
    using hash.len_remove_present [OF shard_inv_unpoisoned(5) [OF inv] s'(2)] s'(2) by (cases "prepared s") auto
  with assms(1) shard_sections.released [OF inv] s'(1) show ?thesis by (simp add: room_def reserved_def)
qed

lemma room_admit:
  assumes "lanes_ok cfg" "room c (Suc n) s" "admit_locked ctx cfg ps fp att env s = (r, s')"
  shows "room c n s' \<and> r \<noteq> Inl AtCapacity"
proof -
  have inv: "shard_inv c s" using assms(2) by (simp add: room_def)
  have le: "reserved (reap s) \<le> reserved s" by (rule reserved_reap)
  note inv' = keeps_admit [OF assms(1) inv assms(3)]
  from inv assms(1,3) show ?thesis
  proof (cases rule: admit_cases)
    case (1 e)
    with inv' le assms(2) show ?thesis by (auto simp: room_def reserved_def)
  next
    case (2 h a)
    with inv' le assms(2) show ?thesis by (simp add: room_def reserved_def register_active_def update_fresh)
  qed
qed

lemma attach_step_room: "attach_step x y \<Longrightarrow> room c (fst x) (snd x) \<Longrightarrow> room c (fst y) (snd y)"
proof (induction rule: attach_step.induct)
  case (take_fails now ctx att s e s' n)
  then show ?case using room_sections.keeps_result [OF room_sections.keeps_take] by simp
next
  case (refused n s)
  then show ?case by (simp add: room_def)
next
  case (other s s' n)
  then show ?case using room_sections.section_keeps by simp
qed (auto intro: room_reserve room_take simp: room_admit)

lemma attach_steps_room:
  "attach_step\<^sup>*\<^sup>* x y \<Longrightarrow> room c (fst x) (snd x) \<Longrightarrow> room c (fst y) (snd y)"
  by (induction rule: rtranclp_induct) (blast intro: attach_step_room)+

lemma admit_with_place:
  assumes "sup_config s = c" "length (sessions s) < max_sessions c"
  shows "fst (admit_internal ctx cfg ps fp att env s) \<noteq> Inl AtCapacity"
proof -
  have le: "length (sessions (reap s)) \<le> length (sessions s)" by (simp add: reap_def)
  have ctx: "context_validate ctx \<noteq> Inl AtCapacity"
    by (auto simp: context_validate_def split: option.splits prod.splits if_splits)
  with assms le session_spawn_error [of cfg ctx ps _ env] show ?thesis
    by (auto simp: admit_internal_def admit_locked_def lock_sessions_def panic_locked_def errorE_defs
        split: sum.splits option.splits)
qed

subsection \<open>Properties\<close>


abbreviation demo_shard :: ShardSupervisor where
  "demo_shard \<equiv> \<lparr>sup_config = default_shard_config\<lparr>max_sessions := 1\<rparr>, sup_providers = demo_providers,
     boot_id = ''boot_1'', accepting = True, sessions = [], prepared = [], sessions_poisoned = False,
     prepared_poisoned = False, next_actor = 0, timers = [], failures = []\<rparr>"

abbreviation demo_preparation :: "string \<Rightarrow> unit SessionPreparation" where
  "demo_preparation sid \<equiv> \<lparr>prep_context = demo_context\<lparr>session_id := sid\<rparr>, prep_manifest = demo_manifest,
     runtime_service_access = None, prep_fingerprint = [1], prep_attachment_fingerprint = [2]\<rparr>"

abbreviation demo_prepared :: "string \<Rightarrow> PreparedSession" where
  "demo_prepared sid \<equiv> \<lparr>pr_context = demo_context\<lparr>session_id := sid\<rparr>, pr_session_config = default_config,
     pr_providers = demo_providers, pr_fingerprint = [1], pr_attachment_fingerprint = [2], expires_at = 120000000000\<rparr>"

lemma default_config_valid: "config_validate default_config = Inr ()"
  by (simp add: config_validate_def default_config_def from_secs_def)

lemma default_lanes: "lanes_ok default_config"
  by (simp add: lanes_ok_def MAX_PERMITS_def u64_max_def default_config_def)

lemmas clock_eval = clock_max_def instant_max_def instant_add_def u64_max_def DEFAULT_PREPARED_SESSION_TTL_def from_secs_def

lemma default_bounds: "n \<le> 128 \<Longrightarrow> shard_bounds (default_shard_config\<lparr>max_sessions := n\<rparr>)"
  using default_lanes by (simp add: shard_bounds_def default_shard_config_def MAX_PERMITS_def clock_eval)

lemma demo_new: "new_supervisor ''1'' (default_shard_config\<lparr>max_sessions := 1\<rparr>) demo_providers = Inr demo_shard"
  using default_config_valid
  by (simp add: new_supervisor_def shard_config_validate_def default_shard_config_def default_retry_def andR_def
      from_secs_def from_millis_def DEFAULT_PREPARED_SESSION_TTL_def)

lemma demo_prepare:
  "sessions s = [] \<Longrightarrow> prepared s = [] \<Longrightarrow> \<not> sessions_poisoned s \<Longrightarrow> \<not> prepared_poisoned s \<Longrightarrow>
   sup_config s = default_shard_config\<lparr>max_sessions := 1\<rparr> \<Longrightarrow>
   prepare_reserve 0 (demo_preparation sid) default_config demo_providers s =
     (Inr Created, s\<lparr>prepared := [(sid, demo_prepared sid)], timers := timers s @ [(sid, [1], 120000000000)]\<rparr>)"
  by (simp add: prepare_reserve_def errorE_defs lock_sessions_def lock_prepared_def reap_def prepare_insert_def Let_def
      saturating_add_def default_shard_config_def clock_eval)

lemma demo_contexts:
  "context_validate demo_context = Inr ()" "context_validate (demo_context\<lparr>session_id := ''ses_01JABCXYZ''\<rparr>) = Inr ()"
  by (simp_all add: context_validate_ok ident_eval)

abbreviation demo_holding :: ShardSupervisor where
  "demo_holding \<equiv> demo_shard\<lparr>prepared := [(''ses_01JABCDEF'', demo_prepared ''ses_01JABCDEF'')],
     timers := [(''ses_01JABCDEF'', [1], 120000000000)]\<rparr>"

lemma demo_reserve:
  "prepare_reserve 0 (demo_preparation ''ses_01JABCDEF'') default_config demo_providers demo_shard = (Inr Created, demo_holding)"
  using demo_prepare [of demo_shard "''ses_01JABCDEF''"] by simp

lemma demo_preparation_context: "context_validate (prep_context (demo_preparation ''ses_01JABCDEF'')) = Inr ()"
  using demo_contexts by simp

lemma demo_reserved: "shard_reachable ''1'' (default_shard_config\<lparr>max_sessions := 1\<rparr>) demo_providers demo_holding"
  by (rule shard_reachable.step [OF shard_reachable.start [OF demo_new]
        shard_step.reserve [OF demo_preparation_context default_config_valid default_lanes _ demo_reserve]]) simp


text \<open>
  The bound on the time to live matters: a configuration the shard accepts makes the first
  preparation panic with both locks held, and every later request fails.
\<close>

lemma ttl_overflow_poisons:
  fixes p :: "'x SessionPreparation"
  defines "c \<equiv> default_shard_config\<lparr>prepared_session_ttl := instant_max\<rparr>"
  shows "shard_config_validate c = Inr ()"
    and "new_supervisor uuid c ps0 = Inr s \<Longrightarrow> 0 < now \<Longrightarrow> prepare_reserve now p cfg ps s = (r, s') \<Longrightarrow>
      sessions_poisoned s' \<and> prepared_poisoned s' \<and> load s' = (Inl (Internal ''session registry lock poisoned''), s')"
proof -
  show "shard_config_validate c = Inr ()"
    using default_config_valid
    by (simp add: c_def shard_config_validate_def default_shard_config_def default_retry_def andR_def from_secs_def
        from_millis_def instant_max_def)
  show "sessions_poisoned s' \<and> prepared_poisoned s' \<and> load s' = (Inl (Internal ''session registry lock poisoned''), s')"
    if "new_supervisor uuid c ps0 = Inr s" "0 < now" "prepare_reserve now p cfg ps s = (r, s')"
    using that
    by (auto simp: new_supervisor_def andR_def prepare_reserve_def lock_sessions_def lock_prepared_def load_def errorE_defs
        c_def default_shard_config_def instant_add_def saturating_add_def u64_max_def panic_both_locked_def reap_def split: sum.splits)
qed

text \<open>
  C24 (safety). As long as no preparation is served while an attachment is between its two
  sections, and every session comes from an attachment, a reservation is worth a place: active
  sessions, preparations and attachments between their sections together never exceed
  max_sessions, and an attachment that has taken its preparation is never refused with
  AtCapacity, whatever other attachments, stops, expiries and drains do between its sections;
  for a shard within the bounds of its configuration.
\<close>

theorem reserved_attachment_has_a_place:
  assumes "new_supervisor uuid cfg ps = Inr s0" and "shard_bounds cfg" and "attach_step\<^sup>*\<^sup>* (0, s0) (n, s)"
  shows "length (sessions s) + length (prepared s) + n \<le> max_sessions cfg \<and>
    (0 < n \<longrightarrow> fst (admit_internal ctx cfg' ps' fp att env s) \<noteq> Inl AtCapacity)"
proof -
  have "room cfg 0 s0"
    using new_shard_inv [OF assms(1,2)] assms(1)
    by (auto simp: room_def reserved_def new_supervisor_def andR_def split: sum.splits)
  then have r: "room cfg n s" using attach_steps_room [OF assms(3)] by simp
  then have "sup_config s = cfg" by (simp add: room_def shard_inv_def)
  with r show ?thesis using admit_with_place [of s cfg] by (auto simp: room_def reserved_def)
qed

lemma demo_take:
  "attach_take 1 demo_context [2] demo_holding = (Inr (demo_prepared ''ses_01JABCDEF''), demo_holding\<lparr>prepared := []\<rparr>)"
  using demo_contexts(1) by (simp add: attach_take_def errorE_defs lock_prepared_def validate_prepared_entry_def)

lemma demo_attaching: "attach_step\<^sup>*\<^sup>* (0, demo_shard) (1, demo_holding\<lparr>prepared := []\<rparr>)"
proof (rule rtranclp.rtrancl_into_rtrancl)
  show "attach_step\<^sup>*\<^sup>* (0, demo_shard) (0, demo_holding)"
    by (rule r_into_rtranclp, rule attach_step.reserve [OF demo_preparation_context default_config_valid default_lanes _ demo_reserve]) simp
  show "attach_step (0, demo_holding) (1, demo_holding\<lparr>prepared := []\<rparr>)"
    using attach_step.take [OF demo_take, of 0] by simp
qed

theorem reserved_attachment_has_a_place_witness:
  "fst (admit_internal demo_context default_config demo_providers (Some [1]) (Some [2]) [] (demo_holding\<lparr>prepared := []\<rparr>))
     \<noteq> Inl AtCapacity"
  using reserved_attachment_has_a_place [OF demo_new default_bounds demo_attaching] by simp

end
