(* ===== verification/ShardGuarantees.thy ===== *)
theory ShardGuarantees
  imports ShardInv
begin

text \<open>
  What the supervisor guarantees to its clients: preparations expire, stale requests are fenced,
  draining reaches every session; and three behaviours worth knowing: a failed attachment drops its
  preparation silently, interleaved requests can reserve more than the shard's capacity, and an
  attachment that overlaps a drain can register its session on the closed shard.
\<close>

subsection \<open>Expiry\<close>

lemma fire_timer_timers: "timers (fire_timer now t s) = remove1 t (timers s)"
  by (cases t) (auto simp: fire_timer_def expire_prepared_def report_failure_def split: option.split)

lemma fire_all_timers:
  assumes "shard_inv c s" "\<And>sid fp due. (sid, fp, due) \<in> set ts \<Longrightarrow> due \<le> now" "timers s = ts"
  shows "shard_inv c (fold (fire_timer now) ts s) \<and> timers (fold (fire_timer now) ts s) = []"
  using assms
proof (induction ts arbitrary: s)
  case (Cons t ts)
  obtain sid fp due where t: "t = (sid, fp, due)" by (cases t)
  have "shard_inv c (fire_timer now t s)"
    unfolding t by (rule shard_sections.expired [OF Cons.prems(1)]) (use Cons.prems t in auto)
  moreover have "timers (fire_timer now t s) = ts" using Cons.prems(3) by (simp add: fire_timer_timers)
  ultimately show ?case using Cons.IH [of "fire_timer now t s"] Cons.prems(2) by (auto simp: t)
qed simp

text \<open>
  C25 (liveness). A preparation never outlives its expiry task: in every reachable state of a
  shard within the bounds of its configuration, when all pending expiry tasks are due and have
  run, no preparation is left and every place they reserved is free again.
\<close>

theorem preparations_expire:
  assumes "shard_reachable uuid cfg ps s" and "shard_bounds cfg"
    and "\<forall>(sid, fp, due) \<in> set (timers s). due \<le> now"
  shows "prepared (fold (fire_timer now) (timers s) s) = []"
proof -
  have due: "(sid, fp, due) \<in> set (timers s) \<Longrightarrow> due \<le> now" for sid fp due using assms(3) by auto
  have "shard_inv cfg (fold (fire_timer now) (timers s) s)" "timers (fold (fire_timer now) (timers s) s) = []"
    using fire_all_timers [OF reachable_shard_inv [OF assms(1,2)] due refl] by simp_all
  then have "map_of (prepared (fold (fire_timer now) (timers s) s)) sid = None" for sid
    by (cases "map_of (prepared (fold (fire_timer now) (timers s) s)) sid")
      (auto simp: shard_inv_def prepared_inv_def has_timer_def)
  then show ?thesis by (metis list.exhaust map_of_Cons_code(2) option.distinct(1) prod.exhaust)
qed

theorem preparations_expire_witness:
  "\<exists>s. shard_reachable ''1'' (default_shard_config\<lparr>max_sessions := 1\<rparr>) demo_providers s \<and> length (prepared s) = 1 \<and>
     prepared (fold (fire_timer 120000000000) (timers s) s) = []"
  using demo_reserved preparations_expire [OF demo_reserved default_bounds, of 120000000000]
  by (intro exI [of _ demo_holding]) simp

subsection \<open>Attachment\<close>

lemma admit_internal_prepared:
  "admit_internal ctx cfg ps fp att env s = (r, s') \<Longrightarrow> prepared s' = prepared s \<and> failures s' = failures s"
  by (auto simp: admit_internal_def admit_locked_def errorE_defs lock_sessions_def reap_def panic_locked_def register_active_def
      split: option.splits sum.splits if_splits prod.splits)

lemma attach_taken:
  assumes "context_validate ctx = Inr ()" "\<not> prepared_poisoned s" "map_of (prepared s) (session_id ctx) = Some p"
    "validate_prepared_entry now p ctx att = Inr ()"
  shows "attach_prepared now ctx att env s =
    admit_internal ctx (pr_session_config p) (pr_providers p) (Some (pr_fingerprint p)) (Some (pr_attachment_fingerprint p))
      env (s\<lparr>prepared := AList.delete (session_id ctx) (prepared s)\<rparr>)"
  using assms by (simp add: attach_prepared_def attach_take_def lock_prepared_def errorE_defs)

text \<open>
  C26 (error). An attachment that finds its preparation valid, on a shard whose preparation lock
  is not poisoned, consumes it whatever becomes of the admission: the entry is gone from the
  registry afterwards and no failure is reported for it, also when a draining shard refuses the
  admission.
\<close>

theorem failed_attachment_drops_preparation:
  assumes "context_validate ctx = Inr ()" and "\<not> prepared_poisoned s" and "map_of (prepared s) (session_id ctx) = Some p"
    and "validate_prepared_entry now p ctx att = Inr ()" and "attach_prepared now ctx att env s = (r, s')"
  shows "map_of (prepared s') (session_id ctx) = None \<and> failures s' = failures s \<and>
    (\<not> accepting s \<longrightarrow> r = Inl RuntimeError.Draining \<and> sessions s' = sessions s)"
  using assms(5) admit_internal_prepared [OF assms(5) [unfolded attach_taken [OF assms(1-4)]]]
  unfolding attach_taken [OF assms(1-4)]
  by (auto simp: delete_conv') (auto simp: admit_internal_def errorE_defs)

lemma demo_entry_valid: "validate_prepared_entry 1 (demo_prepared ''ses_01JABCDEF'') demo_context [2] = Inr ()"
  by (simp add: validate_prepared_entry_def)

theorem failed_attachment_drops_preparation_witness:
  "\<exists>s'. attach_prepared 1 demo_context [2] [] (begin_draining demo_holding) = (Inl RuntimeError.Draining, s') \<and>
     map_of (prepared s') ''ses_01JABCDEF'' = None \<and> failures s' = []"
proof -
  obtain r s' where a: "attach_prepared 1 demo_context [2] [] (begin_draining demo_holding) = (r, s')" by fastforce
  have "map_of (prepared (begin_draining demo_holding)) (session_id demo_context) = Some (demo_prepared ''ses_01JABCDEF'')"
    by (simp add: begin_draining_def)
  from failed_attachment_drops_preparation [OF demo_contexts(1) _ this demo_entry_valid a] a show ?thesis
    by (auto simp: begin_draining_def)
qed

lemma demo_session_spawn:
  "\<exists>h a. session_spawn default_config demo_context demo_providers p [] = Some (Inr (h, a))"
proof -
  have "playout_new (playout_history_capacity default_config) \<noteq> None"
    by (simp add: default_config_def playout_new_def)
  then show ?thesis
    using default_config_valid demo_contexts(1)
    by (auto simp: session_spawn_def andR_def ensure_capabilities_def lanes_ok_def MAX_PERMITS_def u64_max_def default_config_def)
qed

lemma admit_ok:
  assumes "\<not> sessions_poisoned s"
    "map_of (sessions (reap s)) (session_id ctx) = None" "length (sessions (reap s)) < max_sessions (sup_config s)"
    "spawn_with_retry (event_spool_capacity (sup_config s)) (event_batch_size (sup_config s)) (event_retry (sup_config s)) = Some q"
    "session_spawn cfg ctx ps q env = Some (Inr (h, a))"
  shows "admit_locked ctx cfg ps fp att env s = (Inr (h, a), register_active ctx h fp att (reap s))"
  using assms by (simp add: admit_locked_def errorE_defs lock_sessions_def reap_def)

lemma demo_admit:
  assumes "sup_config s = default_shard_config\<lparr>max_sessions := 1\<rparr>" "sessions s = []" "\<not> sessions_poisoned s"
  obtains h a where "hnd_context h = demo_context"
    "admit_locked demo_context default_config demo_providers (Some [1]) (Some [2]) [] s =
       (Inr (h, a), register_active demo_context h (Some [1]) (Some [2]) s)"
proof -
  obtain q where q: "spawn_with_retry 512 32 default_retry = Some q"
    using spawn_total [of "default_shard_config\<lparr>max_sessions := 1\<rparr>"] demo_new default_bounds [of 1]
    by (auto simp: new_supervisor_def shard_config_wf_def default_shard_config_def)
  obtain h a where h: "session_spawn default_config demo_context demo_providers q [] = Some (Inr (h, a))"
    using demo_session_spawn by blast
  have r: "reap s = s" using assms(2) by (simp add: reap_def)
  have "admit_locked demo_context default_config demo_providers (Some [1]) (Some [2]) [] s =
      (Inr (h, a), register_active demo_context h (Some [1]) (Some [2]) (reap s))"
    by (rule admit_ok [OF assms(3) _ _ _ h]) (use assms q in \<open>simp_all add: r default_shard_config_def\<close>)
  with that session_spawn_context [OF h] r show ?thesis by auto
qed

text \<open>
  A preparation between the two lock sections of an attachment can take the place
  the attachment released: a shard with one place reaches a state in which active and prepared
  sessions together exceed it.
\<close>

lemma reservation_race:
  "\<exists>s. shard_reachable ''1'' (default_shard_config\<lparr>max_sessions := 1\<rparr>) demo_providers s \<and>
     length (sessions s) + length (prepared s) > max_sessions (sup_config s)"
proof -
  let ?A = "''ses_01JABCDEF''" and ?C = "''ses_01JABCXYZ''" and ?cfg = "default_shard_config\<lparr>max_sessions := 1\<rparr>"
  let ?s2 = "demo_shard\<lparr>timers := [(?A, [1], 120000000000)]\<rparr>"
  let ?s3 = "?s2\<lparr>prepared := [(?C, demo_prepared ?C)], timers := [(?A, [1], 120000000000), (?C, [1], 120000000000)]\<rparr>"
  have "attach_take 1 demo_context [2] demo_holding = (Inr (demo_prepared ?A), ?s2)"
    using demo_take by simp
  with demo_reserved have r2: "shard_reachable ''1'' ?cfg demo_providers ?s2"
    by (blast intro: shard_reachable.step shard_step.take)
  have "prepare_reserve 0 (demo_preparation ?C) default_config demo_providers ?s2 = (Inr Created, ?s3)"
    using demo_prepare [of ?s2 ?C] by simp
  moreover have "context_validate (prep_context (demo_preparation ?C)) = Inr ()" using demo_contexts by simp
  ultimately have r3: "shard_reachable ''1'' ?cfg demo_providers ?s3"
    using default_config_valid default_lanes by (intro shard_reachable.step [OF r2] shard_step.reserve) simp_all
  obtain h a where "admit_locked demo_context default_config demo_providers (Some [1]) (Some [2]) [] ?s3 =
      (Inr (h, a), register_active demo_context h (Some [1]) (Some [2]) ?s3)"
    by (rule demo_admit [of ?s3]) simp_all
  with r3 have "shard_reachable ''1'' ?cfg demo_providers (register_active demo_context h (Some [1]) (Some [2]) ?s3)"
    by (blast intro: shard_reachable.step shard_step.admit default_lanes)
  moreover have "length (sessions (register_active demo_context h (Some [1]) (Some [2]) ?s3)) = 1"
    "length (prepared (register_active demo_context h (Some [1]) (Some [2]) ?s3)) = 1"
    "max_sessions (sup_config (register_active demo_context h (Some [1]) (Some [2]) ?s3)) = 1"
    by (simp_all add: register_active_def)
  ultimately show ?thesis by (metis add_less_cancel_left less_add_one one_add_one)
qed

text \<open>
  The flag \<open>accepting\<close> is read before the lock is taken: an attachment that found the shard open registers
  its session also when the shard has closed and drained in between, and the drain never sees it.
\<close>

lemma closed_shard_admits:
  "\<exists>s s'. shard_reachable ''1'' (default_shard_config\<lparr>max_sessions := 1\<rparr>) demo_providers s \<and> \<not> accepting s \<and> sessions s = [] \<and>
     fst (drain_handles s) = Inr [] \<and> shard_step s s' \<and> length (sessions s') = 1"
proof -
  let ?s1 = "demo_holding\<lparr>prepared := []\<rparr>"
  let ?s2 = "begin_draining ?s1"
  have "shard_reachable ''1'' (default_shard_config\<lparr>max_sessions := 1\<rparr>) demo_providers ?s1"
    using demo_reserved demo_take by (blast intro: shard_reachable.step shard_step.take)
  then have r: "shard_reachable ''1'' (default_shard_config\<lparr>max_sessions := 1\<rparr>) demo_providers ?s2"
    by (blast intro: shard_reachable.step shard_step.other section_step.begin_draining)
  obtain h a where "admit_locked demo_context default_config demo_providers (Some [1]) (Some [2]) [] ?s2 =
      (Inr (h, a), register_active demo_context h (Some [1]) (Some [2]) ?s2)"
    by (rule demo_admit [of ?s2]) (simp_all add: begin_draining_def)
  then have "shard_step ?s2 (register_active demo_context h (Some [1]) (Some [2]) ?s2)"
    by (blast intro: shard_step.admit default_lanes)
  moreover have "length (sessions (register_active demo_context h (Some [1]) (Some [2]) ?s2)) = 1"
    by (simp add: register_active_def begin_draining_def)
  moreover have "\<not> accepting ?s2" "sessions ?s2 = []" "fst (drain_handles ?s2) = Inr []"
    by (simp_all add: begin_draining_def drain_handles_def lock_sessions_def unfinished_def errorE_defs)
  ultimately show ?thesis using r by blast
qed

subsection \<open>Stopping\<close>

text \<open>
  A stop request for another runtime generation, tenant or attachment binding is
  refused and leaves the shard as it was, apart from the removal of finished sessions.
\<close>

lemma stale_stop_is_fenced:
  assumes "context_validate ctx = Inr ()" and "shard_inv c s"
    and stale: "case map_of (sessions (reap s)) (session_id ctx) of
      Some e \<Rightarrow> validate_active_entry e ctx att = Inl err
    | None \<Rightarrow> (\<exists>p. map_of (prepared s) (session_id ctx) = Some p \<and> validate_prepared_entry now p ctx att = Inl err)"
  shows "stop_session now ctx att reason w s = (Inl err, reap s)"
  using assms(1,3) shard_inv_locks [OF assms(2)] shard_inv_locks [OF shard_sections.reaped [OF assms(2)]]
  by (auto simp: stop_session_def stop_begin_def stop_prepared_def errorE_defs split: option.splits)

text \<open>With nothing active under the identifier, a stop request releases what is prepared there.\<close>

lemma stop_inactive:
  assumes "context_validate ctx = Inr ()" "shard_inv c s" "map_of (sessions (reap s)) (session_id ctx) = None"
  shows "stop_session now ctx att reason w s =
    (case map_of (prepared s) (session_id ctx) of
       None \<Rightarrow> (Inr (), reap s)
     | Some p \<Rightarrow>
         (case validate_prepared_entry now p ctx att of
            Inl err \<Rightarrow> (Inl err, reap s)
          | Inr _ \<Rightarrow> (Inr (), (reap s)\<lparr>prepared := AList.delete (session_id ctx) (prepared s)\<rparr>)))"
  using assms(1,3) shard_inv_locks [OF assms(2)] shard_inv_locks [OF shard_sections.reaped [OF assms(2)]]
  by (auto simp: stop_session_def stop_begin_def stop_prepared_def errorE_defs split: option.splits sum.splits)

text \<open>Under the invariant an actor is behind one entry.\<close>

lemma actor_unique:
  assumes "sessions_inv c n m" "map_of m sid = Some e" "map_of m sid' = Some e'" "as_actor e' = as_actor e"
  shows "sid' = sid"
proof -
  have "inj_on (\<lambda>(_, e). as_actor e) (set m)" using assms(1) by (simp add: sessions_inv_def distinct_map)
  moreover have "(sid, e) \<in> set m" "(sid', e') \<in> set m" using assms(2,3) by (auto dest: map_of_SomeD)
  ultimately show ?thesis using assms(4) inj_onD [of "\<lambda>(_, e). as_actor e" "set m" "(sid', e')" "(sid, e)"] by simp
qed

lemma find_actor:
  assumes "shard_inv c s" "map_of (sessions s) sid = Some e"
  shows "find (\<lambda>x. as_actor x = as_actor e) (map snd (sessions s)) = Some e"
proof -
  have inj: "inj_on (\<lambda>(_, e). as_actor e) (set (sessions s))"
    using assms(1) by (simp add: shard_inv_def sessions_inv_def distinct_map)
  have e: "(sid, e) \<in> set (sessions s)" using assms(2) by (rule map_of_SomeD)
  have "\<exists>x. find (\<lambda>x. as_actor x = as_actor e) (map snd (sessions s)) = Some x"
    using e by (cases "find (\<lambda>x. as_actor x = as_actor e) (map snd (sessions s))") (force simp: find_None_iff)+
  then obtain x where x: "find (\<lambda>x. as_actor x = as_actor e) (map snd (sessions s)) = Some x" ..
  then obtain k where "(k, x) \<in> set (sessions s)" "as_actor x = as_actor e" by (auto simp: find_Some_iff) (metis nth_mem prod.collapse)
  with inj_onD [OF inj, of "(k, x)" "(sid, e)"] e have "x = e" by simp
  with x show ?thesis by simp
qed

lemma map_of_each_session: "map_of (sessions (each_session f s)) sid = map_option (f sid) (map_of (sessions s) sid)"
  by (simp add: each_session_def map_of_each)

lemma change_actor_at:
  assumes "shard_inv c s" "map_of (sessions s) sid = Some e"
  shows "map_of (sessions (change_actor (as_actor e) f s)) k = (if k = sid then Some (f e) else map_of (sessions s) k)"
proof -
  have "as_actor e' \<noteq> as_actor e" if "map_of (sessions s) k = Some e'" "k \<noteq> sid" for e'
    using actor_unique [OF _ assms(2) that(1)] that(2) assms(1) by (auto simp: shard_inv_def)
  with assms(2) show ?thesis
    by (cases "map_of (sessions s) k") (auto simp: change_actor_def map_of_each_session)
qed

lemma signal_ok: "fst (signal_cancel reason e) = Inr ()"
  by (auto simp: signal_cancel_def session_cancel_def send_control_def split: sum.split try_send_error.split)

text \<open>
  A state of the shard during a stop: the entry under the identifier is the one the request found, as
  far as the request has changed it, and everything else is as it was.
\<close>

definition stopping :: "ShardConfig \<Rightarrow> ShardSupervisor \<Rightarrow> string \<Rightarrow> ActiveSession \<Rightarrow> ShardSupervisor \<Rightarrow> bool" where
  "stopping c s0 sid e t \<longleftrightarrow>
     shard_inv c t \<and> map_of (sessions t) sid = Some e \<and> prepared t = prepared s0 \<and>
     (\<forall>k. k \<noteq> sid \<longrightarrow> map_of (sessions t) k = map_of (sessions s0) k)"

lemma stopping_change:
  assumes "stopping c s0 sid e t" "as_actor e = n" "\<And>e. identity_of (f e) = identity_of e \<and> (as_finished e \<longrightarrow> as_finished (f e))"
  shows "stopping c s0 sid (f e) (change_actor n f t)"
  using assms(1,2) shard_sections.changed_actor [of c t f n] assms(3) change_actor_at [of c t sid e f]
  by (auto simp: stopping_def change_actor_def each_session_def)

lemma stop_wait_spec:
  assumes "stopping c s0 sid e t" "as_actor e = n"
  shows "\<exists>t' e'. stop_wait n w t =
      ((if within_grace w \<or> within_forced w \<or> within_abort w then Inr ()
        else Inl (Internal ''session actor did not stop after abort'')), t') \<and>
    stopping c s0 sid e' t' \<and> identity_of e' = identity_of e \<and>
    (\<not> (within_grace w \<or> within_forced w \<or> within_abort w) \<longrightarrow>
       as_finished e' = as_finished e \<and> hnd_force_cancel (as_handle e') \<and> as_aborted e')"
proof -
  have actor: "as_actor (force_entry e) = n" "as_actor (abort_entry (force_entry e)) = n"
    using assms(2) by (simp_all add: force_entry_def abort_entry_def)
  note ch = stopping_change [OF _ _ conjI [OF entry_changes(1) impI [OF entry_changes(2)]]]
  have f: "stopping c s0 sid (force_entry e) (change_actor n force_entry t)"
    by (rule stopping_change [OF assms]) simp
  have a: "stopping c s0 sid (abort_entry (force_entry e)) (change_actor n abort_entry (change_actor n force_entry t))"
    by (rule stopping_change [OF f actor(1)]) simp
  note m = ch [OF assms] ch [OF f actor(1)] ch [OF a actor(2)]
  have last: "as_finished (abort_entry (force_entry e)) = as_finished e" "hnd_force_cancel (as_handle (abort_entry (force_entry e)))"
    "as_aborted (abort_entry (force_entry e))"
    by (simp_all add: abort_entry_def force_entry_def force_cancel_def)
  show ?thesis
    using m a last
    by (cases "within_grace w"; cases "within_forced w"; cases "within_abort w")
      (auto simp: stop_wait_def errorE_defs intro: entry_changes exI)
qed

text \<open>
  Stopping an active session: it is removed when its actor ends within one of the waits; otherwise the
  request fails and leaves it registered, cancelled by its token and aborted.
\<close>

lemma stop_active:
  assumes ctx: "context_validate ctx = Inr ()" and inv: "shard_inv c s"
    and e: "map_of (sessions (reap s)) (session_id ctx) = Some e" "validate_active_entry e ctx att = Inr ()"
  shows "\<exists>s'. stop_session now ctx att reason w s =
      ((if within_grace w \<or> within_forced w \<or> within_abort w then Inr ()
        else Inl (Internal ''session actor did not stop after abort'')), s') \<and>
    shard_inv c s' \<and> prepared s' = prepared s \<and>
    (\<forall>sid. sid \<noteq> session_id ctx \<longrightarrow> map_of (sessions s') sid = map_of (sessions (reap s)) sid) \<and>
    (if within_grace w \<or> within_forced w \<or> within_abort w then map_of (sessions s') (session_id ctx) = None
     else \<exists>e'. map_of (sessions s') (session_id ctx) = Some e' \<and> identity_of e' = identity_of e \<and>
       \<not> as_finished e' \<and> hnd_force_cancel (as_handle e') \<and> as_aborted e')"
proof -
  let ?sid = "session_id ctx" and ?n = "as_actor e" and ?ok = "within_grace w \<or> within_forced w \<or> within_abort w"
  have r: "shard_inv c (reap s)" using inv by (rule shard_sections.reaped)
  have live: "\<not> as_finished e" using e(1) by (auto simp: reap_def dest: map_of_SomeD)
  have begun: "stop_begin ctx att s = (Inr (Some ?n), reap s)"
    using shard_inv_locks [OF inv] e by (simp add: stop_begin_def errorE_defs)
  let ?e = "snd (signal_cancel reason e)"
  let ?t = "change_actor ?n (\<lambda>e. snd (signal_cancel reason e)) (reap s)"
  have sig: "stop_signal ?n reason (reap s) = (Inr (), ?t)"
    using find_actor [OF r e(1)] signal_ok [of reason e] by (simp add: stop_signal_def errorE_defs)
  have st: "stopping c (reap s) ?sid ?e ?t"
    by (rule stopping_change [where f = "\<lambda>e. snd (signal_cancel reason e)"])
      (use r e(1) in \<open>auto simp: stopping_def signal_cancel_entry\<close>)
  have actor: "as_actor ?e = ?n" using signal_cancel_entry(1) [of reason e] by (simp add: identity_of_def)
  obtain t e' where t: "stop_wait ?n w ?t = ((if ?ok then Inr () else Inl (Internal ''session actor did not stop after abort'')), t)"
    "stopping c (reap s) ?sid e' t" "identity_of e' = identity_of e"
    "\<not> ?ok \<longrightarrow> as_finished e' = as_finished e \<and> hnd_force_cancel (as_handle e') \<and> as_aborted e'"
    using stop_wait_spec [OF st actor, of w] by (auto simp: signal_cancel_entry)
  have gen: "runtime_generation (hnd_context (as_handle e')) = runtime_generation ctx"
    using e(2) t(3) by (auto simp: validate_active_entry_def identity_of_def Let_def split: if_splits)
  have fin: "stop_finish ctx t = (Inr (), t\<lparr>sessions := AList.delete ?sid (sessions t)\<rparr>)"
    using t(2) gen shard_inv_locks [of c t] by (auto simp: stop_finish_def errorE_defs stopping_def)
  have kept: "shard_inv c (t\<lparr>sessions := AList.delete ?sid (sessions t)\<rparr>)"
    using t(2) by (intro shard_sections.dropped) (simp add: stopping_def)
  show ?thesis
  proof (cases ?ok)
    case True
    then have "stop_session now ctx att reason w s = (Inr (), t\<lparr>sessions := AList.delete ?sid (sessions t)\<rparr>)"
      using ctx begun sig t(1) fin by (simp add: stop_session_def errorE_defs)
    with True t(2) kept show ?thesis by (auto simp: stopping_def delete_conv')
  next
    case False
    then have "stop_session now ctx att reason w s = (Inl (Internal ''session actor did not stop after abort''), t)"
      using ctx begun sig t(1) by (simp add: stop_session_def errorE_defs)
    with False t live show ?thesis by (auto simp: stopping_def)
  qed
qed

text \<open>
  C27 (functional). Stopping an active session on a shard in its invariant, without
  interference, when its actor ends within one of the three waits and nothing is prepared under
  the same identifier, succeeds, removes exactly that session, and the same request again
  succeeds without effect but the removal of finished sessions. (A preparation made under the
  identifier while the session was attaching would be released by the second request.)
\<close>

theorem stop_session_is_idempotent:
  assumes "context_validate ctx = Inr ()" and "shard_inv cfg s"
    and "map_of (sessions (reap s)) (session_id ctx) = Some e" and "validate_active_entry e ctx att = Inr ()"
    and "within_grace w \<or> within_forced w \<or> within_abort w" and "map_of (prepared s) (session_id ctx) = None"
  shows "\<exists>s'. stop_session now ctx att reason w s = (Inr (), s') \<and> map_of (sessions s') (session_id ctx) = None \<and>
    (\<forall>sid. sid \<noteq> session_id ctx \<longrightarrow> map_of (sessions s') sid = map_of (sessions (reap s)) sid) \<and> prepared s' = prepared s \<and>
    stop_session now' ctx att reason' w' s' = (Inr (), reap s')"
proof -
  obtain s' where s': "stop_session now ctx att reason w s = (Inr (), s')" "map_of (sessions s') (session_id ctx) = None"
    "shard_inv cfg s'" "prepared s' = prepared s"
    "\<forall>sid. sid \<noteq> session_id ctx \<longrightarrow> map_of (sessions s') sid = map_of (sessions (reap s)) sid"
    using stop_active [OF assms(1-4), of now reason w] assms(5) by auto
  have "map_of (sessions (reap s')) (session_id ctx) = None"
    using s'(2) map_of_filter_Some [OF shard_inv_unpoisoned(4) [OF s'(3)]]
    by (cases "map_of (sessions (reap s')) (session_id ctx)") (auto simp: reap_def)
  then have "stop_session now' ctx att reason' w' s' = (Inr (), reap s')"
    using stop_inactive [OF assms(1) s'(3)] assms(6) s'(4) by simp
  with s' show ?thesis by blast
qed

abbreviation demo_active :: ActiveSession where
  "demo_active \<equiv> \<lparr>as_handle = \<lparr>hnd_context = demo_context, hnd_control = chan_new 64, hnd_media = chan_new 128,
     hnd_max_audio_frame_bytes = 65536, hnd_force_cancel = False, hnd_media_overrun = False\<rparr>,
     as_finished = False, as_fingerprint = Some [1], as_attachment_fingerprint = Some [2], as_aborted = False,
     as_actor = 0\<rparr>"

abbreviation demo_running :: ShardSupervisor where
  "demo_running \<equiv> demo_shard\<lparr>sessions := [(''ses_01JABCDEF'', demo_active)], next_actor := 1\<rparr>"

lemma demo_running_inv: "shard_inv (default_shard_config\<lparr>max_sessions := 1\<rparr>) demo_running"
  using new_shard_inv [OF demo_new default_bounds]
  by (simp add: shard_inv_def sessions_inv_def hash_wf_def)

theorem stop_session_is_idempotent_witness:
  "\<exists>s'. stop_session 5 demo_context [2] ''transport_closed'' \<lparr>within_grace = False, within_forced = True, within_abort = False\<rparr>
       demo_running = (Inr (), s') \<and> map_of (sessions s') ''ses_01JABCDEF'' = None"
proof -
  let ?w = "\<lparr>within_grace = False, within_forced = True, within_abort = False\<rparr>"
  have e: "map_of (sessions (reap demo_running)) (session_id demo_context) = Some demo_active" by (simp add: reap_def)
  have v: "validate_active_entry demo_active demo_context [2] = Inr ()" by (simp add: validate_active_entry_def)
  have w: "within_grace ?w \<or> within_forced ?w \<or> within_abort ?w" by simp
  show ?thesis
    using stop_session_is_idempotent [OF demo_contexts(1) demo_running_inv e v w, of 5 "''transport_closed''"
        6 "''transport_closed''" ?w] by auto
qed

subsection \<open>Draining\<close>

text \<open>
  What draining has done to a session that was running: it has finished, or it has been cancelled
  by its token and then aborted.
\<close>

definition drained :: "ActiveSession \<Rightarrow> bool" where
  "drained e \<longleftrightarrow> as_finished e \<or> hnd_force_cancel (as_handle e) \<and> as_aborted e"

lemma unfinished_actor: "map_of (sessions s) sid = Some e \<Longrightarrow> \<not> as_finished e \<Longrightarrow> as_actor e \<in> set (unfinished s)"
  by (force simp: unfinished_def dest: map_of_SomeD)

lemma finished_actor:
  "map_of (sessions s) sid = Some e \<Longrightarrow> as_actor e \<notin> set (unfinished s) \<Longrightarrow> as_finished e"
  using unfinished_actor by blast

lemma each_session_frame [simp]:
  "sessions_poisoned (each_session f s) = sessions_poisoned s" "prepared_poisoned (each_session f s) = prepared_poisoned s"
  "accepting (each_session f s) = accepting s" "prepared (each_session f s) = prepared s"
  "failures (each_session f s) = failures s"
  by (simp_all add: each_session_def)

lemma each_session_unfinished: "faithful f \<Longrightarrow> set (unfinished (each_session f s)) \<subseteq> set (unfinished s)"
  by (force simp: unfinished_def each_session_def faithful_def identity_of_def)

lemma faithful_finish: "faithful (\<lambda>sid e. if fin sid then mark_finished e else e)"
  by simp

text \<open>The forced phase: tokens, then a last wait.\<close>

definition forced_wait :: "nat list \<Rightarrow> (string \<Rightarrow> bool) \<Rightarrow> ShardSupervisor \<Rightarrow> ShardSupervisor" where
  "forced_wait handles af s =
     finish_when af (each_session (\<lambda>_ e. if as_actor e \<in> set handles then unless_finished force_entry e else e) s)"

lemma forced_wait_frame [simp]:
  "sessions_poisoned (forced_wait hs f s) = sessions_poisoned s"
  "accepting (forced_wait hs f s) = accepting s" "prepared (forced_wait hs f s) = prepared s" "failures (forced_wait hs f s) = failures s"
  by (simp_all add: forced_wait_def finish_when_def)

lemma forced_wait_entry:
  assumes "set (unfinished s) \<subseteq> set handles" "map_of (sessions s) sid = Some e"
  shows "\<exists>e'. map_of (sessions (forced_wait handles af s)) sid = Some e' \<and>
    (as_finished e' \<or> as_actor e' \<in> set handles \<and> hnd_force_cancel (as_handle e'))"
proof (cases "as_finished e")
  case True
  with assms(2) show ?thesis
    by (auto simp: forced_wait_def finish_when_def map_of_each_session unless_finished_def mark_finished_def)
next
  case False
  then have "as_actor e \<in> set handles" using assms unfinished_actor by blast
  with assms(2) False show ?thesis
    by (auto simp: forced_wait_def finish_when_def map_of_each_session unless_finished_def mark_finished_def force_entry_def
        force_cancel_def)
qed

text \<open>A wait that leaves no handle unfinished has drained every session; otherwise aborting does.\<close>

lemma forced_wait_drained:
  assumes "set (unfinished s) \<subseteq> set handles" "map_of (sessions s) sid = Some e" "all_finished handles (forced_wait handles af s)"
  shows "\<exists>e'. map_of (sessions (forced_wait handles af s)) sid = Some e' \<and> drained e'"
  using forced_wait_entry [OF assms(1,2), of af] finished_actor [of "forced_wait handles af s" sid] assms(3)
  by (auto simp: all_finished_def list_all_iff drained_def)

lemma aborted_drained:
  assumes "set (unfinished s) \<subseteq> set handles" "map_of (sessions s) sid = Some e"
  shows "\<exists>e'. map_of (sessions (each_session (\<lambda>_. unless_finished abort_entry) (forced_wait handles af s))) sid = Some e' \<and> drained e'"
proof -
  obtain e' where "map_of (sessions (forced_wait handles af s)) sid = Some e'" "as_finished e' \<or> hnd_force_cancel (as_handle e')"
    using forced_wait_entry [OF assms] by blast
  then show ?thesis
    by (intro exI [of _ "unless_finished abort_entry e'"])
      (auto simp: map_of_each_session unless_finished_def abort_entry_def drained_def)
qed

lemma drain_force_spec:
  assumes ok: "\<not> sessions_poisoned s" and h: "set (unfinished s) \<subseteq> set handles"
  shows "\<exists>s' n. drain_force handles af s = (Inr \<lparr>drain_graceful = length handles - length (filter (\<lambda>n. n \<in> set (unfinished s)) handles),
      drain_forced = length (filter (\<lambda>n. n \<in> set (unfinished s)) handles), drain_aborted = n\<rparr>, s') \<and>
    accepting s' = accepting s \<and> prepared s' = prepared s \<and> failures s' = failures s \<and>
    (\<forall>sid e. map_of (sessions s) sid = Some e \<longrightarrow> (\<exists>e'. map_of (sessions s') sid = Some e' \<and> drained e'))"
proof (cases "all_finished handles (forced_wait handles af s)")
  case True
  then have "drain_force handles af s = (Inr
      \<lparr>drain_graceful = length handles - length (filter (\<lambda>n. n \<in> set (unfinished s)) handles),
       drain_forced = length (filter (\<lambda>n. n \<in> set (unfinished s)) handles), drain_aborted = 0\<rparr>, forced_wait handles af s)"
    by (simp add: drain_force_def drain_force_signal_def errorE_defs forced_wait_def)
  then show ?thesis using forced_wait_drained [OF h _ True] by auto
next
  case False
  then have "drain_force handles af s = (Inr
      \<lparr>drain_graceful = length handles - length (filter (\<lambda>n. n \<in> set (unfinished s)) handles),
       drain_forced = length (filter (\<lambda>n. n \<in> set (unfinished s)) handles),
       drain_aborted = length (unfinished (forced_wait handles af s))\<rparr>,
      each_session (\<lambda>_. unless_finished abort_entry) (forced_wait handles af s))"
    using ok forced_wait_frame(1) [of handles af s]
    by (simp add: drain_force_def drain_force_signal_def drain_abort_def errorE_defs lock_sessions_def forced_wait_def)
  then show ?thesis using aborted_drained [OF h] by auto
qed

text \<open>The graceful phase of draining: every session stays in the registry, and none becomes unfinished.\<close>

definition after_cancel :: "nat list \<Rightarrow> (string \<Rightarrow> bool) \<Rightarrow> ShardSupervisor \<Rightarrow> ShardSupervisor" where
  "after_cancel handles after_grace s =
     finish_when after_grace (each_session (\<lambda>_ e. if as_actor e \<in> set handles then unless_finished drain_cancel e else e) s)"

lemma after_cancel_frame [simp]:
  "sessions_poisoned (after_cancel hs f s) = sessions_poisoned s"
  "accepting (after_cancel hs f s) = accepting s" "prepared (after_cancel hs f s) = prepared s" "failures (after_cancel hs f s) = failures s"
  by (simp_all add: after_cancel_def finish_when_def)

lemma after_cancel_kept:
  "map_of (sessions s) sid = Some e \<Longrightarrow>
   \<exists>e'. map_of (sessions (after_cancel hs f s)) sid = Some e' \<and> (as_finished e \<longrightarrow> as_finished e')"
  by (auto simp: after_cancel_def finish_when_def map_of_each_session unless_finished_def mark_finished_def)

lemma after_cancel_unfinished: "set (unfinished (after_cancel hs f s)) \<subseteq> set (unfinished s)"
  unfolding after_cancel_def finish_when_def
  by (rule order_trans [OF each_session_unfinished each_session_unfinished]) simp_all

lemma drain_closes:
  assumes "\<not> sessions_poisoned s" "\<not> prepared_poisoned s"
  shows "\<not> accepting (snd (drain after_grace after_force s)) \<and> prepared (snd (drain after_grace after_force s)) = []"
  using assms
  by (auto simp: drain_def drain_reservations_def drain_handles_def drain_signal_def drain_force_def drain_force_signal_def
      drain_abort_def errorE_defs lock_sessions_def lock_prepared_def finish_when_def drain_prepared_def begin_draining_def
      split: sum.split)

text \<open>
  C28 (functional). Draining, when no lock is poisoned and nothing interferes, closes admission,
  removes and reports every preparation, and has cancelled every session that was running: each
  has finished, or was forced by its token and then aborted; graceful plus forced counts every
  session that was running.
\<close>

theorem drain_reaches_every_session:
  assumes "\<not> sessions_poisoned s" and "\<not> prepared_poisoned s"
  shows "\<exists>rep s'. drain after_grace after_force s = (Inr rep, s') \<and> drain_graceful rep + drain_forced rep = length (unfinished s) \<and>
    \<not> accepting s' \<and> prepared s' = [] \<and>
    failures s' = failures s @ map (\<lambda>(_, p). (p, ''runtime_draining_before_attach'')) (prepared s) \<and>
    (\<forall>sid e. map_of (sessions s) sid = Some e \<longrightarrow> (\<exists>e'. map_of (sessions s') sid = Some e' \<and> drained e')) \<and>
    (\<forall>ctx cfg ps fp att env. fst (admit_internal ctx cfg ps fp att env s') = Inl RuntimeError.Draining)"
proof -
  let ?s = "drain_prepared (begin_draining s)"
  have s: "sessions ?s = sessions s" "\<not> sessions_poisoned ?s" "\<not> accepting ?s" "prepared ?s = []"
    "failures ?s = failures s @ map (\<lambda>(_, p). (p, ''runtime_draining_before_attach'')) (prepared s)"
    "\<not> prepared_poisoned (begin_draining s)"
    using assms by (simp_all add: drain_prepared_def begin_draining_def)
  then have u: "unfinished ?s = unfinished s" by (simp add: unfinished_def)
  let ?t = "after_cancel (unfinished s) after_grace ?s"
  have t: "\<not> sessions_poisoned ?t" "\<not> accepting ?t" "prepared ?t = []" "failures ?t = failures ?s"
    using s by simp_all
  have refuse: "\<not> accepting s' \<Longrightarrow> fst (admit_internal ctx cfg ps fp att env s') = Inl RuntimeError.Draining"
    for s' ctx cfg ps fp att env by (simp add: admit_internal_def errorE_defs)
  have kept: "\<exists>e'. map_of (sessions ?t) sid = Some e' \<and> (as_finished e \<longrightarrow> as_finished e')"
    if "map_of (sessions s) sid = Some e" for sid e using after_cancel_kept [of ?s] that s(1) by simp
  have sub: "set (unfinished ?t) \<subseteq> set (unfinished s)" using after_cancel_unfinished [of _ _ ?s] u by simp
  show ?thesis
  proof (cases "all_finished (unfinished s) ?t")
    case True
    have "drain after_grace after_force s = (Inr \<lparr>drain_graceful = length (unfinished s), drain_forced = 0, drain_aborted = 0\<rparr>, ?t)"
      using True s u
      by (simp add: drain_def drain_reservations_def drain_handles_def drain_signal_def errorE_defs lock_sessions_def
          lock_prepared_def after_cancel_def)
    moreover have "\<exists>e'. map_of (sessions ?t) sid = Some e' \<and> drained e'" if "map_of (sessions s) sid = Some e" for sid e
      using kept [OF that] True sub finished_actor [of ?t sid] by (auto simp: all_finished_def list_all_iff drained_def)
    ultimately show ?thesis using t s(5) refuse [OF t(2)] by auto
  next
    case False
    have "drain after_grace after_force s = drain_force (unfinished s) after_force ?t"
      using False s u
      by (simp add: drain_def drain_reservations_def drain_handles_def drain_signal_def errorE_defs lock_sessions_def
          lock_prepared_def after_cancel_def)
    moreover obtain s' n where f: "drain_force (unfinished s) after_force ?t = (Inr
        \<lparr>drain_graceful = length (unfinished s) - length (filter (\<lambda>n. n \<in> set (unfinished ?t)) (unfinished s)),
         drain_forced = length (filter (\<lambda>n. n \<in> set (unfinished ?t)) (unfinished s)), drain_aborted = n\<rparr>, s')"
      "\<not> accepting s'" "prepared s' = []" "failures s' = failures ?s"
      "\<And>sid e. map_of (sessions ?t) sid = Some e \<Longrightarrow> \<exists>e'. map_of (sessions s') sid = Some e' \<and> drained e'"
      using drain_force_spec [OF t(1) sub, of after_force] t(2-4) by auto
    moreover have "\<exists>e'. map_of (sessions s') sid = Some e' \<and> drained e'" if "map_of (sessions s) sid = Some e" for sid e
      using kept [OF that] f(5) by blast
    ultimately show ?thesis using s(5) refuse [OF f(2)] by auto
  qed
qed

theorem drain_reaches_every_session_witness:
  "\<exists>rep s'. drain (\<lambda>_. False) (\<lambda>_. False) demo_running = (Inr rep, s') \<and>
     drain_graceful rep + drain_forced rep = 1 \<and> prepared s' = []"
  using drain_reaches_every_session [of demo_running "\<lambda>_. False" "\<lambda>_. False"]
  by (auto simp: unfinished_def)

end
