(* ===== verification/ShardLifecycle.thy ===== *)
theory ShardLifecycle
  imports ShardGuarantees
begin

text \<open>
  The abstract life of a session identifier in a shard and the refinement to it. Abstractly an
  identifier has at most one reservation and at most one active session; a section of a request may
  reserve an identifier nothing is active under, drop a reservation, activate a session where none
  runs, let one finish or release it. It never replaces or alters either in place.
\<close>

subsection \<open>The abstract protocol\<close>

text \<open>A reservation and an activity: whom it belongs to, its fingerprints and, of a session, its actor and whether it has finished.\<close>

type_synonym reservation = "TenantContext \<times> fingerprint \<times> fingerprint"
type_synonym activity = "(nat \<times> TenantContext \<times> fingerprint option \<times> fingerprint option) \<times> bool"

record registry =
  reg_open :: bool
  reg_reserved :: "string \<Rightarrow> reservation option"
  reg_active :: "string \<Rightarrow> activity option"

definition reservation_moves :: "string \<Rightarrow> activity option \<Rightarrow> reservation option \<Rightarrow> reservation option \<Rightarrow> bool" where
  "reservation_moves sid active r r' \<longleftrightarrow>
     r' = r \<or> r' = None \<or>
     r = None \<and> active = None \<and> (\<exists>c fp att. r' = Some (c, fp, att) \<and> session_id c = sid)"

definition activity_moves :: "string \<Rightarrow> activity option \<Rightarrow> activity option \<Rightarrow> bool" where
  "activity_moves sid a a' \<longleftrightarrow>
     a' = a \<or> a' = None \<or> (\<exists>i. a = Some (i, False) \<and> a' = Some (i, True)) \<or>
     (a = None \<or> (\<exists>i. a = Some (i, True))) \<and> (\<exists>n c fp att. a' = Some ((n, c, fp, att), False) \<and> session_id c = sid)"

definition registry_step :: "registry \<Rightarrow> registry \<Rightarrow> bool" where
  "registry_step g g' \<longleftrightarrow>
     (reg_open g' \<longrightarrow> reg_open g) \<and>
     (\<forall>sid. reservation_moves sid (reg_active g' sid) (reg_reserved g sid) (reg_reserved g' sid) \<and>
        activity_moves sid (reg_active g sid) (reg_active g' sid))"

subsection \<open>The abstraction\<close>

definition reservation_of :: "PreparedSession \<Rightarrow> reservation" where
  "reservation_of p = (pr_context p, pr_fingerprint p, pr_attachment_fingerprint p)"

definition activity_of :: "ActiveSession \<Rightarrow> activity" where
  "activity_of e = (identity_of e, as_finished e)"

definition registry_of :: "ShardSupervisor \<Rightarrow> registry" where
  "registry_of s =
     \<lparr>reg_open = accepting s, reg_reserved = (\<lambda>sid. map_option reservation_of (map_of (prepared s) sid)),
      reg_active = (\<lambda>sid. map_option activity_of (map_of (sessions s) sid))\<rparr>"

subsection \<open>Quiet sections\<close>

text \<open>
  What every section but the two that add an entry does, in any sequence: entries disappear, sessions
  finish, admission closes.
\<close>

definition entry_quiet :: "ActiveSession option \<Rightarrow> ActiveSession option \<Rightarrow> bool" where
  "entry_quiet a b \<longleftrightarrow>
     b = None \<or> (\<exists>e e'. a = Some e \<and> b = Some e' \<and> identity_of e' = identity_of e \<and> (as_finished e \<longrightarrow> as_finished e'))"

definition shard_quiet :: "ShardSupervisor \<Rightarrow> ShardSupervisor \<Rightarrow> bool" where
  "shard_quiet s t \<longleftrightarrow>
     hash_wf (sessions t) \<and> (accepting t \<longrightarrow> accepting s) \<and>
     (\<forall>sid. map_of (prepared t) sid = None \<or> map_of (prepared t) sid = map_of (prepared s) sid) \<and>
     (\<forall>sid. entry_quiet (map_of (sessions s) sid) (map_of (sessions t) sid))"

lemma entry_quiet_refl: "entry_quiet a a"
  by (cases a) (auto simp: entry_quiet_def)

lemma quiet_refl: "hash_wf (sessions s) \<Longrightarrow> shard_quiet s s"
  by (simp add: shard_quiet_def entry_quiet_refl)

lemma map_of_reap:
  assumes "hash_wf (sessions s)"
  shows "map_of (sessions (reap s)) sid =
     (case map_of (sessions s) sid of None \<Rightarrow> None | Some e \<Rightarrow> if as_finished e then None else Some e)"
proof -
  have "map_of (filter (\<lambda>(_, e). \<not> as_finished e) m) sid =
      (case map_of m sid of None \<Rightarrow> None | Some e \<Rightarrow> if as_finished e then None else Some e)"
    if "distinct (map fst m)" for m using that
    by (induction m) (auto split: option.split simp: map_of_eq_None_iff dest: map_of_SomeD)
  with assms show ?thesis by (simp add: reap_def hash_wf_def)
qed

lemma entry_quiet_reap:
  "entry_quiet a b \<Longrightarrow> entry_quiet a (case b of None \<Rightarrow> None | Some e \<Rightarrow> if as_finished e then None else Some e)"
  by (cases b) (auto simp: entry_quiet_def)

lemma quiet_reap: "shard_quiet s t \<Longrightarrow> shard_quiet s (reap t)"
  unfolding shard_quiet_def by (simp add: map_of_reap entry_quiet_reap) (simp add: reap_def)

lemma quiet_each:
  assumes "shard_quiet s t" "faithful f"
  shows "shard_quiet s (each_session f t)"
proof -
  have "entry_quiet a b \<Longrightarrow> entry_quiet a (map_option (f sid) b)" for a b sid
    using assms(2) by (auto simp: faithful_def entry_quiet_def)
  moreover have "hash_wf (sessions t) \<Longrightarrow> hash_wf (sessions (each_session f t))"
    by (simp add: each_session_def hash_wf_def comp_def case_prod_unfold)
  ultimately show ?thesis using assms(1) unfolding shard_quiet_def by (simp add: map_of_each_session)
qed

interpretation quiet_sections: section_invariant "shard_quiet s" for s
proof
  fix t sid fp due now f
  assume q: "shard_quiet s t"
  show "shard_quiet s (reap t)" using q by (rule quiet_reap)
  show "shard_quiet s (each_session f t)" if "faithful f" using q that by (rule quiet_each)
  show "shard_quiet s (t\<lparr>sessions := AList.delete sid (sessions t)\<rparr>)"
    using q by (auto simp: shard_quiet_def hash.invar_remove delete_conv' entry_quiet_def)
  show "shard_quiet s (t\<lparr>prepared := AList.delete sid (prepared t)\<rparr>)" using q by (auto simp: shard_quiet_def delete_conv')
  show "shard_quiet s (begin_draining t)" "shard_quiet s (drain_prepared t)"
    using q by (auto simp: shard_quiet_def begin_draining_def drain_prepared_def)
  show "shard_quiet s (fire_timer now (sid, fp, due) t)"
    using q by (auto simp: shard_quiet_def fire_timer_def expire_prepared_def report_failure_def delete_conv' split: option.split)
qed

lemma quiet_step: "shard_quiet s t \<Longrightarrow> registry_step (registry_of s) (registry_of t)"
proof -
  assume q: "shard_quiet s t"
  have "activity_moves sid (map_option activity_of (map_of (sessions s) sid)) (map_option activity_of (map_of (sessions t) sid))" for sid
  proof -
    have "entry_quiet (map_of (sessions s) sid) (map_of (sessions t) sid)" using q by (simp add: shard_quiet_def)
    then show ?thesis by (cases "map_of (sessions t) sid") (auto simp: activity_moves_def entry_quiet_def activity_of_def identity_of_def)
  qed
  moreover have "reservation_moves sid a (map_option reservation_of (map_of (prepared s) sid)) (map_option reservation_of (map_of (prepared t) sid))" for sid a
  proof -
    have "map_of (prepared t) sid = None \<or> map_of (prepared t) sid = map_of (prepared s) sid" using q by (simp add: shard_quiet_def)
    then show ?thesis by (auto simp: reservation_moves_def)
  qed
  ultimately show ?thesis using q by (simp add: registry_step_def registry_of_def shard_quiet_def)
qed


subsection \<open>Every section\<close>

text \<open>The two sections that add an entry, after the finished sessions are gone.\<close>

lemma reap_step: "hash_wf (sessions s) \<Longrightarrow> registry_step (registry_of s) (registry_of (reap s))"
  by (intro quiet_step quiet_reap quiet_refl)

lemma reserve_step:
  assumes inv: "shard_inv c s" and now: "now \<le> clock_max" and run: "prepare_reserve now p cfg ps s = (r, s')"
  shows "registry_step (registry_of s) (registry_of s')"
proof -
  have q: "registry_step (registry_of s) (registry_of (reap s))" using reap_step shard_inv_unpoisoned(4) [OF inv] by blast
  from inv now run show ?thesis
  proof (cases rule: reserve_cases)
    case 1
    with q show ?thesis by simp
  next
    case (2 due)
    with q show ?thesis
      by (auto simp: registry_step_def registry_of_def prepare_insert_def Let_def update_conv' reservation_moves_def reservation_of_def)
  qed
qed

lemma admit_step:
  assumes inv: "shard_inv c s" and lanes: "lanes_ok cfg" and run: "admit_locked ctx cfg ps fp att env s = (r, s')"
  shows "registry_step (registry_of s) (registry_of s')"
proof -
  have wf: "hash_wf (sessions s)" using inv by (rule shard_inv_unpoisoned)
  from inv lanes run show ?thesis
  proof (cases rule: admit_cases)
    case 1
    with reap_step [OF wf] show ?thesis by simp
  next
    case (2 h a)
    have "map_of (sessions s) (session_id ctx) = None \<or> (\<exists>e. map_of (sessions s) (session_id ctx) = Some e \<and> as_finished e)"
      using 2(4) by (auto simp: map_of_reap [OF wf] split: option.splits if_splits)
    with 2 reap_step [OF wf] show ?thesis
      by (auto simp: registry_step_def registry_of_def register_active_def update_conv' activity_moves_def activity_of_def
          identity_of_def reservation_moves_def)
  qed
qed

subsection \<open>The refinement\<close>

definition empty_registry :: registry where
  "empty_registry = \<lparr>reg_open = True, reg_reserved = (\<lambda>_. None), reg_active = (\<lambda>_. None)\<rparr>"

lemma shard_step_simulates:
  assumes inv: "shard_inv c s" and st: "shard_step s s'"
  shows "registry_step (registry_of s) (registry_of s')"
proof -
  have q: "shard_quiet s s" using quiet_refl shard_inv_unpoisoned(4) [OF inv] by blast
  from st show ?thesis
  proof cases
    case (reserve p cfg now ps r1)
    then show ?thesis using reserve_step [OF inv] by blast
  next
    case (take now ctx att r2)
    then show ?thesis using quiet_step quiet_sections.keeps_result [OF quiet_sections.keeps_take q] by blast
  next
    case (admit cfg ctx ps fp att' env r3)
    then show ?thesis using admit_step [OF inv] by blast
  next
    case other
    then show ?thesis using quiet_step quiet_sections.section_keeps q by blast
  qed
qed

text \<open>
  C23 (refinement). The shard refines the abstract life of a session identifier: every lock
  section or signal of every request, expiry task or drain, from any reachable state of a shard
  within the bounds of its configuration, is a step in which each identifier keeps, drops or
  newly gets its reservation (only where nothing is active under it) and keeps, finishes, drops
  or newly gets its session (only where none runs), an identifier never changes the tenant,
  fingerprints or actor of a reservation or session in place, and a closed shard never reopens.
\<close>

theorem shard_refines_registry:
  assumes "shard_reachable uuid cfg ps s" and "shard_bounds cfg"
  shows "registry_step\<^sup>*\<^sup>* empty_registry (registry_of s) \<and>
    (\<forall>s'. shard_step s s' \<longrightarrow> registry_step (registry_of s) (registry_of s'))"
proof
  show "\<forall>s'. shard_step s s' \<longrightarrow> registry_step (registry_of s) (registry_of s')"
    using shard_step_simulates [OF reachable_shard_inv [OF assms]] by blast
  from assms show "registry_step\<^sup>*\<^sup>* empty_registry (registry_of s)"
  proof (induction rule: shard_reachable.induct)
    case (start s)
    then have "registry_of s = empty_registry"
      by (auto simp: new_supervisor_def andR_def registry_of_def empty_registry_def split: sum.splits)
    then show ?case by simp
  next
    case (step s s')
    then show ?case using shard_step_simulates [OF reachable_shard_inv [OF step.hyps(1)]] by (auto intro: rtranclp.rtrancl_into_rtrancl)
  qed
qed

theorem shard_refines_registry_witness:
  "registry_step\<^sup>*\<^sup>* empty_registry (registry_of demo_holding) \<and>
   reg_reserved (registry_of demo_holding) ''ses_01JABCDEF'' = Some (demo_context, [1], [2]) \<and>
   registry_step (registry_of demo_holding) (registry_of (begin_draining demo_holding))"
  using shard_refines_registry [OF demo_reserved default_bounds] shard_step.other [OF section_step.begin_draining [of demo_holding]]
  by (auto simp: registry_of_def reservation_of_def)

end
