(* ===== verification/GatewayClient.thy ===== *)
theory GatewayClient
  imports Scripted
begin

text \<open>
  The client side of the provider gateway (\<open>provider/gateway.rs\<close>): access to the private service
  endpoints, the requests and the classification of the replies.

  External: the URL type \<open>'u\<close> with its operations (\<open>url_lib\<close>) and the HTTP client (\<open>http_lib\<close>): a
  built client is a function from the request it sends to what comes back. A body is the sequence
  of its chunks, \<open>Inl ()\<close> for a read that fails. The token is polled once per wait; the number of
  the poll is threaded through every stream.
\<close>

subsection \<open>Constants and errors\<close>

definition MAX_GATEWAY_RESPONSE_BYTES :: usize where
  "MAX_GATEWAY_RESPONSE_BYTES = 4 * 1024 * 1024"

definition MAX_GATEWAY_EVENT_BYTES :: usize where
  "MAX_GATEWAY_EVENT_BYTES = 512 * 1024"

definition transient :: "string \<Rightarrow> ProviderError" where
  "transient st =
     \<lparr>perr_stage = st, perr_kind = Transient, perr_message = ''provider gateway is temporarily unavailable''\<rparr>"

definition permanent :: "string \<Rightarrow> ProviderError" where
  "permanent st =
     \<lparr>perr_stage = st, perr_kind = Permanent, perr_message = ''provider gateway rejected the invocation''\<rparr>"

subsection \<open>Access\<close>

record 'u url_lib =
  url_parse :: "string \<Rightarrow> 'u option"
  url_scheme_of :: "'u \<Rightarrow> string"
  url_host_str :: "'u \<Rightarrow> string option"
  url_set_path :: "'u \<Rightarrow> string \<Rightarrow> 'u"
  url_set_query :: "'u \<Rightarrow> string option \<Rightarrow> 'u"
  url_set_fragment :: "'u \<Rightarrow> string option \<Rightarrow> 'u"
  url_join :: "'u \<Rightarrow> string \<Rightarrow> 'u option"

record 'u RuntimeServiceAccess =
  base_url :: 'u
  credential :: string
  access_context :: TenantContext

definition from_ingest :: "'u url_lib \<Rightarrow> string \<Rightarrow> string \<Rightarrow> TenantContext \<Rightarrow> 'u RuntimeServiceAccess result" where
  "from_ingest U ingest_url cred ctx =
     (case url_parse U ingest_url of
        None \<Rightarrow> Inl (InvalidRequest ''runtime service URL is invalid'')
      | Some u \<Rightarrow>
          let host = url_host_str U u;
              loopback_http = (url_scheme_of U u = ''http'' \<and>
                host \<in> {Some ''127.0.0.1'', Some ''localhost'', Some ''::1''}) in
          if url_scheme_of U u \<noteq> ''https'' \<and> \<not> loopback_http \<or> host = None
          then Inl (InvalidRequest ''runtime service URL must use HTTPS'')
          else let base = url_set_fragment U (url_set_query U (url_set_path U u ''/'') None) None in
            if \<not> (32 \<le> length cred \<and> length cred \<le> 128) \<or>
               \<not> list_all (\<lambda>c. is_ascii_alphanumeric c \<or> c = CHR ''_'' \<or> c = CHR ''-'') cred
            then Inl (InvalidRequest ''runtime service credential is invalid'')
            else andR (context_validate ctx)
              (Inr \<lparr>base_url = base, credential = cred, access_context = ctx\<rparr>))"

subsection \<open>Requests and replies\<close>

record 'u http_request =
  req_url :: 'u
  req_bearer :: string
  req_headers :: "(string \<times> string) list"
  req_json :: json

record http_response =
  resp_status :: nat
  resp_content_length :: "nat option"
  resp_content_type :: "string option"
  resp_body :: "(unit + byte list) list"

type_synonym 'u http_client = "'u http_request \<Rightarrow> http_response option"

record 'u http_lib =
  http_build :: "bool \<Rightarrow> 'u http_client option"

record 'u GatewayClient =
  gw_urls :: "'u url_lib"
  gw_client :: "'u http_client"
  gw_access :: "'u RuntimeServiceAccess"

definition gateway_client_new :: "'u url_lib \<Rightarrow> 'u http_lib \<Rightarrow> 'u RuntimeServiceAccess \<Rightarrow> 'u GatewayClient result" where
  "gateway_client_new U H access =
     (case http_build H (url_scheme_of U (base_url access) = ''https'') of
        None \<Rightarrow> Inl (Internal ''provider HTTP client could not start'')
      | Some c \<Rightarrow> Inr \<lparr>gw_urls = U, gw_client = c, gw_access = access\<rparr>)"

definition is_success :: "nat \<Rightarrow> bool" where
  "is_success status \<longleftrightarrow> 200 \<le> status \<and> status < 300"

definition is_server_error :: "nat \<Rightarrow> bool" where
  "is_server_error status \<longleftrightarrow> 500 \<le> status \<and> status < 600"

definition status_error :: "string \<Rightarrow> nat \<Rightarrow> ProviderError" where
  "status_error operation status =
     (if status = 429 \<or> is_server_error status then transient operation else permanent operation)"

text \<open>
  Building, authenticating and sending a request, common to \<open>post\<close> and \<open>post_stream\<close>, with the
  check of the status. The wait for the response is the first poll of the token.
\<close>

definition send_request ::
  "'u GatewayClient \<Rightarrow> string \<Rightarrow> json \<Rightarrow> bool \<Rightarrow> ProviderError + http_response" where
  "send_request g operation body cancelled =
     (let a = gw_access g; ctx = access_context a in
      case url_join (gw_urls g) (base_url a)
          (''/v1/runtime/sessions/'' @ session_id ctx @ ''/providers/'' @ operation) of
        None \<Rightarrow> Inl (permanent operation)
      | Some u \<Rightarrow>
          if cancelled then Inl (provider_error_cancelled operation)
          else (case gw_client g
              \<lparr>req_url = u, req_bearer = credential a,
               req_headers = [(''x-calluwu-runtime-generation'', string_of_nat (runtime_generation ctx)),
                 (''x-calluwu-organization-id'', organization_id ctx),
                 (''x-calluwu-project-id'', project_id ctx),
                 (''x-calluwu-deployment-id'', deployment_id ctx)],
               req_json = body\<rparr> of
            None \<Rightarrow> Inl (transient operation)
          | Some r \<Rightarrow>
              if is_success (resp_status r) then Inr r else Inl (status_error operation (resp_status r))))"

text \<open>Reading a bounded body; \<open>i\<close> is the number of the poll.\<close>

fun read_body :: "string \<Rightarrow> cancellation \<Rightarrow> nat \<Rightarrow> byte list \<Rightarrow> (unit + byte list) list \<Rightarrow> ProviderError + byte list" where
  "read_body operation cancel i bytes [] =
     (if cancel i then Inl (provider_error_cancelled operation) else Inr bytes)"
| "read_body operation cancel i bytes (chunk # chunks) =
     (if cancel i then Inl (provider_error_cancelled operation)
      else case chunk of
        Inl _ \<Rightarrow> Inl (transient operation)
      | Inr c \<Rightarrow>
          if saturating_add (length bytes) (length c) > MAX_GATEWAY_RESPONSE_BYTES then Inl (permanent operation)
          else read_body operation cancel (Suc i) (bytes @ c) chunks)"

definition post ::
  "'u GatewayClient \<Rightarrow> (byte list \<Rightarrow> 'r option) \<Rightarrow> string \<Rightarrow> json \<Rightarrow> cancellation \<Rightarrow> ProviderError + 'r" where
  "post g from_slice operation body cancel =
     (case send_request g operation body (cancel 0) of
        Inl e \<Rightarrow> Inl e
      | Inr r \<Rightarrow>
          if (case resp_content_length r of None \<Rightarrow> False | Some n \<Rightarrow> n > MAX_GATEWAY_RESPONSE_BYTES) then Inl (permanent operation)
          else (case read_body operation cancel 1 [] (resp_body r) of
              Inl e \<Rightarrow> Inl e
            | Inr bytes \<Rightarrow> (case from_slice bytes of None \<Rightarrow> Inl (permanent operation) | Some v \<Rightarrow> Inr v)))"

definition media_type :: "http_response \<Rightarrow> string option" where
  "media_type r = map_option (\<lambda>v. trim (takeWhile (\<lambda>c. c \<noteq> CHR '';'') v)) (resp_content_type r)"

definition post_stream ::
  "'u GatewayClient \<Rightarrow> string \<Rightarrow> json \<Rightarrow> bool \<Rightarrow> string \<Rightarrow> ProviderError + http_response" where
  "post_stream g operation body cancelled expected_content_type =
     (case send_request g operation body cancelled of
        Inl e \<Rightarrow> Inl e
      | Inr r \<Rightarrow>
          if (case resp_content_length r of None \<Rightarrow> False | Some n \<Rightarrow> n = 0 \<or> n > MAX_GATEWAY_RESPONSE_BYTES)
          then Inl (permanent operation)
          else if media_type r \<noteq> Some expected_content_type then Inl (permanent operation)
          else Inr r)"

text \<open>\<open>uuid\<close> is the identifier drawn for the invocation.\<close>

definition invocation_id_of :: "string \<Rightarrow> string" where
  "invocation_id_of uuid = ''inv_'' @ uuid"

definition gateway_base :: "'u GatewayClient \<Rightarrow> string \<Rightarrow> ProviderReference \<Rightarrow> (string \<times> json) list" where
  "gateway_base g uuid r =
     [(''runtimeGeneration'', JNumber (PosInt (runtime_generation (access_context (gw_access g))))),
      (''invocationId'', JString (invocation_id_of uuid)),
      (''provider'', JString (ref_provider r)), (''model'', JString (ref_model r)),
      (''settings'', JObject (ref_settings r))]"

definition stable_invocation_id :: "(string \<Rightarrow> string) \<Rightarrow> string \<Rightarrow> string" where
  "stable_invocation_id sha256_base64 seed = ''inv_'' @ sha256_base64 seed"

subsection \<open>Facts\<close>

lemma error_kinds [simp]:
  "perr_kind (transient st) = Transient" "perr_kind (permanent st) = Permanent"
  "perr_kind (provider_error_cancelled st) = ProviderErrorKind.Cancelled"
  by (simp_all add: transient_def permanent_def provider_error_cancelled_def)

lemma gateway_limits: "MAX_GATEWAY_EVENT_BYTES \<le> MAX_GATEWAY_RESPONSE_BYTES" "MAX_GATEWAY_RESPONSE_BYTES < u64_max"
  by (simp_all add: MAX_GATEWAY_EVENT_BYTES_def MAX_GATEWAY_RESPONSE_BYTES_def u64_max_def)

lemma within_response:
  "saturating_add a b > MAX_GATEWAY_RESPONSE_BYTES \<longleftrightarrow> a + b > MAX_GATEWAY_RESPONSE_BYTES"
  using saturating_add_bound [OF gateway_limits(2), of a b] by linarith

lemma send_request_kind: "send_request g operation body False = Inl e \<Longrightarrow> perr_kind e \<noteq> ProviderErrorKind.Cancelled"
  by (auto simp: send_request_def status_error_def Let_def split: option.splits if_splits)

lemma post_stream_kind: "post_stream g operation body False ct = Inl e \<Longrightarrow> perr_kind e \<noteq> ProviderErrorKind.Cancelled"
  by (auto simp: post_stream_def send_request_kind split: sum.splits if_splits)

end
