(* ===== verification/GatewayReason.thy ===== *)
theory GatewayReason
  imports GatewayClient
begin

text \<open>
  The streaming reasoner of the gateway (\<open>provider/gateway.rs\<close>): server-sent events cut out of a
  body that arrives in arbitrary chunks, and the loop that turns them into reasoning events.

  External: the JSON parser (\<open>from_str\<close>) and the generated deserialisers of the four event bodies
  (\<open>reason_codec\<close>).
\<close>

subsection \<open>Server-sent events\<close>

text \<open>The slice comparisons \<open>buffer.get(i..i+2)\<close> and \<open>buffer.get(i..i+4)\<close> at one index.\<close>

definition sse_delimiter :: "byte list \<Rightarrow> nat \<Rightarrow> nat option" where
  "sse_delimiter buf i =
     (if take 2 (drop i buf) = [10, 10] then Some 2
      else if take 4 (drop i buf) = [13, 10, 13, 10] then Some 4 else None)"

definition sse_boundary :: "byte list \<Rightarrow> (nat \<times> nat) option" where
  "sse_boundary buf =
     (case find (\<lambda>i. sse_delimiter buf i \<noteq> None) [0..<length buf - 1] of
        None \<Rightarrow> None
      | Some i \<Rightarrow> map_option (Pair i) (sse_delimiter buf i))"

text \<open>\<open>str::lines\<close>: lines end at a line feed; a carriage return before it belongs to the ending.\<close>

definition strip_cr :: "string \<Rightarrow> string" where
  "strip_cr l = (if l \<noteq> [] \<and> last l = CHR 0x0D then butlast l else l)"

fun str_lines :: "string list \<Rightarrow> string list" where
  "str_lines [] = []"
| "str_lines [l] = (if l = [] then [] else [l])"
| "str_lines (l # k # ls) = strip_cr l # str_lines (k # ls)"

definition strip_blank :: "string \<Rightarrow> string" where
  "strip_blank v = (case strip_prefix '' '' v of Some w \<Rightarrow> w | None \<Rightarrow> v)"

fun sse_fields :: "string option \<Rightarrow> string list \<Rightarrow> string list \<Rightarrow> (string option \<times> string list) option" where
  "sse_fields event data [] = Some (event, data)"
| "sse_fields event data (l # ls) =
     (let line = strip_cr l in
      case strip_prefix ''event:'' line of
        Some v \<Rightarrow> if event \<noteq> None then None else sse_fields (Some (strip_blank v)) data ls
      | None \<Rightarrow>
          (case strip_prefix ''data:'' line of
             Some v \<Rightarrow> sse_fields event (data @ [strip_blank v]) ls
           | None \<Rightarrow>
               if line \<noteq> [] \<and> hd line \<noteq> CHR '':'' then None else sse_fields event data ls))"

definition parse_sse_block :: "(string \<Rightarrow> json option) \<Rightarrow> byte list \<Rightarrow> ProviderError + string \<times> json" where
  "parse_sse_block from_str raw =
     (let s = bytes_to_string raw in
      if \<not> valid_utf8 s then Inl (permanent ''reason'')
      else case sse_fields None [] (str_lines (split_on (CHR 0x0A) s)) of
        Some (Some event, data) \<Rightarrow>
          if data = [] then Inl (permanent ''reason'')
          else (case from_str (join_with [CHR 0x0A] data) of
              None \<Rightarrow> Inl (permanent ''reason'') | Some v \<Rightarrow> Inr (event, v))
      | _ \<Rightarrow> Inl (permanent ''reason''))"

definition take_sse_event ::
  "(string \<Rightarrow> json option) \<Rightarrow> byte list \<Rightarrow> (ProviderError + (string \<times> json) option) \<times> byte list" where
  "take_sse_event from_str buf =
     (case sse_boundary buf of
        None \<Rightarrow> (Inr None, buf)
      | Some (boundary, delimiter_bytes) \<Rightarrow>
          (map_sum id Some (parse_sse_block from_str (take boundary buf)), drop (boundary + delimiter_bytes) buf))"

subsection \<open>The stream\<close>

record GatewayReasonMeta =
  meta_invocation_id :: string

record GatewayReasonDelta =
  delta_text :: string

record GatewayToolCall =
  gtc_call_id :: string
  gtc_name :: string
  gtc_input :: json

record GatewayReasonUsage =
  prompt_tokens :: u64
  completion_tokens :: u64

record GatewayReasonCompleted =
  finish_reason :: string
  usage :: GatewayReasonUsage

record reason_codec =
  de_meta :: "json \<Rightarrow> GatewayReasonMeta option"
  de_delta :: "json \<Rightarrow> GatewayReasonDelta option"
  de_tool_call :: "json \<Rightarrow> GatewayToolCall option"
  de_completed :: "json \<Rightarrow> GatewayReasonCompleted option"

text \<open>One event: the item it yields and, unless the stream returns, the flag \<open>authenticated\<close>.\<close>

abbreviation reject :: "'a provider_stream \<times> 'b option" where
  "reject \<equiv> ([Inl (permanent ''reason'')], None)"

definition reason_event ::
  "reason_codec \<Rightarrow> string \<Rightarrow> bool \<Rightarrow> string \<times> json \<Rightarrow> ReasoningEvent provider_stream \<times> bool option" where
  "reason_event de invocation authenticated ev =
     (let (name, value) = ev in
      if name = ''meta'' \<and> \<not> authenticated then
        (case de_meta de value of
           None \<Rightarrow> reject
         | Some m \<Rightarrow> if meta_invocation_id m \<noteq> invocation then reject else ([], Some True))
      else if name = ''delta'' \<and> authenticated then
        (case de_delta de value of
           Some d \<Rightarrow> if delta_text d \<noteq> [] then ([Inr (Delta (delta_text d))], Some True) else reject
         | None \<Rightarrow> reject)
      else if name = ''tool_call'' \<and> authenticated then
        (case de_tool_call de value of
           Some c \<Rightarrow>
             if is_object (gtc_input c)
             then ([Inr (ToolCall \<lparr>call_id = gtc_call_id c, call_name = gtc_name c, call_input = gtc_input c\<rparr>)], Some True)
             else reject
         | None \<Rightarrow> reject)
      else if name = ''completed'' \<and> authenticated then
        (case de_completed de value of
           Some c \<Rightarrow>
             if finish_reason c \<noteq> [] \<and> prompt_tokens (usage c) > 0 \<and> completion_tokens (usage c) > 0
             then ([Inr ReasoningEvent.Completed], None) else reject
         | None \<Rightarrow> reject)
      else reject)"

lemma find_upt_Some: "find P [0..<n] = Some i \<longleftrightarrow> i < n \<and> P i \<and> (\<forall>j < i. \<not> P j)"
  by (auto simp: find_Some_iff)

lemma find_upt_None: "find P [0..<n] = None \<longleftrightarrow> (\<forall>j < n. \<not> P j)"
  by (auto simp: find_None_iff)

lemma sse_boundary_None: "sse_boundary buf = None \<longleftrightarrow> (\<forall>i < length buf - 1. sse_delimiter buf i = None)"
  by (auto simp: sse_boundary_def find_upt_Some find_upt_None simp del: not_None_eq split: option.split)

lemma sse_boundary_Some:
  "sse_boundary buf = Some (i, d) \<longleftrightarrow>
     i < length buf - 1 \<and> sse_delimiter buf i = Some d \<and> (\<forall>j < i. sse_delimiter buf j = None)"
proof
  assume "sse_boundary buf = Some (i, d)"
  then show "i < length buf - 1 \<and> sse_delimiter buf i = Some d \<and> (\<forall>j < i. sse_delimiter buf j = None)"
    by (auto simp: sse_boundary_def find_upt_Some split: option.splits)
next
  assume r: "i < length buf - 1 \<and> sse_delimiter buf i = Some d \<and> (\<forall>j < i. sse_delimiter buf j = None)"
  then have "find (\<lambda>i. sse_delimiter buf i \<noteq> None) [0..<length buf - 1] = Some i" by (simp add: find_upt_Some)
  with r show "sse_boundary buf = Some (i, d)" by (simp add: sse_boundary_def)
qed

lemma sse_delimiter_fits: "sse_delimiter buf i = Some d \<Longrightarrow> 2 \<le> d \<and> i + d \<le> length buf"
  by (auto simp: sse_delimiter_def split: if_splits dest!: arg_cong [of _ _ length])

lemma take_sse_event_shrinks:
  "take_sse_event from_str buf = (r, rest) \<Longrightarrow> r \<noteq> Inr None \<Longrightarrow> length rest < length buf"
  by (auto simp: take_sse_event_def sse_boundary_Some dest!: sse_delimiter_fits split: option.splits)

text \<open>The inner loop: every complete event of the buffer. Each one is at least two bytes long.\<close>

function reason_events ::
  "(string \<Rightarrow> json option) \<Rightarrow> reason_codec \<Rightarrow> string \<Rightarrow> bool \<Rightarrow> byte list \<Rightarrow>
   ReasoningEvent provider_stream \<times> (bool \<times> byte list) option" where
  "reason_events from_str de invocation authenticated buf =
     (case take_sse_event from_str buf of
        (Inl e, rest) \<Rightarrow> ([Inl e], None)
      | (Inr None, rest) \<Rightarrow> ([], Some (authenticated, rest))
      | (Inr (Some ev), rest) \<Rightarrow>
          (case reason_event de invocation authenticated ev of
             (items, None) \<Rightarrow> (items, None)
           | (items, Some authenticated') \<Rightarrow>
               (case reason_events from_str de invocation authenticated' rest of
                  (later, k) \<Rightarrow> (items @ later, k))))"
  by pat_completeness auto
termination
  by (relation "measure (\<lambda>(_, _, _, _, buf). length buf)")
    (auto dest: take_sse_event_shrinks [OF sym])

declare reason_events.simps [simp del]

fun reason_body ::
  "(string \<Rightarrow> json option) \<Rightarrow> reason_codec \<Rightarrow> string \<Rightarrow> cancellation \<Rightarrow> nat \<Rightarrow> usize \<Rightarrow> bool \<Rightarrow> byte list \<Rightarrow>
   (unit + byte list) list \<Rightarrow> ReasoningEvent provider_stream" where
  "reason_body from_str de invocation cancel i total_bytes authenticated buf [] =
     [Inl (if cancel i then provider_error_cancelled ''reason'' else permanent ''reason'')]"
| "reason_body from_str de invocation cancel i total_bytes authenticated buf (chunk # chunks) =
     (if cancel i then [Inl (provider_error_cancelled ''reason'')]
      else case chunk of
        Inl _ \<Rightarrow> [Inl (transient ''reason'')]
      | Inr c \<Rightarrow>
          let total_bytes = saturating_add total_bytes (length c) in
          if total_bytes > MAX_GATEWAY_RESPONSE_BYTES then [Inl (permanent ''reason'')]
          else (case reason_events from_str de invocation authenticated (buf @ c) of
              (items, None) \<Rightarrow> items
            | (items, Some (authenticated', rest)) \<Rightarrow>
                items @ (if length rest > MAX_GATEWAY_EVENT_BYTES then [Inl (permanent ''reason'')]
                  else reason_body from_str de invocation cancel (Suc i) total_bytes authenticated' rest chunks)))"

fun message_value :: "ConversationMessage \<Rightarrow> json" where
  "message_value (User content) = JObject (btree_of_list [(''kind'', JString ''user''), (''content'', JString content)])"
| "message_value (Assistant content) =
     JObject (btree_of_list [(''kind'', JString ''assistant''), (''content'', JString content)])"
| "message_value (AssistantToolCall cid name input) =
     JObject (btree_of_list [(''kind'', JString ''assistant_tool_call''), (''callId'', JString cid),
       (''name'', JString name), (''input'', input)])"
| "message_value (ConversationMessage.Tool cid name out) =
     JObject (btree_of_list [(''kind'', JString ''tool''), (''callId'', JString cid), (''name'', JString name),
       (''output'', out)])"

definition tool_value :: "ToolDefinition \<Rightarrow> json" where
  "tool_value t = JObject (btree_of_list [(''name'', JString (tool_name t)),
     (''description'', JString (tool_description t)), (''inputSchema'', JObject (input_schema t))])"

record 'u GatewayReasoner =
  gr_gateway :: "'u GatewayClient"
  gr_reference :: ProviderReference
  gr_tools :: "ToolDefinition list"

definition reason_request :: "'u GatewayReasoner \<Rightarrow> string \<Rightarrow> ReasoningRequest \<Rightarrow> json" where
  "reason_request p uuid req =
     JObject (gateway_base (gr_gateway p) uuid (gr_reference p) @
       [(''instructions'', JString (instructions req)),
        (''messages'', JArray (map message_value (messages req))),
        (''tools'', JArray (map tool_value (gr_tools p)))])"

definition gateway_reason ::
  "(string \<Rightarrow> json option) \<Rightarrow> reason_codec \<Rightarrow> string \<Rightarrow> 'u GatewayReasoner \<Rightarrow> ReasoningRequest \<Rightarrow> cancellation \<Rightarrow>
   ReasoningEvent provider_stream" where
  "gateway_reason from_str de uuid p req cancel =
     (case post_stream (gr_gateway p) ''reason'' (reason_request p uuid req) (cancel 0) ''text/event-stream'' of
        Inl e \<Rightarrow> [Inl e]
      | Inr r \<Rightarrow> reason_body from_str de (invocation_id_of uuid) cancel 1 0 False [] (resp_body r))"

subsection \<open>Chunking\<close>

text \<open>A boundary found in a prefix of the stream is the boundary of the whole stream.\<close>

lemma slice_Cons: "take (Suc n) (drop i xs) = a # p \<longleftrightarrow> i < length xs \<and> xs ! i = a \<and> take n (drop (Suc i) xs) = p"
  by (cases "i < length xs") (simp_all add: Cons_nth_drop_Suc [symmetric])

lemma sse_delimiter_nth:
  "sse_delimiter buf i = Some 2 \<longleftrightarrow> i + 2 \<le> length buf \<and> buf ! i = 10 \<and> buf ! (i + 1) = 10"
  "sse_delimiter buf i = Some 4 \<longleftrightarrow> i + 4 \<le> length buf \<and> buf ! i = 13 \<and> buf ! (i + 1) = 10 \<and> buf ! (i + 2) = 13 \<and> buf ! (i + 3) = 10"
proof -
  have n: "(4::nat) = Suc (Suc (Suc (Suc 0)))" "(3::nat) = Suc (Suc (Suc 0))" "(2::nat) = Suc (Suc 0)" by simp_all
  have "(10::byte) \<noteq> 13" by simp
  then show "sse_delimiter buf i = Some 2 \<longleftrightarrow> i + 2 \<le> length buf \<and> buf ! i = 10 \<and> buf ! (i + 1) = 10"
    "sse_delimiter buf i = Some 4 \<longleftrightarrow> i + 4 \<le> length buf \<and> buf ! i = 13 \<and> buf ! (i + 1) = 10 \<and> buf ! (i + 2) = 13 \<and> buf ! (i + 3) = 10"
    unfolding sse_delimiter_def n slice_Cons by auto
qed

lemma sse_delimiter_cases: "sse_delimiter buf i \<in> {None, Some 2, Some 4}"
  by (simp add: sse_delimiter_def)

lemma sse_delimiter_append: "sse_delimiter buf i = Some d \<Longrightarrow> sse_delimiter (buf @ later) i = Some d"
  using sse_delimiter_fits [of buf i d] by (auto simp: sse_delimiter_def split: if_splits)

lemma sse_boundary_append:
  assumes "sse_boundary buf = Some (i, d)"
  shows "sse_boundary (buf @ later) = Some (i, d)"
proof -
  have i: "i < length buf - 1" "sse_delimiter buf i = Some d" "\<forall>j < i. sse_delimiter buf j = None"
    using assms by (auto simp: sse_boundary_Some)
  have "sse_delimiter (buf @ later) j = None" if j: "j < i" for j
  proof -
    have "sse_delimiter (buf @ later) j \<noteq> Some 2"
      using i(1,3) j sse_delimiter_nth(1) [of "buf @ later" j] sse_delimiter_nth(1) [of buf j] by (auto simp: nth_append)
    moreover have "sse_delimiter (buf @ later) j \<noteq> Some 4"
    proof
      assume "sse_delimiter (buf @ later) j = Some 4"
      then have w: "(buf @ later) ! j = 13" "(buf @ later) ! (j + 1) = 10" "(buf @ later) ! (j + 2) = 13" "(buf @ later) ! (j + 3) = 10"
        unfolding sse_delimiter_nth by simp_all
      consider "i = j + 1" | "j + 2 \<le> i" using j by linarith
      then show False
      proof cases
        case 1
        then have "j + 2 < length buf" using i(1) by simp
        with 1 w have "buf ! i = 10" "buf ! (i + 1) = 13" by (simp_all add: nth_append)
        with i(2) sse_delimiter_cases [of buf i] show False
          using sse_delimiter_nth [of buf i] by auto
      next
        case 2
        then have "j + 3 < length buf" using i(1) by simp
        then have "sse_delimiter buf j = Some 4" unfolding sse_delimiter_nth using w by (simp add: nth_append)
        with i(3) j show False by simp
      qed
    qed
    ultimately show ?thesis using sse_delimiter_cases [of "buf @ later" j] by auto
  qed
  with i sse_delimiter_append show ?thesis by (auto simp: sse_boundary_Some)
qed

lemma take_sse_event_append:
  assumes "take_sse_event from_str buf = (r, rest)" "r \<noteq> Inr None"
  shows "take_sse_event from_str (buf @ later) = (r, rest @ later)"
proof -
  obtain i d where b: "sse_boundary buf = Some (i, d)" using assms by (auto simp: take_sse_event_def split: option.splits)
  then have "i + d \<le> length buf" using sse_delimiter_fits by (auto simp: sse_boundary_Some)
  with assms b show ?thesis by (auto simp: take_sse_event_def sse_boundary_append)
qed

lemma take_sse_event_none: "take_sse_event from_str buf = (Inr None, rest) \<Longrightarrow> rest = buf"
  by (auto simp: take_sse_event_def split: option.splits sum.splits) (metis map_sum.simps sum.exhaust sum.inject(2) sum.distinct(1) option.distinct(1))

lemma reason_events_cases:
  "take_sse_event from_str buf = (Inl e, t) \<Longrightarrow> reason_events from_str de invocation auth buf = ([Inl e], None)"
  "take_sse_event from_str buf = (Inr None, t) \<Longrightarrow> reason_events from_str de invocation auth buf = ([], Some (auth, buf))"
  "take_sse_event from_str buf = (Inr (Some ev), t) \<Longrightarrow> reason_event de invocation auth ev = (items, None) \<Longrightarrow>
     reason_events from_str de invocation auth buf = (items, None)"
  "take_sse_event from_str buf = (Inr (Some ev), t) \<Longrightarrow> reason_event de invocation auth ev = (items, Some auth') \<Longrightarrow>
     reason_events from_str de invocation auth buf =
       (items @ fst (reason_events from_str de invocation auth' t), snd (reason_events from_str de invocation auth' t))"
  using take_sse_event_none [of from_str buf t]
  by (simp_all add: reason_events.simps [of from_str de invocation auth buf] split: prod.split)

text \<open>Induction over the events of a buffer.\<close>

lemma reason_events_induct [case_names err more last event]:
  assumes "\<And>auth buf e t. take_sse_event from_str buf = (Inl e, t) \<Longrightarrow> P auth buf"
    and "\<And>auth buf. take_sse_event from_str buf = (Inr None, buf) \<Longrightarrow> P auth buf"
    and "\<And>auth buf ev t items. take_sse_event from_str buf = (Inr (Some ev), t) \<Longrightarrow>
      reason_event de invocation auth ev = (items, None) \<Longrightarrow> P auth buf"
    and "\<And>auth buf ev t items auth'. take_sse_event from_str buf = (Inr (Some ev), t) \<Longrightarrow>
      reason_event de invocation auth ev = (items, Some auth') \<Longrightarrow> P auth' t \<Longrightarrow> P auth buf"
  shows "P auth buf"
proof (induction buf arbitrary: auth rule: measure_induct_rule [of length])
  case (less buf)
  obtain r t where t: "take_sse_event from_str buf = (r, t)" by fastforce
  consider (err) e where "r = Inl e" | (more) "r = Inr None" | (event) ev where "r = Inr (Some ev)"
    by (metis option.exhaust sum.exhaust)
  then show ?case
  proof cases
    case err
    with t assms(1) show ?thesis by blast
  next
    case more
    with t take_sse_event_none [of from_str buf t] assms(2) show ?thesis by blast
  next
    case event
    obtain items k where "reason_event de invocation auth ev = (items, k)" by fastforce
    with event t take_sse_event_shrinks [OF t] less assms(3,4) show ?thesis by (cases k) blast+
  qed
qed

lemma reason_events_append:
  "reason_events from_str de invocation auth (buf @ later) =
     (case reason_events from_str de invocation auth buf of
        (items, None) \<Rightarrow> (items, None)
      | (items, Some (auth', rest)) \<Rightarrow>
          (case reason_events from_str de invocation auth' (rest @ later) of (items', k) \<Rightarrow> (items @ items', k)))"
proof (induction auth buf rule: reason_events_induct [where from_str = from_str and de = de and invocation = invocation])
  case (err auth buf e t)
  with take_sse_event_append [OF err, of later] show ?case by (simp add: reason_events_cases)
next
  case (more auth buf)
  then show ?case by (simp add: reason_events_cases split: prod.split)
next
  case (last auth buf ev t items)
  with take_sse_event_append [OF last(1), of later] show ?case by (simp add: reason_events_cases)
next
  case (event auth buf ev t items auth')
  with take_sse_event_append [OF event(1), of later] show ?case
    by (simp add: reason_events_cases split: prod.splits option.split)
qed

lemma reason_events_rest:
  "reason_events from_str de invocation auth buf = (items, Some (auth', rest)) \<Longrightarrow>
   length rest \<le> length buf \<and> reason_events from_str de invocation auth' rest = ([], Some (auth', rest))"
proof (induction auth buf arbitrary: items
    rule: reason_events_induct [where from_str = from_str and de = de and invocation = invocation])
  case (event auth buf ev t its a)
  then have "reason_events from_str de invocation a t = (fst (reason_events from_str de invocation a t), Some (auth', rest))"
    by (simp add: reason_events_cases prod_eq_iff)
  with event.IH take_sse_event_shrinks [OF event(1)] show ?case by fastforce
qed (auto simp: reason_events_cases)

text \<open>The reference: the complete body decoded at once.\<close>

definition reason_reference ::
  "(string \<Rightarrow> json option) \<Rightarrow> reason_codec \<Rightarrow> string \<Rightarrow> bool \<Rightarrow> byte list \<Rightarrow> ReasoningEvent provider_stream" where
  "reason_reference from_str de invocation auth body =
     (case reason_events from_str de invocation auth body of
        (items, None) \<Rightarrow> items
      | (items, Some _) \<Rightarrow> items @ [Inl (permanent ''reason'')])"

lemma reason_body_reference:
  assumes "\<And>j. \<not> cancel j"
  shows "sofar + length (concat bs) \<le> MAX_GATEWAY_RESPONSE_BYTES \<Longrightarrow>
    length buf + length (concat bs) \<le> MAX_GATEWAY_EVENT_BYTES \<Longrightarrow>
    reason_events from_str de invocation auth buf = ([], Some (auth, buf)) \<Longrightarrow>
    reason_body from_str de invocation cancel i sofar auth buf (map Inr bs) =
      reason_reference from_str de invocation auth (buf @ concat bs)"
proof (induction bs arbitrary: i sofar auth buf)
  case Nil
  then show ?case using assms by (simp add: reason_reference_def)
next
  case (Cons b bs)
  obtain items k where e: "reason_events from_str de invocation auth (buf @ b) = (items, k)" by fastforce
  have tot: "saturating_add sofar (length b) = sofar + length b"
    using Cons.prems(1) gateway_limits(2) by (intro saturating_add_exact) auto
  have whole: "reason_events from_str de invocation auth (buf @ b @ concat bs) =
      (case (items, k) of (items, None) \<Rightarrow> (items, None)
       | (items, Some (auth', rest)) \<Rightarrow>
          (case reason_events from_str de invocation auth' (rest @ concat bs) of (items', k) \<Rightarrow> (items @ items', k)))"
    using reason_events_append [of from_str de invocation auth "buf @ b" "concat bs"] e by simp
  show ?case
  proof (cases k)
    case None
    then show ?thesis using Cons.prems(1) assms [of i] e tot whole by (simp add: reason_reference_def)
  next
    case (Some p)
    obtain a rest where p: "p = (a, rest)" by fastforce
    have rest: "length rest \<le> length buf + length b" "reason_events from_str de invocation a rest = ([], Some (a, rest))"
      using reason_events_rest [of from_str de invocation auth "buf @ b"] e Some p by fastforce+
    then have "reason_body from_str de invocation cancel (Suc i) (sofar + length b) a rest (map Inr bs) =
        reason_reference from_str de invocation a (rest @ concat bs)"
      using Cons.prems(1,2) by (intro Cons.IH) auto
    then show ?thesis using Cons.prems(1,2) assms [of i] e tot whole rest(1) Some p
      by (auto simp: reason_reference_def split: prod.splits option.splits)
  qed
qed

text \<open>
  C29 (equivalence). However the body of a reasoning reply is cut into network chunks, also in
  the middle of a line ending or of a delimiter, the incremental decoder yields exactly what
  decoding the complete body at once yields, for every body within the event bound.
\<close>

theorem reason_stream_ignores_chunking:
  assumes "\<And>j. \<not> cancel j" and "length (concat chunks) \<le> MAX_GATEWAY_EVENT_BYTES"
  shows "reason_body from_str de invocation cancel i 0 False [] (map Inr chunks) =
    reason_reference from_str de invocation False (concat chunks)"
proof -
  have "take_sse_event from_str [] = (Inr None, [])" by (simp add: take_sse_event_def sse_boundary_def)
  then have "reason_events from_str de invocation False [] = ([], Some (False, []))" by (simp add: reason_events.simps)
  with assms gateway_limits(1) show ?thesis
    using reason_body_reference [of cancel 0 chunks "[]" from_str de invocation False i] by simp
qed

subsection \<open>A concrete stream\<close>

abbreviation demo_codec :: reason_codec where
  "demo_codec \<equiv> \<lparr>de_meta = (\<lambda>v. map_option (\<lambda>s. \<lparr>meta_invocation_id = s\<rparr>) (as_str v)),
     de_delta = (\<lambda>v. map_option (\<lambda>s. \<lparr>delta_text = s\<rparr>) (as_str v)), de_tool_call = (\<lambda>_. None),
     de_completed = (\<lambda>v. map_option (\<lambda>s. \<lparr>finish_reason = s, usage = \<lparr>prompt_tokens = 1, completion_tokens = 1\<rparr>\<rparr>) (as_str v))\<rparr>"

abbreviation demo_from_str :: "string \<Rightarrow> json option" where
  "demo_from_str \<equiv> \<lambda>s. Some (JString s)"

abbreviation demo_chunks :: "byte list list" where
  "demo_chunks \<equiv> map (map (of_nat \<circ> of_char)) [''event:me'', ''ta'' @ [CHR 0x0A] @ ''data:7'' @ [CHR 0x0D, CHR 0x0A, CHR 0x0D],
     [CHR 0x0A] @ ''event:completed'', [CHR 0x0A] @ ''data:s'' @ [CHR 0x0A, CHR 0x0A]]"

lemma demo_decoded: "reason_reference demo_from_str demo_codec ''7'' False (concat demo_chunks) = [Inr ReasoningEvent.Completed]"
  by code_simp

theorem reason_stream_ignores_chunking_witness:
  "reason_body demo_from_str demo_codec ''7'' (\<lambda>_. False) 1 0 False [] (map Inr demo_chunks) = [Inr ReasoningEvent.Completed]"
  unfolding demo_decoded [symmetric]
  by (rule reason_stream_ignores_chunking) (simp_all add: MAX_GATEWAY_EVENT_BYTES_def)

subsection \<open>The protocol of the stream\<close>

text \<open>
  \<open>meta_first\<close>: the body opens with the metadata of this very invocation. \<open>reasoning_ok\<close>: what may
  come before the end of a stream.
\<close>

definition meta_first :: "(string \<Rightarrow> json option) \<Rightarrow> reason_codec \<Rightarrow> string \<Rightarrow> byte list \<Rightarrow> bool" where
  "meta_first from_str de invocation body \<longleftrightarrow>
     (\<exists>v rest m. take_sse_event from_str body = (Inr (Some (''meta'', v)), rest) \<and> de_meta de v = Some m \<and>
        meta_invocation_id m = invocation)"

fun reasoning_ok :: "ReasoningEvent \<Rightarrow> bool" where
  "reasoning_ok (Delta t) \<longleftrightarrow> t \<noteq> []"
| "reasoning_ok (ToolCall c) \<longleftrightarrow> is_object (call_input c)"
| "reasoning_ok ReasoningEvent.Completed \<longleftrightarrow> False"

definition stream_ends :: "ReasoningEvent provider_stream \<Rightarrow> bool" where
  "stream_ends s \<longleftrightarrow> (\<exists>oks e. s = map Inr oks @ [e] \<and> list_all reasoning_ok oks \<and>
     (case e of Inl _ \<Rightarrow> True | Inr ev \<Rightarrow> ev = ReasoningEvent.Completed))"

definition all_ok :: "ReasoningEvent provider_stream \<Rightarrow> bool" where
  "all_ok s \<longleftrightarrow> (\<exists>oks. s = map Inr oks \<and> list_all reasoning_ok oks)"

definition errors_only :: "'a provider_stream \<Rightarrow> bool" where
  "errors_only s \<longleftrightarrow> (\<forall>x. Inr x \<notin> set s)"

lemma stream_ends_append: "all_ok s \<Longrightarrow> stream_ends t \<Longrightarrow> stream_ends (s @ t)"
proof -
  assume "all_ok s" "stream_ends t"
  then obtain oks oks' e where "s = map Inr oks" "list_all reasoning_ok oks" "t = map Inr oks' @ [e]" "list_all reasoning_ok oks'"
    "case e of Inl _ \<Rightarrow> True | Inr ev \<Rightarrow> ev = ReasoningEvent.Completed"
    unfolding all_ok_def stream_ends_def by blast
  then show "stream_ends (s @ t)"
    unfolding stream_ends_def by (intro exI [of _ "oks @ oks'"] exI [of _ e]) simp
qed

lemma all_ok_append: "all_ok s \<Longrightarrow> all_ok t \<Longrightarrow> all_ok (s @ t)"
  unfolding all_ok_def by (metis list_all_append map_append)

lemma stream_ends_single [simp]: "stream_ends [Inl e]" "stream_ends [Inr ReasoningEvent.Completed]"
  unfolding stream_ends_def by (rule exI [of _ "[]"], simp)+

lemma errors_only_simps [simp]:
  "errors_only []" "errors_only (Inl e # s) \<longleftrightarrow> errors_only s" "\<not> errors_only (Inr x # s)"
  "errors_only (s @ t) \<longleftrightarrow> errors_only s \<and> errors_only t"
  by (auto simp: errors_only_def)

lemma all_ok_single [simp]: "all_ok []" "all_ok [Inr ev] \<longleftrightarrow> reasoning_ok ev"
  by (auto simp: all_ok_def intro!: exI [of _ "[ev]"])

lemma reason_event_facts:
  assumes "reason_event de invocation auth ev = (items, k)"
  shows "case k of
      None \<Rightarrow> stream_ends items \<and> (\<not> auth \<longrightarrow> errors_only items)
    | Some auth' \<Rightarrow> auth' \<and> all_ok items \<and> (\<not> auth \<longrightarrow> items = [] \<and>
        (\<exists>v m. ev = (''meta'', v) \<and> de_meta de v = Some m \<and> meta_invocation_id m = invocation))"
  using assms by (cases ev) (auto simp: reason_event_def split: if_splits option.splits)

lemma meta_first_append: "meta_first from_str de invocation buf \<Longrightarrow> meta_first from_str de invocation (buf @ later)"
  unfolding meta_first_def using take_sse_event_append by (metis option.distinct(1) sum.inject(2))

text \<open>What the events of one buffer yield, and what they say about its beginning.\<close>

lemma reason_events_facts:
  "reason_events from_str de invocation auth buf = (items, k) \<Longrightarrow>
   (case k of
      None \<Rightarrow> stream_ends items
    | Some (auth', rest) \<Rightarrow> all_ok items \<and> (auth' \<or> \<not> auth \<and> items = [] \<and> rest = buf) \<and>
        (auth' \<longrightarrow> auth \<or> meta_first from_str de invocation buf)) \<and>
   (auth \<or> meta_first from_str de invocation buf \<or> errors_only items)"
proof (induction auth buf arbitrary: items k
    rule: reason_events_induct [where from_str = from_str and de = de and invocation = invocation])
  case (last auth buf ev t its)
  with reason_event_facts [OF last(2)] show ?case by (auto simp: reason_events_cases)
next
  case (event auth buf ev t its a)
  obtain items' where later: "reason_events from_str de invocation a t = (items', k)" "items = its @ items'"
    using event.prems event(1,2) by (cases "reason_events from_str de invocation a t") (auto simp: reason_events_cases)
  have a: "a" "all_ok its" "auth \<or> meta_first from_str de invocation buf"
    using reason_event_facts [OF event(2)] event(1) by (auto simp: meta_first_def)
  with event.IH [OF later(1)] later(2) show ?case
    by (auto intro: stream_ends_append all_ok_append split: option.splits)
qed (auto simp: reason_events_cases)

definition body_bytes :: "(unit + byte list) list \<Rightarrow> byte list" where
  "body_bytes chunks = concat (map (case_sum (\<lambda>_. []) id) chunks)"

lemma body_bytes_simps [simp]: "body_bytes [] = []" "body_bytes (Inr c # cs) = c @ body_bytes cs"
  "body_bytes (Inl u # cs) = body_bytes cs"
  by (simp_all add: body_bytes_def)

lemma reason_body_facts:
  "stream_ends (reason_body from_str de invocation cancel i n auth buf chunks) \<and>
   (auth \<or> meta_first from_str de invocation (buf @ body_bytes chunks) \<or>
    errors_only (reason_body from_str de invocation cancel i n auth buf chunks))"
proof (induction chunks arbitrary: i n auth buf)
  case (Cons chunk chunks)
  show ?case
  proof (cases chunk)
    case (Inr c)
    obtain items k where e: "reason_events from_str de invocation auth (buf @ c) = (items, k)" by fastforce
    note facts = reason_events_facts [OF e]
    show ?thesis
    proof (cases k)
      case None
      with e facts Inr show ?thesis using meta_first_append [of from_str de invocation "buf @ c"]
        by (auto simp: Let_def)
    next
      case (Some p)
      obtain a rest where p: "p = (a, rest)" by fastforce
      note ih = Cons.IH [of "Suc i" "saturating_add n (length c)" a rest]
      from facts Some p have f: "all_ok items" "a \<or> \<not> auth \<and> items = [] \<and> rest = buf @ c"
        "a \<longrightarrow> auth \<or> meta_first from_str de invocation (buf @ c)" by auto
      have "auth \<or> meta_first from_str de invocation (buf @ c @ body_bytes chunks) \<or>
          (errors_only items \<and> errors_only (reason_body from_str de invocation cancel (Suc i) (saturating_add n (length c)) a rest chunks))"
        using f ih facts meta_first_append [of from_str de invocation "buf @ c" "body_bytes chunks"] by auto
      with e f(1) ih Inr Some p show ?thesis by (auto simp: Let_def intro: stream_ends_append)
    qed
  qed simp
qed simp

text \<open>
  C30 (safety). Whatever the gateway answers and whenever the token is cancelled, a reasoning
  stream is a sequence of non-empty deltas and tool calls with object inputs followed by exactly
  one end, Completed or an error, and it yields nothing but an error unless the body opens with
  the metadata of this very invocation.
\<close>

theorem reason_stream_is_authenticated:
  "\<exists>oks e. gateway_reason from_str de uuid p req cancel = map Inr oks @ [e] \<and> list_all reasoning_ok oks \<and>
     (case e of Inl _ \<Rightarrow> True | Inr ev \<Rightarrow> ev = ReasoningEvent.Completed) \<and>
     (oks = [] \<and> (\<exists>err. e = Inl err) \<or>
      (\<exists>r. post_stream (gr_gateway p) ''reason'' (reason_request p uuid req) (cancel 0) ''text/event-stream'' = Inr r \<and>
        meta_first from_str de (invocation_id_of uuid) (body_bytes (resp_body r))))"
proof -
  let ?s = "gateway_reason from_str de uuid p req cancel"
  have "stream_ends ?s \<and> (errors_only ?s \<or>
      (\<exists>r. post_stream (gr_gateway p) ''reason'' (reason_request p uuid req) (cancel 0) ''text/event-stream'' = Inr r \<and>
        meta_first from_str de (invocation_id_of uuid) (body_bytes (resp_body r))))"
    using reason_body_facts [of from_str de "invocation_id_of uuid" cancel 1 0 False "[]"]
    by (auto simp: gateway_reason_def split: sum.split)
  moreover have "oks = [] \<and> (\<exists>err. e = Inl err)" if "errors_only (map Inr oks @ [e])" for oks :: "ReasoningEvent list" and e
    using that by (cases oks; cases e) auto
  ultimately show ?thesis unfolding stream_ends_def by metis
qed

text \<open>A token that is never cancelled never yields a cancellation.\<close>

lemma reason_events_kind:
  "Inl e \<in> set (fst (reason_events from_str de invocation auth buf)) \<Longrightarrow> perr_kind e = Permanent"
proof (induction auth buf rule: reason_events_induct [where from_str = from_str and de = de and invocation = invocation])
  case (err auth buf e' t)
  then show ?case
    by (auto simp: reason_events_cases take_sse_event_def parse_sse_block_def Let_def split: option.splits if_splits prod.splits)
next
  case (last auth buf ev t items)
  then show ?case by (cases ev) (auto simp: reason_events_cases reason_event_def split: if_splits option.splits)
next
  case (event auth buf ev t items auth')
  then show ?case by (cases ev) (auto simp: reason_events_cases reason_event_def split: if_splits option.splits)
qed (simp add: reason_events_cases)

lemma reason_body_kind:
  assumes "\<And>j. \<not> cancel j"
  shows "Inl e \<in> set (reason_body from_str de invocation cancel i n auth buf chunks) \<Longrightarrow>
    perr_kind e \<noteq> ProviderErrorKind.Cancelled"
proof (induction chunks arbitrary: i n auth buf)
  case (Cons chunk chunks)
  show ?case
  proof (cases chunk)
    case (Inr c)
    obtain items k where "reason_events from_str de invocation auth (buf @ c) = (items, k)" by fastforce
    with Cons.prems Inr assms [of i] show ?thesis
      using reason_events_kind [of e from_str de invocation auth "buf @ c"] Cons.IH
      by (auto simp: Let_def split: if_splits option.splits)
  qed (use Cons.prems assms [of i] in simp)
qed (simp add: assms)

lemma gateway_reason_kind:
  assumes "\<And>j. \<not> cancel j" and "Inl e \<in> set (gateway_reason from_str de uuid p req cancel)"
  shows "perr_kind e \<noteq> ProviderErrorKind.Cancelled"
  using assms(2) assms(1) [of 0]
  by (auto simp: gateway_reason_def split: sum.splits dest!: post_stream_kind reason_body_kind [of cancel, OF assms(1)])

end
