(* ===== verification/GatewayTts.thy ===== *)
theory GatewayTts
  imports GatewayClient
begin

text \<open>
  The streaming synthesizer of the gateway (\<open>provider/gateway.rs\<close>): the text is cut into segments
  of at most 500 characters, every segment is one request, and the body of its reply is a header
  followed by PCM samples that are handed on in pieces of at most 32 KiB.

  A string slice of the source is the list of its characters here, so that the byte offsets of
  \<open>char_indices\<close> are positions in that list. External: the generated deserialiser of the header
  (\<open>from_slice\<close>).
\<close>

subsection \<open>Cutting the text\<close>

definition MAX_TTS_TEXT_CHARACTERS :: usize where
  "MAX_TTS_TEXT_CHARACTERS = 500"

definition is_sentence_end :: "string \<Rightarrow> bool" where
  "is_sentence_end ch \<longleftrightarrow> ch \<in> {''.'', ''!'', ''?'', '';'', '':'', [CHR 0x0A]}"

text \<open>\<open>char_indices().rev().find(..)\<close>: the last position whose character satisfies a test.\<close>

definition last_index :: "('a \<Rightarrow> bool) \<Rightarrow> 'a list \<Rightarrow> nat option" where
  "last_index P xs = find (\<lambda>j. P (xs ! j)) (rev [0..<length xs])"

definition trim_chars :: "string list \<Rightarrow> string list" where
  "trim_chars chs = rev (trim_start_chars (rev (trim_start_chars chs)))"

definition tts_split_at :: "string list \<Rightarrow> nat" where
  "tts_split_at prefix =
     (let sentence_end = map_option Suc (last_index is_sentence_end prefix);
          whitespace = last_index char_is_whitespace prefix;
          choice = (case sentence_end of
              Some k \<Rightarrow> if k \<ge> MAX_TTS_TEXT_CHARACTERS div 2 then Some k else whitespace
            | None \<Rightarrow> whitespace) in
      case choice of
        Some k \<Rightarrow> if k > 0 then k else length prefix
      | None \<Rightarrow> length prefix)"

lemma tts_split_at_pos: "prefix \<noteq> [] \<Longrightarrow> 0 < tts_split_at prefix"
  by (auto simp: tts_split_at_def Let_def MAX_TTS_TEXT_CHARACTERS_def split: option.split)

function split_tts_chars :: "string list \<Rightarrow> string list list" where
  "split_tts_chars remaining =
     (if remaining = [] then []
      else if length remaining \<le> MAX_TTS_TEXT_CHARACTERS then [remaining]
      else let k = tts_split_at (take MAX_TTS_TEXT_CHARACTERS remaining);
               segment = trim_chars (take k remaining) in
        (if segment = [] then [] else [segment]) @ split_tts_chars (trim_start_chars (drop k remaining)))"
  by pat_completeness auto
termination
proof (relation "measure length", simp, goal_cases)
  case (1 remaining k segment)
  then have "0 < k" using tts_split_at_pos [of "take MAX_TTS_TEXT_CHARACTERS remaining"]
    by (simp add: MAX_TTS_TEXT_CHARACTERS_def)
  moreover have "length (trim_start_chars (drop k remaining)) \<le> length (drop k remaining)"
    unfolding trim_start_chars_def by (rule length_dropWhile_le)
  ultimately show ?case using 1 by (cases remaining) auto
qed

declare split_tts_chars.simps [simp del]

definition split_tts_text :: "string \<Rightarrow> string list" where
  "split_tts_text s = map concat (split_tts_chars (trim_chars (utf8_chars s)))"

subsection \<open>The audio stream\<close>

definition MAX_TTS_CHUNK_BYTES :: usize where
  "MAX_TTS_CHUNK_BYTES = 32 * 1024"

definition TTS_STREAM_MAGIC :: "byte list" where
  "TTS_STREAM_MAGIC = [67, 87, 84, 49]"

record TtsStreamHeader =
  hdr_invocation_id :: string
  tts_encoding :: string
  tts_sample_rate_hz :: nat
  tts_channels :: nat
  hdr_characters :: usize

text \<open>What the header has to agree with: the invocation, the sample rate and the segment.\<close>

record tts_expected =
  exp_invocation_id :: string
  exp_sample_rate_hz :: nat
  exp_characters :: usize

definition tts_header_matches :: "tts_expected \<Rightarrow> TtsStreamHeader \<Rightarrow> bool" where
  "tts_header_matches ex h \<longleftrightarrow>
     hdr_invocation_id h = exp_invocation_id ex \<and> tts_encoding h = ''pcm16le'' \<and>
     tts_sample_rate_hz h = exp_sample_rate_hz ex \<and> tts_channels h = 1 \<and> hdr_characters h = exp_characters ex"

text \<open>
  The header at the front of the undecoded bytes: an error, \<open>None\<close> while it is incomplete, or the
  bytes that follow it.
\<close>

definition tts_header ::
  "(byte list \<Rightarrow> TtsStreamHeader option) \<Rightarrow> tts_expected \<Rightarrow> byte list \<Rightarrow> ProviderError + byte list option" where
  "tts_header from_slice ex undecoded =
     (if length undecoded \<ge> 8 then
        if take 4 undecoded \<noteq> TTS_STREAM_MAGIC then Inl (permanent ''tts'')
        else let metadata_bytes = u32_from_be_bytes (take 4 (drop 4 undecoded)) in
          if metadata_bytes = 0 \<or> metadata_bytes > 1024 then Inl (permanent ''tts'')
          else let header_bytes = saturating_add 8 metadata_bytes in
            if length undecoded \<ge> header_bytes then
              (case from_slice (drop 8 (take header_bytes undecoded)) of
                 None \<Rightarrow> Inl (permanent ''tts'')
               | Some m \<Rightarrow>
                   if \<not> tts_header_matches ex m then Inl (permanent ''tts'')
                   else Inr (Some (drop header_bytes undecoded)))
            else Inr None
      else Inr None)"

text \<open>\<open>while audio.len() >= MAX_TTS_CHUNK_BYTES\<close>: the full pieces and what is left.\<close>

function emit_full :: "byte list \<Rightarrow> byte list list \<times> byte list" where
  "emit_full audio =
     (if length audio \<ge> MAX_TTS_CHUNK_BYTES
      then (case emit_full (drop MAX_TTS_CHUNK_BYTES audio) of
          (pieces, rest) \<Rightarrow> (take MAX_TTS_CHUNK_BYTES audio # pieces, rest))
      else ([], audio))"
  by pat_completeness auto
termination
  by (relation "measure length") (auto simp: MAX_TTS_CHUNK_BYTES_def)

declare emit_full.simps [simp del]

record tts_state =
  undecoded :: "byte list"
  tts_audio :: "byte list"
  metadata_received :: bool
  response_bytes :: usize
  segment_audio_bytes :: usize

definition tts_init :: tts_state where
  "tts_init = \<lparr>undecoded = [], tts_audio = [], metadata_received = False, response_bytes = 0, segment_audio_bytes = 0\<rparr>"

text \<open>One chunk: the header while it is missing, audio afterwards.\<close>

definition tts_accept ::
  "(byte list \<Rightarrow> TtsStreamHeader option) \<Rightarrow> tts_expected \<Rightarrow> byte list \<Rightarrow> tts_state \<Rightarrow> ProviderError + tts_state" where
  "tts_accept from_slice ex chunk st =
     (let st = st\<lparr>response_bytes := saturating_add (response_bytes st) (length chunk)\<rparr> in
      if response_bytes st > MAX_GATEWAY_RESPONSE_BYTES then Inl (permanent ''tts'')
      else if metadata_received st
      then Inr (st\<lparr>segment_audio_bytes := saturating_add (segment_audio_bytes st) (length chunk),
        tts_audio := tts_audio st @ chunk\<rparr>)
      else let u = undecoded st @ chunk in
        case tts_header from_slice ex u of
          Inl e \<Rightarrow> Inl e
        | Inr (Some rest) \<Rightarrow> Inr (st\<lparr>metadata_received := True,
            segment_audio_bytes := saturating_add (segment_audio_bytes st) (length rest),
            tts_audio := tts_audio st @ rest, undecoded := []\<rparr>)
        | Inr None \<Rightarrow> if length u > 1032 then Inl (permanent ''tts'') else Inr (st\<lparr>undecoded := u\<rparr>))"

text \<open>The items of one reply and, unless the stream returns, the number of the next poll.\<close>

fun tts_body ::
  "(byte list \<Rightarrow> TtsStreamHeader option) \<Rightarrow> tts_expected \<Rightarrow> cancellation \<Rightarrow> nat \<Rightarrow> tts_state \<Rightarrow>
   (unit + byte list) list \<Rightarrow> byte list provider_stream \<times> nat option" where
  "tts_body from_slice ex cancel i st [] =
     (if cancel i then ([Inl (provider_error_cancelled ''tts'')], None)
      else if \<not> metadata_received st \<or> segment_audio_bytes st = 0 \<or> odd (segment_audio_bytes st)
        \<or> odd (length (tts_audio st))
      then ([Inl (permanent ''tts'')], None)
      else (if tts_audio st = [] then [] else [Inr (tts_audio st)], Some (Suc i)))"
| "tts_body from_slice ex cancel i st (chunk # chunks) =
     (if cancel i then ([Inl (provider_error_cancelled ''tts'')], None)
      else case chunk of
        Inl _ \<Rightarrow> ([Inl (transient ''tts'')], None)
      | Inr c \<Rightarrow>
          (case tts_accept from_slice ex c st of
             Inl e \<Rightarrow> ([Inl e], None)
           | Inr st \<Rightarrow>
               (case emit_full (tts_audio st) of
                  (pieces, rest) \<Rightarrow>
                    (case tts_body from_slice ex cancel (Suc i) (st\<lparr>tts_audio := rest\<rparr>) chunks of
                       (items, k) \<Rightarrow> (map Inr pieces @ items, k)))))"

record 'u GatewayTextToSpeech =
  gt_gateway :: "'u GatewayClient"
  gt_reference :: ProviderReference

definition tts_request :: "'u GatewayTextToSpeech \<Rightarrow> string \<Rightarrow> SynthesisRequest \<Rightarrow> string \<Rightarrow> json" where
  "tts_request p uuid req segment =
     JObject (gateway_base (gt_gateway p) uuid (gt_reference p) @
       [(''text'', JString segment), (''voiceId'', JString (synthesis_voice_id req)),
        (''sampleRateHz'', JNumber (PosInt (synthesis_sample_rate_hz req)))])"

definition tts_expects :: "string \<Rightarrow> SynthesisRequest \<Rightarrow> string \<Rightarrow> tts_expected" where
  "tts_expects uuid req segment =
     \<lparr>exp_invocation_id = invocation_id_of uuid, exp_sample_rate_hz = synthesis_sample_rate_hz req,
      exp_characters = chars_count segment\<rparr>"

text \<open>The loop over the segments; \<open>uuid k\<close> is the identifier drawn for the \<open>k\<close>-th.\<close>

fun tts_segments ::
  "(byte list \<Rightarrow> TtsStreamHeader option) \<Rightarrow> (nat \<Rightarrow> string) \<Rightarrow> 'u GatewayTextToSpeech \<Rightarrow> SynthesisRequest \<Rightarrow>
   cancellation \<Rightarrow> nat \<Rightarrow> nat \<Rightarrow> string list \<Rightarrow> byte list provider_stream" where
  "tts_segments from_slice uuid p req cancel k i [] = []"
| "tts_segments from_slice uuid p req cancel k i (segment # segments) =
     (if cancel i then [Inl (provider_error_cancelled ''tts'')]
      else case post_stream (gt_gateway p) ''tts'' (tts_request p (uuid k) req segment) (cancel (Suc i))
          ''application/vnd.calluwu.pcm16-stream'' of
        Inl e \<Rightarrow> [Inl e]
      | Inr r \<Rightarrow>
          (case tts_body from_slice (tts_expects (uuid k) req segment) cancel (i + 2) tts_init (resp_body r) of
             (items, None) \<Rightarrow> items
           | (items, Some j) \<Rightarrow> items @ tts_segments from_slice uuid p req cancel (Suc k) j segments))"

definition gateway_synthesize ::
  "(byte list \<Rightarrow> TtsStreamHeader option) \<Rightarrow> (nat \<Rightarrow> string) \<Rightarrow> 'u GatewayTextToSpeech \<Rightarrow> SynthesisRequest \<Rightarrow>
   cancellation \<Rightarrow> byte list provider_stream" where
  "gateway_synthesize from_slice uuid p req cancel =
     tts_segments from_slice uuid p req cancel 0 0 (split_tts_text (synthesis_text req))"

subsection \<open>The segments of a text\<close>

text \<open>The characters of a string are recovered from any part of them.\<close>

definition char_ok :: "string \<Rightarrow> bool" where
  "char_ok ch \<longleftrightarrow> ch \<noteq> [] \<and> \<not> is_continuation (hd ch) \<and> list_all is_continuation (tl ch)"

lemma utf8_chars_tails: "ch \<in> set (utf8_chars s) \<Longrightarrow> list_all is_continuation (tl ch)"
proof (induction s arbitrary: ch)
  case (Cons c cs)
  show ?case
  proof (cases "utf8_chars cs")
    case (Cons w ws)
    moreover have "w \<noteq> []" using Cons utf8_chars_nonempty [of w cs] by simp
    ultimately show ?thesis using Cons.prems Cons.IH [of w] Cons.IH [of ch] by (cases w) (auto split: if_splits)
  qed (use Cons.prems in auto)
qed simp

lemma valid_utf8_char_head: "valid_utf8_char ch \<Longrightarrow> \<not> is_continuation (hd ch)"
  by (cases ch rule: valid_utf8_char.cases) (auto simp: byte_in_def is_continuation_def)

lemma utf8_chars_ok: "valid_utf8 s \<Longrightarrow> list_all char_ok (utf8_chars s)"
  unfolding valid_utf8_def list_all_iff [of char_ok] list_all_iff [of valid_utf8_char]
  by (simp add: char_ok_def utf8_chars_nonempty utf8_chars_tails valid_utf8_char_head)

lemma utf8_chars_append:
  "list_all is_continuation ds \<Longrightarrow> s = [] \<or> \<not> is_continuation (hd s) \<Longrightarrow>
   utf8_chars (c # ds @ s) = (c # ds) # utf8_chars s"
proof (induction ds arbitrary: c)
  case Nil
  then show ?case
    by (cases s) (auto split: list.split dest: arg_cong [of _ _ concat])
next
  case (Cons d ds)
  then show ?case by (simp split: list.split)
qed

lemma utf8_chars_concat: "list_all char_ok chs \<Longrightarrow> utf8_chars (concat chs) = chs"
proof (induction chs)
  case (Cons ch chs)
  obtain c ds where ch: "ch = c # ds" "list_all is_continuation ds" using Cons.prems by (cases ch) (auto simp: char_ok_def)
  have "concat chs = [] \<or> \<not> is_continuation (hd (concat chs))" using Cons.prems by (cases chs) (auto simp: char_ok_def)
  with ch Cons show ?case using utf8_chars_append [of ds "concat chs" c] by simp
qed simp

definition trimmed :: "string list \<Rightarrow> bool" where
  "trimmed chs \<longleftrightarrow> chs = [] \<or> \<not> char_is_whitespace (hd chs) \<and> \<not> char_is_whitespace (last chs)"

definition visible :: "string list \<Rightarrow> string list" where
  "visible chs = filter (\<lambda>ch. \<not> char_is_whitespace ch) chs"

lemma trim_start_facts:
  "set (trim_start_chars chs) \<subseteq> set chs" "length (trim_start_chars chs) \<le> length chs"
  "visible (trim_start_chars chs) = visible chs" "trim_start_chars chs = [] \<or> \<not> char_is_whitespace (hd (trim_start_chars chs))"
  "trim_start_chars chs = [] \<or> last (trim_start_chars chs) = last chs"
  unfolding trim_start_chars_def visible_def
  by (induction chs) auto

lemma trim_start_id: "chs = [] \<or> \<not> char_is_whitespace (hd chs) \<Longrightarrow> trim_start_chars chs = chs"
  by (cases chs) (auto simp: trim_start_chars_def)

lemma trim_chars_facts:
  "set (trim_chars chs) \<subseteq> set chs" "length (trim_chars chs) \<le> length chs" "visible (trim_chars chs) = visible chs"
  "trimmed (trim_chars chs)"
proof -
  let ?a = "trim_start_chars chs" and ?b = "trim_start_chars (rev (trim_start_chars chs))"
  show "set (trim_chars chs) \<subseteq> set chs" "length (trim_chars chs) \<le> length chs"
    using trim_start_facts(1,2) [of chs] trim_start_facts(1,2) [of "rev ?a"] by (auto simp: trim_chars_def)
  show "visible (trim_chars chs) = visible chs"
    using trim_start_facts(3) [of chs] trim_start_facts(3) [of "rev ?a"] by (simp add: trim_chars_def visible_def rev_filter [symmetric])
  show "trimmed (trim_chars chs)"
  proof (cases "?b = []")
    case False
    then have "?a \<noteq> []" using trim_start_id [of "[]"] by (metis rev.simps(1))
    with False have "hd (trim_chars chs) = hd ?a" "last (trim_chars chs) = hd ?b"
      using trim_start_facts(5) [of "rev ?a"] by (auto simp: trim_chars_def hd_rev last_rev)
    with False \<open>?a \<noteq> []\<close> trim_start_facts(4) [of chs] trim_start_facts(4) [of "rev ?a"] show ?thesis
      by (simp add: trimmed_def)
  qed (simp add: trimmed_def trim_chars_def)
qed

lemma trim_trimmed: "trimmed chs \<Longrightarrow> trim_chars chs = chs"
  using trim_start_id [of chs] trim_start_id [of "rev chs"] by (auto simp: trimmed_def trim_chars_def hd_rev)

lemma last_index_bound: "last_index P xs = Some j \<Longrightarrow> j < length xs"
  by (auto simp: last_index_def dest!: find_Some_set)

lemma tts_split_at_le: "tts_split_at prefix \<le> length prefix"
  by (auto simp: tts_split_at_def Let_def Suc_le_eq split: option.split if_splits dest: last_index_bound intro: less_imp_le)

lemma split_tts_chars_facts:
  "trimmed remaining \<Longrightarrow>
   (\<forall>segment \<in> set (split_tts_chars remaining). segment \<noteq> [] \<and> length segment \<le> MAX_TTS_TEXT_CHARACTERS \<and>
      trimmed segment \<and> set segment \<subseteq> set remaining) \<and>
   concat (map visible (split_tts_chars remaining)) = visible remaining"
proof (induction remaining rule: split_tts_chars.induct)
  case (1 remaining)
  show ?case
  proof (cases "length remaining \<le> MAX_TTS_TEXT_CHARACTERS")
    case True
    with "1.prems" show ?thesis by (simp add: split_tts_chars.simps visible_def)
  next
    case False
    let ?k = "tts_split_at (take MAX_TTS_TEXT_CHARACTERS remaining)"
    let ?s = "trim_chars (take ?k remaining)" and ?r = "trim_start_chars (drop ?k remaining)"
    have ne: "remaining \<noteq> []" using False by auto
    have k: "?k \<le> MAX_TTS_TEXT_CHARACTERS" using tts_split_at_le [of "take MAX_TTS_TEXT_CHARACTERS remaining"] by simp
    have "?r = [] \<or> last ?r = last remaining"
      using trim_start_facts(5) [of "drop ?k remaining"] trim_start_id [of "[]"]
      by (cases "drop ?k remaining = []") (auto simp: last_drop)
    then have r: "trimmed ?r" "set ?r \<subseteq> set remaining" "visible ?s @ visible ?r = visible remaining"
      using "1.prems" trim_start_facts [of "drop ?k remaining"] trim_chars_facts(3) [of "take ?k remaining"] set_drop_subset [of ?k remaining]
      by (auto simp: trimmed_def visible_def simp flip: filter_append)
    have seg: "length ?s \<le> MAX_TTS_TEXT_CHARACTERS" "trimmed ?s" "set ?s \<subseteq> set remaining"
      using k trim_chars_facts [of "take ?k remaining"] set_take_subset [of ?k remaining] by auto
    have split: "split_tts_chars remaining = (if ?s = [] then [] else [?s]) @ split_tts_chars ?r"
      using False ne by (simp add: split_tts_chars.simps [of remaining] Let_def)
    note ih = "1.IH" [OF ne False refl refl r(1)]
    have "segment \<noteq> [] \<and> length segment \<le> MAX_TTS_TEXT_CHARACTERS \<and> trimmed segment \<and> set segment \<subseteq> set remaining"
      if in_segments: "segment \<in> set (split_tts_chars remaining)" for segment
    proof (cases "segment \<in> set (split_tts_chars ?r)")
      case True
      with ih r(2) show ?thesis by blast
    next
      case False
      with in_segments have "segment = ?s" "?s \<noteq> []" unfolding split by (simp_all split: if_splits)
      with seg show ?thesis by simp
    qed
    moreover have "concat (map visible (if ?s = [] then [] else [?s])) = visible ?s" by (simp add: visible_def)
    then have "concat (map visible (split_tts_chars remaining)) = visible remaining"
      unfolding split map_append concat_append using conjunct2 [OF ih] r(3) by metis
    ultimately show ?thesis by blast
  qed
qed

text \<open>
  C31 (functional). Cutting a text for synthesis always ends; every segment is non-empty,
  trimmed and at most 500 characters long, and together the segments hold exactly the visible
  characters of the text, in order.
\<close>

theorem split_tts_text_segments:
  assumes "valid_utf8 s"
  shows "(\<forall>segment \<in> set (split_tts_text s). segment \<noteq> [] \<and> chars_count segment \<le> MAX_TTS_TEXT_CHARACTERS \<and> trim segment = segment) \<and>
    concat (map (\<lambda>segment. visible (utf8_chars segment)) (split_tts_text s)) = visible (utf8_chars s)"
proof -
  let ?chs = "trim_chars (utf8_chars s)"
  have sub: "set ?chs \<subseteq> set (utf8_chars s)" "trimmed ?chs" "visible ?chs = visible (utf8_chars s)"
    using trim_chars_facts by auto
  note facts = split_tts_chars_facts [OF sub(2)]
  have seg: "utf8_chars (concat segment) = segment \<and> trim (concat segment) = concat segment \<and> concat segment \<noteq> []"
    if "segment \<in> set (split_tts_chars ?chs)" for segment
  proof -
    have ok: "list_all char_ok segment"
      using that facts sub(1) utf8_chars_ok [OF assms] by (auto simp: list_all_iff)
    with that facts have "trim_chars segment = segment" "segment \<noteq> []" using trim_trimmed by auto
    moreover have "concat segment \<noteq> []" using ok \<open>segment \<noteq> []\<close> by (cases segment) (auto simp: char_ok_def)
    ultimately show ?thesis using ok by (simp add: utf8_chars_concat trim_def trim_chars_def)
  qed
  have "map (\<lambda>segment. visible (utf8_chars segment)) (split_tts_text s) = map visible (split_tts_chars ?chs)"
    using seg by (simp add: split_tts_text_def)
  moreover have "\<forall>segment \<in> set (split_tts_text s). segment \<noteq> [] \<and> chars_count segment \<le> MAX_TTS_TEXT_CHARACTERS \<and> trim segment = segment"
    using seg facts by (auto simp: split_tts_text_def chars_count_def)
  ultimately show ?thesis using facts sub(3) by simp
qed

lemma utf8_chars_ascii: "\<not> is_continuation c \<Longrightarrow> utf8_chars (replicate n c) = replicate n [c]"
proof (induction n)
  case (Suc n)
  then show ?case by (cases n) auto
qed simp

theorem split_tts_text_segments_witness:
  "list_all (\<lambda>segment. chars_count segment \<le> 500) (split_tts_text (replicate 1200 (CHR ''a''))) \<and>
   2 < length (split_tts_text (replicate 1200 (CHR ''a'')))"
proof -
  let ?s = "replicate 1200 (CHR ''a'')"
  have chars: "utf8_chars ?s = replicate 1200 ''a''" by (rule utf8_chars_ascii) (simp add: is_continuation_def)
  then have "valid_utf8 ?s" by (simp add: valid_utf8_def byte_in_def list_all_iff)
  from split_tts_text_segments [OF this]
  have all: "\<forall>segment \<in> set (split_tts_text ?s). chars_count segment \<le> 500"
    and whole: "concat (map (\<lambda>segment. visible (utf8_chars segment)) (split_tts_text ?s)) = replicate 1200 ''a''"
    unfolding chars by (auto simp: MAX_TTS_TEXT_CHARACTERS_def visible_def char_is_whitespace_def)
  have "length (concat (map (\<lambda>segment. visible (utf8_chars segment)) segments)) \<le> 500 * length segments"
    if "\<forall>segment \<in> set segments. chars_count segment \<le> 500" for segments
    using that
  proof (induction segments)
    case (Cons a segments)
    have "length (visible (utf8_chars a)) \<le> chars_count a" by (simp add: visible_def chars_count_def)
    with Cons show ?case by simp
  qed simp
  from this [OF all] all show ?thesis unfolding whole by (simp add: list_all_iff)
qed

subsection \<open>Chunking\<close>

lemma tts_header_append:
  "tts_header from_slice ex u = Inl e \<Longrightarrow> tts_header from_slice ex (u @ later) = Inl e"
  "tts_header from_slice ex u = Inr (Some r) \<Longrightarrow> tts_header from_slice ex (u @ later) = Inr (Some (r @ later))"
  "tts_header from_slice ex u = Inr None \<Longrightarrow> length u < 1032"
  by (auto simp: tts_header_def Let_def saturating_add_def u64_max_def split: if_splits option.splits)

lemma tts_header_result:
  "tts_header from_slice ex u = Inl e \<Longrightarrow> e = permanent ''tts''"
  "tts_header from_slice ex u = Inr (Some r) \<Longrightarrow> length r \<le> length u"
  by (auto simp: tts_header_def Let_def split: if_splits option.splits)

lemma emit_full_pieces:
  "emit_full audio = (pieces, rest) \<Longrightarrow>
   concat pieces @ rest = audio \<and> length rest < MAX_TTS_CHUNK_BYTES \<and> (\<forall>p \<in> set pieces. length p = MAX_TTS_CHUNK_BYTES)"
proof (induction audio arbitrary: pieces rule: emit_full.induct)
  case (1 audio)
  show ?case
  proof (cases "length audio \<ge> MAX_TTS_CHUNK_BYTES")
    case True
    obtain ps r where e: "emit_full (drop MAX_TTS_CHUNK_BYTES audio) = (ps, r)" by fastforce
    with "1.prems" True have "pieces = take MAX_TTS_CHUNK_BYTES audio # ps" "rest = r" by (simp_all add: emit_full.simps [of audio])
    with "1.IH" [OF True, of ps] e True show ?thesis by (simp add: append_assoc [symmetric]) 
  qed (use "1.prems" in \<open>simp add: emit_full.simps\<close>)
qed

lemma emit_full_short [simp]: "length audio < MAX_TTS_CHUNK_BYTES \<Longrightarrow> emit_full audio = ([], audio)"
  by (simp add: emit_full.simps)

lemma emit_full_append:
  "emit_full audio = (pieces, rest) \<Longrightarrow>
   emit_full (audio @ later) = (pieces @ fst (emit_full (rest @ later)), snd (emit_full (rest @ later)))"
proof (induction audio arbitrary: pieces rule: emit_full.induct)
  case (1 audio)
  show ?case
  proof (cases "length audio \<ge> MAX_TTS_CHUNK_BYTES")
    case True
    obtain ps r where e: "emit_full (drop MAX_TTS_CHUNK_BYTES audio) = (ps, r)" by fastforce
    with "1.prems" True have "pieces = take MAX_TTS_CHUNK_BYTES audio # ps" "rest = r" by (simp_all add: emit_full.simps [of audio])
    with "1.IH" [OF True, of ps] e True show ?thesis by (simp add: emit_full.simps [of "audio @ later"])
  qed (use "1.prems" in simp)
qed

text \<open>
  The reference: the header and the samples of the complete body, the samples in pieces of full
  size and one shorter last piece.
\<close>

definition tts_pieces :: "nat \<Rightarrow> byte list \<Rightarrow> byte list provider_stream" where
  "tts_pieces n audio =
     (case emit_full audio of
        (pieces, rest) \<Rightarrow> map Inr pieces @
          (if n = 0 \<or> odd n \<or> odd (length rest) then [Inl (permanent ''tts'')] else if rest = [] then [] else [Inr rest]))"

definition tts_reference ::
  "(byte list \<Rightarrow> TtsStreamHeader option) \<Rightarrow> tts_expected \<Rightarrow> byte list \<Rightarrow> byte list provider_stream" where
  "tts_reference from_slice ex body =
     (case tts_header from_slice ex body of
        Inr (Some audio) \<Rightarrow> tts_pieces (length audio) audio
      | _ \<Rightarrow> [Inl (permanent ''tts'')])"

lemma tts_pieces_append:
  "emit_full audio = (pieces, rest) \<Longrightarrow> tts_pieces n (audio @ later) = map Inr pieces @ tts_pieces n (rest @ later)"
  by (simp add: tts_pieces_def emit_full_append split: prod.split)

lemma tts_body_audio:
  assumes "\<And>j. \<not> cancel j"
  shows "metadata_received st \<Longrightarrow> length (tts_audio st) < MAX_TTS_CHUNK_BYTES \<Longrightarrow>
    response_bytes st + length (concat bs) \<le> MAX_GATEWAY_RESPONSE_BYTES \<Longrightarrow> segment_audio_bytes st \<le> response_bytes st \<Longrightarrow>
    fst (tts_body from_slice ex cancel i st (map Inr bs)) =
      tts_pieces (segment_audio_bytes st + length (concat bs)) (tts_audio st @ concat bs)"
proof (induction bs arbitrary: i st)
  case Nil
  then show ?case using assms [of i] by (simp add: tts_pieces_def)
next
  case (Cons b bs)
  have sat: "saturating_add (response_bytes st) (length b) = response_bytes st + length b"
    "saturating_add (segment_audio_bytes st) (length b) = segment_audio_bytes st + length b"
    using Cons.prems(3,4) gateway_limits(2) by (auto intro!: saturating_add_exact)
  obtain pieces rest where e: "emit_full (tts_audio st @ b) = (pieces, rest)" by fastforce
  let ?st = "st\<lparr>response_bytes := response_bytes st + length b, segment_audio_bytes := segment_audio_bytes st + length b,
      tts_audio := tts_audio st @ b\<rparr>"
  have "tts_accept from_slice ex b st = Inr ?st"
    using Cons.prems(1,3) sat by (simp add: tts_accept_def Let_def)
  moreover have "fst (tts_body from_slice ex cancel (Suc i) (?st\<lparr>tts_audio := rest\<rparr>) (map Inr bs)) =
      tts_pieces (segment_audio_bytes st + length b + length (concat bs)) (rest @ concat bs)"
    using Cons.prems Cons.IH [of "?st\<lparr>tts_audio := rest\<rparr>" "Suc i"] emit_full_pieces [OF e] by simp
  ultimately show ?case
    using assms [of i] e tts_pieces_append [OF e, of _ "concat bs"] by (simp add: add.assoc case_prod_unfold)
qed

lemma tts_body_reference:
  assumes "\<And>j. \<not> cancel j"
  shows "\<not> metadata_received st \<Longrightarrow> tts_audio st = [] \<Longrightarrow> segment_audio_bytes st = 0 \<Longrightarrow>
    tts_header from_slice ex (undecoded st) = Inr None \<Longrightarrow>
    response_bytes st + length (concat bs) \<le> MAX_GATEWAY_RESPONSE_BYTES \<Longrightarrow> length (undecoded st) \<le> response_bytes st \<Longrightarrow>
    fst (tts_body from_slice ex cancel i st (map Inr bs)) = tts_reference from_slice ex (undecoded st @ concat bs)"
proof (induction bs arbitrary: i st)
  case Nil
  then show ?case using assms [of i] by (simp add: tts_reference_def)
next
  case (Cons b bs)
  let ?u = "undecoded st @ b" and ?st = "st\<lparr>response_bytes := response_bytes st + length b\<rparr>"
  have sat: "saturating_add (response_bytes st) (length b) = response_bytes st + length b"
    using Cons.prems(5) gateway_limits(2) by (auto intro!: saturating_add_exact)
  consider (err) e where "tts_header from_slice ex ?u = Inl e" | (more) "tts_header from_slice ex ?u = Inr None"
    | (found) rest where "tts_header from_slice ex ?u = Inr (Some rest)"
    by (metis option.exhaust sum.exhaust)
  then show ?case
  proof cases
    case err
    have "e = permanent ''tts''" using tts_header_result(1) [OF err] .
    moreover have "tts_accept from_slice ex b st = Inl e"
      using err Cons.prems(1,5) sat by (simp add: tts_accept_def Let_def)
    ultimately show ?thesis
      using assms [of i] tts_header_append(1) [OF err, of "concat bs"] by (simp add: tts_reference_def)
  next
    case more
    then have "tts_accept from_slice ex b st = Inr (?st\<lparr>undecoded := ?u\<rparr>)"
      using Cons.prems(1,5) sat tts_header_append(3) [OF more] by (simp add: tts_accept_def Let_def)
    then show ?thesis
      using assms [of i] Cons.prems Cons.IH [of "?st\<lparr>undecoded := ?u, tts_audio := []\<rparr>" "Suc i"] more
      by (simp add: MAX_TTS_CHUNK_BYTES_def case_prod_unfold)
  next
    case found
    have fits: "length rest \<le> response_bytes st + length b" using tts_header_result(2) [OF found] Cons.prems(6) by simp
    let ?a = "?st\<lparr>metadata_received := True, segment_audio_bytes := length rest, tts_audio := rest, undecoded := []\<rparr>"
    obtain pieces r where e: "emit_full rest = (pieces, r)" by fastforce
    have "length rest \<le> u64_max" using fits Cons.prems(5) gateway_limits(2) by simp
    then have "saturating_add 0 (length rest) = length rest" by (simp add: saturating_add_def)
    then have "tts_accept from_slice ex b st = Inr ?a"
      using Cons.prems(1-3,5) sat found by (simp add: tts_accept_def Let_def)
    moreover have "fst (tts_body from_slice ex cancel (Suc i) (?a\<lparr>tts_audio := r\<rparr>) (map Inr bs)) =
        tts_pieces (length rest + length (concat bs)) (r @ concat bs)"
      using Cons.prems(5) fits emit_full_pieces [OF e] tts_body_audio [OF assms, of "?a\<lparr>tts_audio := r\<rparr>" bs] by simp
    ultimately show ?thesis
      using assms [of i] e tts_pieces_append [OF e, of _ "concat bs"] tts_header_append(2) [OF found, of "concat bs"]
      by (simp add: tts_reference_def case_prod_unfold)
  qed
qed

text \<open>
  C32 (equivalence). However the body of a synthesis reply is cut into network chunks, the
  synthesizer yields what the complete body gives: an error unless the header matches the
  invocation, and otherwise the samples after the header, all of them and in order, when there
  is an even, positive number of bytes; for every body within the bound of 4 MiB.
\<close>

theorem tts_stream_ignores_chunking:
  assumes "\<And>j. \<not> cancel j" and "length (concat chunks) \<le> MAX_GATEWAY_RESPONSE_BYTES"
  shows "fst (tts_body from_slice ex cancel i tts_init (map Inr chunks)) = tts_reference from_slice ex (concat chunks) \<and>
    (tts_header from_slice ex (concat chunks) = Inr (Some audio) \<longrightarrow> audio \<noteq> [] \<longrightarrow> even (length audio) \<longrightarrow>
       (\<exists>pieces. tts_reference from_slice ex (concat chunks) = map Inr pieces \<and> concat pieces = audio))"
proof
  show "fst (tts_body from_slice ex cancel i tts_init (map Inr chunks)) = tts_reference from_slice ex (concat chunks)"
    using tts_body_reference [OF assms(1), where st = tts_init and bs = chunks and i = i] assms(2)
    by (simp add: tts_init_def tts_header_def)
  obtain pieces rest where e: "emit_full audio = (pieces, rest)" by fastforce
  have "length (concat pieces) = MAX_TTS_CHUNK_BYTES * length pieces" if "\<forall>p \<in> set pieces. length p = MAX_TTS_CHUNK_BYTES"
    using that by (induction pieces) auto
  with emit_full_pieces [OF e] have "even (length (concat pieces))" by (simp add: MAX_TTS_CHUNK_BYTES_def)
  then have parity: "even (length audio) \<longleftrightarrow> even (length rest)" using emit_full_pieces [OF e] by (auto simp flip: even_add)
  show "tts_header from_slice ex (concat chunks) = Inr (Some audio) \<longrightarrow> audio \<noteq> [] \<longrightarrow> even (length audio) \<longrightarrow>
      (\<exists>pieces. tts_reference from_slice ex (concat chunks) = map Inr pieces \<and> concat pieces = audio)"
    using e emit_full_pieces [OF e] parity
    by (auto simp: tts_reference_def tts_pieces_def intro!: exI [of _ "pieces @ (if rest = [] then [] else [rest])"])
qed

abbreviation demo_tts_expected :: tts_expected where
  "demo_tts_expected \<equiv> \<lparr>exp_invocation_id = ''inv_7'', exp_sample_rate_hz = 16000, exp_characters = 2\<rparr>"

abbreviation demo_tts_from_slice :: "byte list \<Rightarrow> TtsStreamHeader option" where
  "demo_tts_from_slice \<equiv> \<lambda>_. Some \<lparr>hdr_invocation_id = ''inv_7'', tts_encoding = ''pcm16le'', tts_sample_rate_hz = 16000,
     tts_channels = 1, hdr_characters = 2\<rparr>"

theorem tts_stream_ignores_chunking_witness:
  "fst (tts_body demo_tts_from_slice demo_tts_expected (\<lambda>_. False) 2 tts_init
      (map Inr [[67, 87], [84, 49, 0, 0, 0], [2, 123, 125, 7], [8, 9, 10]])) = [Inr [7, 8, 9, 10]]"
proof -
  let ?chunks = "[[67, 87], [84, 49, 0, 0, 0], [2, 123, 125, 7], [8, 9, 10]] :: byte list list"
  have "length (concat ?chunks) \<le> MAX_GATEWAY_RESPONSE_BYTES" by (simp add: MAX_GATEWAY_RESPONSE_BYTES_def)
  from tts_stream_ignores_chunking [OF _ this, of "\<lambda>_. False" demo_tts_from_slice demo_tts_expected 2 "[]"]
  have "fst (tts_body demo_tts_from_slice demo_tts_expected (\<lambda>_. False) 2 tts_init (map Inr ?chunks)) =
      tts_reference demo_tts_from_slice demo_tts_expected (concat ?chunks)" by blast
  also have "\<dots> = [Inr [7, 8, 9, 10]]"
    by (simp add: tts_reference_def tts_header_def TTS_STREAM_MAGIC_def tts_header_matches_def saturating_add_def u64_max_def
        tts_pieces_def MAX_TTS_CHUNK_BYTES_def)
  finally show ?thesis .
qed

subsection \<open>The pieces fit the wire\<close>

lemma tts_body_pieces:
  "length (tts_audio st) < MAX_TTS_CHUNK_BYTES \<Longrightarrow> Inr c \<in> set (fst (tts_body from_slice ex cancel i st chunks)) \<Longrightarrow>
   c \<noteq> [] \<and> length c \<le> MAX_TTS_CHUNK_BYTES \<and> even (length c)"
proof (induction chunks arbitrary: i st)
  case (Cons chunk chunks)
  from Cons.prems(2) obtain b st' where st': "chunk = Inr b" "tts_accept from_slice ex b st = Inr st'"
    by (auto split: if_splits sum.splits)
  obtain pieces rest where e: "emit_full (tts_audio st') = (pieces, rest)" by fastforce
  note facts = emit_full_pieces [OF e]
  from Cons.prems(2) st' e consider "c \<in> set pieces"
    | "Inr c \<in> set (fst (tts_body from_slice ex cancel (Suc i) (st'\<lparr>tts_audio := rest\<rparr>) chunks))"
    by (auto simp: case_prod_unfold split: if_splits)
  then show ?case
  proof cases
    case 1
    with facts have "length c = MAX_TTS_CHUNK_BYTES" by blast
    then show ?thesis by (auto simp: MAX_TTS_CHUNK_BYTES_def)
  next
    case 2
    have "length (tts_audio (st'\<lparr>tts_audio := rest\<rparr>)) < MAX_TTS_CHUNK_BYTES" using facts by simp
    from Cons.IH [OF this 2] show ?thesis .
  qed
qed (auto split: if_splits)

lemma tts_segments_item:
  assumes "x \<in> set (tts_segments from_slice uuid p req cancel k i (segment # segments))"
  obtains (token) "cancel i"
    | (request) e where "x = Inl e" "post_stream (gt_gateway p) ''tts'' (tts_request p (uuid k) req segment) (cancel (Suc i))
        ''application/vnd.calluwu.pcm16-stream'' = Inl e"
    | (body) r :: http_response where "x \<in> set (fst (tts_body from_slice (tts_expects (uuid k) req segment) cancel (i + 2) tts_init (resp_body r)))"
    | (later) j where "x \<in> set (tts_segments from_slice uuid p req cancel (Suc k) j segments)"
proof (cases "cancel i")
  case False
  let ?post = "post_stream (gt_gateway p) ''tts'' (tts_request p (uuid k) req segment) (cancel (Suc i))
      ''application/vnd.calluwu.pcm16-stream''"
  show ?thesis
  proof (cases ?post)
    case (Inl e)
    with False assms show ?thesis by (intro request) simp_all
  next
    case (Inr r)
    obtain items q where b: "tts_body from_slice (tts_expects (uuid k) req segment) cancel (i + 2) tts_init (resp_body r) = (items, q)"
      by fastforce
    with False Inr assms have "x \<in> set items \<or> (\<exists>j. x \<in> set (tts_segments from_slice uuid p req cancel (Suc k) j segments))"
      by (cases q) auto
    with b show ?thesis using body [of r] later by auto
  qed
qed (rule token)

lemma tts_segments_pieces:
  "Inr c \<in> set (tts_segments from_slice uuid p req cancel k i segments) \<Longrightarrow>
   c \<noteq> [] \<and> length c \<le> MAX_TTS_CHUNK_BYTES \<and> even (length c)"
proof (induction segments arbitrary: k i)
  case (Cons segment segments)
  have init: "length (tts_audio tts_init) < MAX_TTS_CHUNK_BYTES" by (simp add: tts_init_def MAX_TTS_CHUNK_BYTES_def)
  from Cons.prems show ?case
  proof (cases rule: tts_segments_item)
    case token
    with Cons.prems show ?thesis by simp
  next
    case (body r)
    then show ?thesis by (rule tts_body_pieces [OF init])
  qed (use Cons.IH in auto)
qed simp

text \<open>A token that is never cancelled never yields a cancellation.\<close>

lemma tts_accept_kind: "tts_accept from_slice ex b st = Inl e \<Longrightarrow> perr_kind e \<noteq> ProviderErrorKind.Cancelled"
  using tts_header_result(1) [of from_slice ex "undecoded st @ b" e]
  by (auto simp: tts_accept_def Let_def split: if_splits sum.splits option.splits)

lemma tts_body_kind:
  assumes "\<And>j. \<not> cancel j"
  shows "Inl e \<in> set (fst (tts_body from_slice ex cancel i st chunks)) \<Longrightarrow> perr_kind e \<noteq> ProviderErrorKind.Cancelled"
proof (induction chunks arbitrary: i st)
  case Nil
  then show ?case using assms [of i] by (auto split: if_splits)
next
  case (Cons chunk chunks)
  then show ?case using assms [of i]
    by (auto simp: case_prod_unfold dest: tts_accept_kind split: sum.splits)
qed

lemma gateway_synthesize_kind:
  assumes "\<And>j. \<not> cancel j"
  shows "Inl e \<in> set (tts_segments from_slice uuid p req cancel k i segments) \<Longrightarrow> perr_kind e \<noteq> ProviderErrorKind.Cancelled"
proof (induction segments arbitrary: k i)
  case (Cons segment segments)
  have "cancel (Suc i) = False" using assms by simp
  from Cons.prems show ?case
  proof (cases rule: tts_segments_item)
    case (request e')
    with \<open>cancel (Suc i) = False\<close> show ?thesis by (auto dest: post_stream_kind)
  next
    case (body r)
    then show ?thesis by (rule tts_body_kind [of cancel, OF assms])
  qed (use assms Cons.IH in auto)
qed simp

end
