(* ===== verification/Gateway.thy ===== *)
theory Gateway
  imports Pipeline GatewayReason GatewayTts
begin

text \<open>
  The rest of \<open>provider/gateway.rs\<close>: batch transcription, tool execution, the validation of a
  manifest's provider settings and the production resolver that assembles a session's providers.

  External beside what the imported theories take: the base64 encoder, the digest of the stable
  invocation identifier and the generated deserialisers (\<open>gateway_codecs\<close>).
\<close>

subsection \<open>Transcription and tools\<close>

record 'u GatewaySpeechToText =
  gs_gateway :: "'u GatewayClient"
  gs_reference :: ProviderReference
  gs_language :: string

text \<open>\<open>confidence\<close> and \<open>words\<close> of the reply are dropped.\<close>

record SttResponse =
  sr_invocation_id :: string
  sr_text :: string

definition stt_request :: "(byte list \<Rightarrow> string) \<Rightarrow> 'u GatewaySpeechToText \<Rightarrow> string \<Rightarrow> AudioInput \<Rightarrow> json" where
  "stt_request base64 p uuid input =
     JObject (gateway_base (gs_gateway p) uuid (gs_reference p) @
       [(''audioBase64'', JString (base64 (input_bytes input))),
        (''sampleRateHz'', JNumber (PosInt (input_sample_rate_hz input))),
        (''language'', JString (gs_language p))])"

definition gateway_transcribe ::
  "(byte list \<Rightarrow> string) \<Rightarrow> (byte list \<Rightarrow> SttResponse option) \<Rightarrow> string \<Rightarrow> 'u GatewaySpeechToText \<Rightarrow>
   AudioInput \<Rightarrow> cancellation \<Rightarrow> TranscriptSegment provider_stream" where
  "gateway_transcribe base64 from_slice uuid p input cancel =
     (case post (gs_gateway p) from_slice ''stt'' (stt_request base64 p uuid input) cancel of
        Inr r \<Rightarrow>
          if sr_invocation_id r = invocation_id_of uuid
          then [Inr \<lparr>segment_text = sr_text r, is_final = True\<rparr>] else [Inl (permanent ''stt'')]
      | Inl e \<Rightarrow> [Inl e])"

record ToolResponse =
  tr_value :: json

definition tool_request :: "'u GatewayClient \<Rightarrow> (string \<Rightarrow> string) \<Rightarrow> ToolInvocation \<Rightarrow> json" where
  "tool_request g sha256_base64 iv =
     JObject [(''runtimeGeneration'', JNumber (PosInt (runtime_generation (access_context (gw_access g))))),
       (''invocationId'', JString (stable_invocation_id sha256_base64 (inv_idempotency_key iv))),
       (''callId'', JString (inv_call_id iv)), (''toolName'', JString (inv_tool_name iv)), (''input'', inv_input iv),
       (''idempotencyKey'', JString (inv_idempotency_key iv))]"

definition gateway_tool_execute ::
  "'u GatewayClient \<Rightarrow> (string \<Rightarrow> string) \<Rightarrow> (byte list \<Rightarrow> ToolResponse option) \<Rightarrow> ToolInvocation \<Rightarrow> cancellation \<Rightarrow>
   ProviderError + json" where
  "gateway_tool_execute g sha256_base64 from_slice iv cancel =
     (case post g from_slice ''tools/execute'' (tool_request g sha256_base64 iv) cancel of
        Inl e \<Rightarrow> Inl e
      | Inr r \<Rightarrow> Inr (tr_value r))"

subsection \<open>Settings\<close>

definition reject_unknown_settings :: "ProviderReference \<Rightarrow> string list \<Rightarrow> unit result" where
  "reject_unknown_settings r allowed =
     (case find (\<lambda>key. key \<notin> set allowed) (map fst (ref_settings r)) of
        None \<Rightarrow> Inr ()
      | Some key \<Rightarrow> Inl (InvalidRequest (''unsupported '' @ ref_provider r @ '' setting '' @ key)))"

definition setting_ok :: "ProviderReference \<Rightarrow> string \<Rightarrow> (json \<Rightarrow> bool) \<Rightarrow> bool" where
  "setting_ok r key ok \<longleftrightarrow> (case map_of (ref_settings r) key of None \<Rightarrow> True | Some v \<Rightarrow> ok v)"

definition validate_stt_settings :: "ProviderReference \<Rightarrow> unit result" where
  "validate_stt_settings r =
     andR (reject_unknown_settings r [''detectLanguage'', ''keyterm'', ''mipOptOut''])
       (andR (each (\<lambda>key. require (setting_ok r key is_boolean)
           (InvalidRequest (''Cloudflare STT setting '' @ key @ '' must be boolean''))) [''detectLanguage'', ''mipOptOut''])
         (case map_of (ref_settings r) ''keyterm'' of
            None \<Rightarrow> Inr ()
          | Some v \<Rightarrow>
              (case as_str v of
                 None \<Rightarrow> Inl (InvalidRequest ''Cloudflare STT keyterm must be a string'')
               | Some s \<Rightarrow> require (s \<noteq> [] \<and> length s \<le> 2000)
                   (InvalidRequest ''Cloudflare STT keyterm must contain 1 to 2000 UTF-8 bytes''))))"

definition f64_in :: "rat \<Rightarrow> rat \<Rightarrow> json \<Rightarrow> bool" where
  "f64_in lo hi v \<longleftrightarrow> (case as_f64 v of None \<Rightarrow> False | Some x \<Rightarrow> f64_le (Finite lo) x \<and> f64_le x (Finite hi))"

text \<open>\<open>fract() == 0.0\<close>.\<close>

definition f64_is_integer :: "json \<Rightarrow> bool" where
  "f64_is_integer v \<longleftrightarrow> (case as_f64 v of Some (Finite q) \<Rightarrow> of_int \<lfloor>q\<rfloor> = q | _ \<Rightarrow> False)"

text \<open>The literal \<open>0.001\<close> is the binary64 value nearest to it.\<close>

definition f64_one_thousandth :: rat where
  "f64_one_thousandth = 1152921504606847 / 2 ^ 60"

definition validate_reasoning_settings :: "ProviderReference \<Rightarrow> unit result" where
  "validate_reasoning_settings r =
     andR (reject_unknown_settings r [''maxTokens'', ''temperature'', ''topP''])
       (checks
         [require (setting_ok r ''maxTokens'' (\<lambda>v. f64_is_integer v \<and> f64_in 1 4096 v))
            (InvalidRequest ''Cloudflare reasoning maxTokens must be an integer from 1 through 4096''),
          require (setting_ok r ''temperature'' (f64_in 0 5))
            (InvalidRequest ''Cloudflare reasoning temperature must be between 0 and 5''),
          require (setting_ok r ''topP'' (f64_in f64_one_thousandth 1))
            (InvalidRequest ''Cloudflare reasoning topP must be between 0.001 and 1'')])"

definition aura_2_en_speakers :: "string list" where
  "aura_2_en_speakers =
     [''amalthea'', ''andromeda'', ''apollo'', ''arcas'', ''aries'', ''asteria'', ''athena'', ''atlas'', ''aurora'',
      ''callista'', ''cora'', ''cordelia'', ''delia'', ''draco'', ''electra'', ''harmonia'', ''helena'', ''hera'',
      ''hermes'', ''hyperion'', ''iris'', ''janus'', ''juno'', ''jupiter'', ''luna'', ''mars'', ''minerva'', ''neptune'',
      ''odysseus'', ''ophelia'', ''orion'', ''orpheus'', ''pandora'', ''phoebe'', ''pluto'', ''saturn'', ''thalia'',
      ''theia'', ''vesta'', ''zeus'']"

definition aura_2_es_speakers :: "string list" where
  "aura_2_es_speakers =
     [''sirio'', ''nestor'', ''carina'', ''celeste'', ''alvaro'', ''diana'', ''aquila'', ''selena'', ''estrella'', ''javier'']"

definition validate_tts_settings :: "ProviderReference \<Rightarrow> string \<Rightarrow> unit result" where
  "validate_tts_settings r voice =
     andR (reject_unknown_settings r [''speaker''])
       (case (case map_of (ref_settings r) ''speaker'' of
            Some v \<Rightarrow> (case as_str v of
                None \<Rightarrow> Inl (InvalidRequest ''Cloudflare TTS speaker must be a string'') | Some s \<Rightarrow> Inr s)
          | None \<Rightarrow> Inr voice) of
          Inl e \<Rightarrow> Inl e
        | Inr speaker \<Rightarrow>
            require
              (if ref_model r = ''@cf/deepgram/aura-2-en'' then speaker \<in> set aura_2_en_speakers
               else if ref_model r = ''@cf/deepgram/aura-2-es'' then speaker \<in> set aura_2_es_speakers
               else False)
              (InvalidRequest ''voice.id or TTS speaker is not supported by the selected Aura-2 model''))"

definition nova_3_languages :: "string list" where
  "nova_3_languages =
     [''en'', ''en-US'', ''en-AU'', ''en-GB'', ''en-IN'', ''en-NZ'', ''es'', ''es-419'', ''fr'', ''fr-CA'', ''de'', ''de-CH'',
      ''hi'', ''ru'', ''pt'', ''pt-BR'', ''pt-PT'', ''ja'', ''it'', ''nl'', ''multi'']"

definition validate_cloudflare_references :: "AgentManifest \<Rightarrow> unit result" where
  "validate_cloudflare_references m =
     (let d = agent_definition m; stt = speech_to_text (agent_providers d);
          reason = reasoning (agent_providers d); tts = text_to_speech (agent_providers d) in
      checks
        [require (ref_provider stt = ''cloudflare'' \<and> ref_model stt = ''@cf/deepgram/nova-3'')
           (InvalidRequest ''speechToText must use cloudflare/@cf/deepgram/nova-3''),
         require (ref_provider reason = ''cloudflare'' \<and> ref_model reason = ''@cf/openai/gpt-oss-20b'')
           (InvalidRequest ''reasoning must use cloudflare/@cf/openai/gpt-oss-20b''),
         require (ref_provider tts = ''cloudflare'' \<and>
             ref_model tts \<in> {''@cf/deepgram/aura-2-en'', ''@cf/deepgram/aura-2-es''})
           (InvalidRequest ''textToSpeech must use a supported Cloudflare Aura 2 model''),
         validate_stt_settings stt, validate_reasoning_settings reason,
         validate_tts_settings tts (voice_id (agent_voice d)),
         require (voice_language (agent_voice d) \<in> set nova_3_languages)
           (InvalidRequest ''voice.language is not supported by Cloudflare Nova-3''),
         require (voice_sample_rate_hz (agent_voice d) \<in> {8000, 16000, 24000, 32000, 48000})
           (InvalidRequest ''Cloudflare linear16 audio requires 8000, 16000, 24000, 32000, or 48000 Hz'')])"

subsection \<open>The resolver\<close>

text \<open>
  \<open>uuids\<close> are the identifiers the providers draw while they serve one call. \<open>None\<close>: the
  coordinator's assertion fails.
\<close>

record gateway_codecs =
  gc_base64 :: "byte list \<Rightarrow> string"
  gc_from_str :: "string \<Rightarrow> json option"
  gc_print :: "json \<Rightarrow> string"
  gc_stt :: "byte list \<Rightarrow> SttResponse option"
  gc_reason :: reason_codec
  gc_tts :: "byte list \<Rightarrow> TtsStreamHeader option"
  gc_uuids :: "nat \<Rightarrow> string"

definition gateway_providers :: "gateway_codecs \<Rightarrow> 'u GatewayClient \<Rightarrow> AgentManifest \<Rightarrow> ToolCoordinator \<Rightarrow> ProviderSet" where
  "gateway_providers C g m c =
     (let d = agent_definition m; ps = agent_providers d in
      \<lparr>ps_speech_to_text =
         \<lparr>stt_capabilities = [BatchStt],
          stt_transcribe = gateway_transcribe (gc_base64 C) (gc_stt C) (gc_uuids C 0)
            \<lparr>gs_gateway = g, gs_reference = speech_to_text ps, gs_language = voice_language (agent_voice d)\<rparr>\<rparr>,
       ps_reasoner =
         \<lparr>reasoner_capabilities = [StreamingReasoning],
          reasoner_reason = gateway_reason (gc_from_str C) (gc_reason C) (gc_uuids C 0)
            \<lparr>gr_gateway = g, gr_reference = reasoning ps, gr_tools = agent_tools d\<rparr>\<rparr>,
       ps_text_to_speech =
         \<lparr>tts_capabilities = [StreamingTts],
          tts_synthesize = gateway_synthesize (gc_tts C) (gc_uuids C)
            \<lparr>gt_gateway = g, gt_reference = text_to_speech ps\<rparr>\<rparr>,
       ps_tools = c, ps_realtime_speech = None, tool_execution_enabled = (agent_tools d \<noteq> [])\<rparr>)"

definition gateway_resolve ::
  "gateway_codecs \<Rightarrow> 'u url_lib \<Rightarrow> 'u http_lib \<Rightarrow> AgentManifest \<Rightarrow> 'u RuntimeServiceAccess option \<Rightarrow>
   ProviderSet result option" where
  "gateway_resolve C U H m access =
     (let d = agent_definition m; ps = agent_providers d; n = max_concurrent_tools (agent_limits d) in
      if list_all scripted_reference [speech_to_text ps, reasoning ps, text_to_speech ps]
      then if agent_tools d \<noteq> []
        then Some (Inl (InvalidRequest ''scripted cloud deployments cannot execute tools''))
        else (case scripted_with_tool_concurrency (gc_print C) (gc_from_str C) [] n of
            None \<Rightarrow> None
          | Some p \<Rightarrow> Some (andR (ensure_capabilities p (required_capabilities m)) (Inr p)))
      else case validate_cloudflare_references m of
        Inl e \<Rightarrow> Some (Inl e)
      | Inr _ \<Rightarrow>
          (case access of
             None \<Rightarrow> Some (Inl (InvalidRequest ''provider gateway access is required''))
           | Some a \<Rightarrow>
               (case gateway_client_new U H a of
                  Inl e \<Rightarrow> Some (Inl e)
                | Inr g \<Rightarrow>
                    (case with_concurrency (agent_tools d) n of
                       None \<Rightarrow> None
                     | Some c \<Rightarrow>
                         let p = gateway_providers C g m c in
                         Some (andR (ensure_capabilities p (required_capabilities m)) (Inr p))))))"

subsection \<open>What resolution gives\<close>

abbreviation references_of :: "AgentManifest \<Rightarrow> ProviderReference list" where
  "references_of m \<equiv> [speech_to_text (agent_providers (agent_definition m)), reasoning (agent_providers (agent_definition m)),
     text_to_speech (agent_providers (agent_definition m))]"

lemma scripted_set:
  assumes "0 < n" "n \<le> MAX_PERMITS"
  obtains p where "scripted_with_tool_concurrency print from_str [] n = Some p"
    "capabilities p = [BatchStt, StreamingReasoning, StreamingTts, RealtimeSpeech]" "permits (ps_tools p) = n"
    "tool_execution_enabled p = False" "ps_reasoner p = \<lparr>reasoner_capabilities = [StreamingReasoning], reasoner_reason = scripted_reason print from_str\<rparr>"
    "ps_text_to_speech p = \<lparr>tts_capabilities = [StreamingTts], tts_synthesize = scripted_synthesize\<rparr>"
  using assms that
  by (auto simp: scripted_with_tool_concurrency_def with_concurrency_def capabilities_def Let_def
      btree_set_extend_def insort_insert_key_def less_eq_ProviderCapability_def)

lemma gateway_providers_sel:
  "reasoner_reason (ps_reasoner (gateway_providers C g m c)) = gateway_reason (gc_from_str C) (gc_reason C) (gc_uuids C 0)
     \<lparr>gr_gateway = g, gr_reference = reasoning (agent_providers (agent_definition m)), gr_tools = agent_tools (agent_definition m)\<rparr>"
  "tts_synthesize (ps_text_to_speech (gateway_providers C g m c)) = gateway_synthesize (gc_tts C) (gc_uuids C)
     \<lparr>gt_gateway = g, gt_reference = text_to_speech (agent_providers (agent_definition m))\<rparr>"
  "ps_tools (gateway_providers C g m c) = c"
  by (simp_all add: gateway_providers_def Let_def)

lemma gateway_capabilities:
  "capabilities (gateway_providers C g m c) =
     [BatchStt, StreamingReasoning, StreamingTts] @ (if agent_tools (agent_definition m) \<noteq> [] then [ToolExecution] else [])"
  by (simp add: capabilities_def gateway_providers_def Let_def btree_set_extend_def insort_insert_key_def
      less_eq_ProviderCapability_def)

text \<open>A valid manifest asks for the tool capability exactly when it has tools.\<close>

lemma gateway_offers:
  assumes "manifest_validate ser url_scheme m = Inr ()"
  shows "ensure_capabilities (gateway_providers C g m c) (required_capabilities m) = Inr () \<longleftrightarrow>
    ''streaming-stt'' \<notin> set (required_capabilities m) \<and> ''realtime-speech'' \<notin> set (required_capabilities m)"
proof -
  have req: "set (required_capabilities m) \<subseteq> set allowed_capabilities"
    "''tool-execution'' \<in> set (required_capabilities m) \<longleftrightarrow> agent_tools (agent_definition m) \<noteq> []"
    using manifest_ok [OF assms] by auto
  have "c' \<in> capability_as_str ` set (capabilities (gateway_providers C g m c)) \<longleftrightarrow> c' \<noteq> ''streaming-stt'' \<and> c' \<noteq> ''realtime-speech''"
    if "c' \<in> set (required_capabilities m)" for c'
  proof -
    have "c' \<in> set allowed_capabilities" "c' = ''tool-execution'' \<longrightarrow> agent_tools (agent_definition m) \<noteq> []" using that req by blast+
    then show ?thesis by (simp add: gateway_capabilities allowed_capabilities_def) (elim disjE; auto)
  qed
  then show ?thesis unfolding ensure_capabilities_ok by blast
qed

lemma gateway_resolve_cloud:
  assumes "\<not> list_all scripted_reference (references_of m)"
    and "with_concurrency (agent_tools (agent_definition m)) (max_concurrent_tools (agent_limits (agent_definition m))) = Some c"
  shows "gateway_resolve C U H m access =
      (case validate_cloudflare_references m of Inl e \<Rightarrow> Some (Inl e)
       | Inr _ \<Rightarrow> (case access of None \<Rightarrow> Some (Inl (InvalidRequest ''provider gateway access is required''))
         | Some a \<Rightarrow> (case gateway_client_new U H a of Inl e \<Rightarrow> Some (Inl e)
           | Inr g \<Rightarrow> Some (andR (ensure_capabilities (gateway_providers C g m c) (required_capabilities m))
               (Inr (gateway_providers C g m c))))))"
  unfolding gateway_resolve_def Let_def if_not_P [OF assms(1)] assms(2) option.case by (rule refl)

lemma gateway_resolve_cases:
  fixes U :: "'u url_lib"
  assumes ok: "manifest_validate ser url_scheme m = Inr ()" and r: "gateway_resolve C U H m access = Some (Inr p)"
  obtains (scripted) "list_all scripted_reference (references_of m)" "agent_tools (agent_definition m) = []"
      "capabilities p = [BatchStt, StreamingReasoning, StreamingTts, RealtimeSpeech]" "tool_execution_enabled p = False"
      "reasoner_reason (ps_reasoner p) = scripted_reason (gc_print C) (gc_from_str C)"
      "tts_synthesize (ps_text_to_speech p) = scripted_synthesize"
      "permits (ps_tools p) = max_concurrent_tools (agent_limits (agent_definition m))"
      "set (required_capabilities m) \<subseteq> capability_as_str ` set (capabilities p)"
    | (gateway) g :: "'u GatewayClient" and c where "\<not> list_all scripted_reference (references_of m)" "p = gateway_providers C g m c" "access \<noteq> None"
      "permits c = max_concurrent_tools (agent_limits (agent_definition m))"
      "set (required_capabilities m) \<subseteq> capability_as_str ` set (capabilities p)"
proof (cases "list_all scripted_reference (references_of m)")
  case True
  have "0 < max_concurrent_tools (agent_limits (agent_definition m))"
    "max_concurrent_tools (agent_limits (agent_definition m)) \<le> MAX_PERMITS"
    using manifest_ok [OF ok] by (simp_all add: limits_ok_def MAX_PERMITS_def u64_max_def)
  then obtain q where q: "scripted_with_tool_concurrency (gc_print C) (gc_from_str C) []
      (max_concurrent_tools (agent_limits (agent_definition m))) = Some q"
    "capabilities q = [BatchStt, StreamingReasoning, StreamingTts, RealtimeSpeech]"
    "permits (ps_tools q) = max_concurrent_tools (agent_limits (agent_definition m))" "tool_execution_enabled q = False"
    "ps_reasoner q = \<lparr>reasoner_capabilities = [StreamingReasoning], reasoner_reason = scripted_reason (gc_print C) (gc_from_str C)\<rparr>"
    "ps_text_to_speech q = \<lparr>tts_capabilities = [StreamingTts], tts_synthesize = scripted_synthesize\<rparr>"
    by (rule scripted_set)
  have "agent_tools (agent_definition m) = []" "q = p" "ensure_capabilities p (required_capabilities m) = Inr ()"
    using True r q(1) by (auto simp: gateway_resolve_def Let_def split: if_splits)
  with True q show ?thesis by (intro scripted) (simp_all add: ensure_capabilities_ok)
next
  case False
  let ?n = "max_concurrent_tools (agent_limits (agent_definition m))"
  have "0 < ?n" "?n \<le> MAX_PERMITS" using manifest_ok [OF ok] by (simp_all add: limits_ok_def MAX_PERMITS_def u64_max_def)
  then obtain c where c: "with_concurrency (agent_tools (agent_definition m)) ?n = Some c" "permits c = ?n"
    by (simp add: with_concurrency_def)
  obtain g :: "'u GatewayClient" where "p = gateway_providers C g m c" "access \<noteq> None" "ensure_capabilities p (required_capabilities m) = Inr ()"
    using r unfolding gateway_resolve_cloud [OF False c(1)] by (auto split: sum.splits option.splits)
  with False c(2) show ?thesis by (intro gateway) (simp_all add: ensure_capabilities_ok)
qed

text \<open>
  C33 (functional). Resolution of a valid manifest with cloud providers, with tools of any kind
  including local ones, never panics; it succeeds exactly when the provider settings are valid,
  access to the gateway is given, the client starts and neither streaming-stt nor realtime-
  speech is required, and then offers exactly the batch capabilities, tool execution exactly
  with tools, and the manifest concurrency.
\<close>

theorem provider_resolution:
  assumes "manifest_validate ser url_scheme m = Inr ()" and "\<not> list_all scripted_reference (references_of m)"
  shows "gateway_resolve C U H m access \<noteq> None \<and>
    ((\<exists>p. gateway_resolve C U H m access = Some (Inr p)) \<longleftrightarrow>
       validate_cloudflare_references m = Inr () \<and>
       (\<exists>a. access = Some a \<and> http_build H (url_scheme_of U (base_url a) = ''https'') \<noteq> None) \<and>
       ''streaming-stt'' \<notin> set (required_capabilities m) \<and> ''realtime-speech'' \<notin> set (required_capabilities m)) \<and>
    (\<forall>p. gateway_resolve C U H m access = Some (Inr p) \<longrightarrow>
       capabilities p = [BatchStt, StreamingReasoning, StreamingTts] @
         (if agent_tools (agent_definition m) \<noteq> [] then [ToolExecution] else []) \<and>
       permits (ps_tools p) = max_concurrent_tools (agent_limits (agent_definition m)))"
proof -
  let ?n = "max_concurrent_tools (agent_limits (agent_definition m))"
  have n: "0 < ?n" "?n \<le> MAX_PERMITS" using manifest_ok [OF assms(1)] by (simp_all add: limits_ok_def MAX_PERMITS_def u64_max_def)
  obtain c where c: "with_concurrency (agent_tools (agent_definition m)) ?n = Some c" using n by (simp add: with_concurrency_def)
  note r = gateway_resolve_cloud [OF assms(2) c, of C U H access]
  have "capabilities p = [BatchStt, StreamingReasoning, StreamingTts] @
         (if agent_tools (agent_definition m) \<noteq> [] then [ToolExecution] else []) \<and> permits (ps_tools p) = ?n"
    if "gateway_resolve C U H m access = Some (Inr p)" for p
    using assms(1) that
  proof (cases rule: gateway_resolve_cases)
    case (gateway g c)
    then show ?thesis by (simp add: gateway_capabilities gateway_providers_sel)
  qed (use assms(2) in auto)
  moreover have "gateway_resolve C U H m access \<noteq> None" unfolding r by (auto split: sum.split option.split)
  moreover have "(\<exists>p. gateway_resolve C U H m access = Some (Inr p)) \<longleftrightarrow>
      validate_cloudflare_references m = Inr () \<and> (\<exists>a. access = Some a \<and> http_build H (url_scheme_of U (base_url a) = ''https'') \<noteq> None) \<and>
      ''streaming-stt'' \<notin> set (required_capabilities m) \<and> ''realtime-speech'' \<notin> set (required_capabilities m)"
    unfolding r by (auto simp: gateway_client_new_def gateway_offers [OF assms(1)] split: sum.split option.split)
  ultimately show ?thesis by blast
qed

abbreviation cloud_reference :: "string \<Rightarrow> ProviderReference" where
  "cloud_reference m \<equiv> \<lparr>ref_provider = ''cloudflare'', ref_model = m, ref_settings = []\<rparr>"

abbreviation demo_cloud_manifest :: AgentManifest where
  "demo_cloud_manifest \<equiv> demo_manifest\<lparr>agent_definition := (agent_definition demo_manifest)
     \<lparr>agent_providers := \<lparr>speech_to_text = cloud_reference ''@cf/deepgram/nova-3'',
        reasoning = cloud_reference ''@cf/openai/gpt-oss-20b'', text_to_speech = cloud_reference ''@cf/deepgram/aura-2-en''\<rparr>,
      agent_voice := \<lparr>voice_id = ''luna'', voice_language = ''en-US'', voice_sample_rate_hz = 16000\<rparr>\<rparr>\<rparr>"

lemma demo_cloud_valid: "manifest_validate demo_ser (\<lambda>_. None) demo_cloud_manifest = Inr ()"
  using demo_manifest_valid
  by (simp add: manifest_validate_def Let_def reference_ok_def is_slug_def ident_eval split: if_splits)

lemma demo_cloud_references: "validate_cloudflare_references demo_cloud_manifest = Inr ()"
  by (simp add: validate_cloudflare_references_def Let_def validate_stt_settings_def validate_reasoning_settings_def
      validate_tts_settings_def reject_unknown_settings_def setting_ok_def aura_2_en_speakers_def nova_3_languages_def
      check_eval)

abbreviation demo_urls :: "string url_lib" where
  "demo_urls \<equiv> \<lparr>url_parse = Some, url_scheme_of = (\<lambda>_. ''https''), url_host_str = (\<lambda>_. Some ''h''), url_set_path = (\<lambda>u _. u),
     url_set_query = (\<lambda>u _. u), url_set_fragment = (\<lambda>u _. u), url_join = (\<lambda>u p. Some (u @ p))\<rparr>"

abbreviation demo_http :: "string http_lib" where
  "demo_http \<equiv> \<lparr>http_build = (\<lambda>_. Some (\<lambda>_. None))\<rparr>"

abbreviation demo_codecs :: gateway_codecs where
  "demo_codecs \<equiv> \<lparr>gc_base64 = (\<lambda>_. []), gc_from_str = (\<lambda>_. None), gc_print = (\<lambda>_. []), gc_stt = (\<lambda>_. None),
     gc_reason = demo_codec, gc_tts = demo_tts_from_slice, gc_uuids = string_of_nat\<rparr>"

abbreviation demo_access :: "string RuntimeServiceAccess" where
  "demo_access \<equiv> \<lparr>base_url = ''https://h/'', credential = replicate 32 (CHR ''a''),
     access_context = \<lparr>organization_id = ''org_01JABCDEF'', project_id = ''prj_01JABCDEF'', deployment_id = ''dep_01JABCDEF'',
       session_id = ''ses_01JABCDEF'', runtime_generation = 1, correlation_id = ''correlation''\<rparr>\<rparr>"

theorem provider_resolution_witness:
  "\<exists>p. gateway_resolve demo_codecs demo_urls demo_http demo_cloud_manifest (Some demo_access) = Some (Inr p) \<and>
     capabilities p = [BatchStt, StreamingReasoning, StreamingTts, ToolExecution]"
proof -
  have "\<not> list_all scripted_reference (references_of demo_cloud_manifest)" by (simp add: scripted_reference_def)
  from provider_resolution [OF demo_cloud_valid this, of demo_codecs demo_urls demo_http "Some demo_access"]
  show ?thesis using demo_cloud_references by auto
qed

text \<open>
  C34 (type). Every chunk the synthesizer of a resolved deployment yields, scripted or over the
  gateway, is a valid PCM payload: under a valid header it passes the validation of the audio
  frame.
\<close>

theorem resolved_audio_is_framable:
  assumes "manifest_validate ser url_scheme m = Inr ()" and "gateway_resolve C U H m access = Some (Inr p)"
    and "Inr chunk \<in> set (tts_synthesize (ps_text_to_speech p) req cancel)"
    and "8000 \<le> synthesis_sample_rate_hz req" "synthesis_sample_rate_hz req \<le> 48000"
    and hdr: "message_type h = ''audio.chunk''" "hdr_channels h = 1" "hdr_sample_rate_hz h = synthesis_sample_rate_hz req"
      "hdr_response_id h \<noteq> []" "length (hdr_response_id h) \<le> 160"
    and env: "envelope_validate (hdr_envelope h) (env_session_id (hdr_envelope h)) (env_runtime_generation (hdr_envelope h)) = Inr ()"
  shows "frame_validate \<lparr>frame_header = h, frame_audio = chunk\<rparr> = Inr ()"
  using assms(1,2)
proof (cases rule: gateway_resolve_cases)
  case scripted
  then have "Inr chunk \<in> set (scripted_synthesize req cancel)" using assms(3) by simp
  then show ?thesis by (rule scripted_audio_is_framable [OF _ assms(4,5) hdr env])
next
  case (gateway g c)
  then have "chunk \<noteq> [] \<and> length chunk \<le> MAX_TTS_CHUNK_BYTES \<and> even (length chunk)"
    using assms(3) by (intro tts_segments_pieces) (simp add: gateway_providers_sel gateway_synthesize_def)
  then show ?thesis
    using hdr env assms(4,5) by (auto simp: frame_validate_def Let_def MAX_AUDIO_PAYLOAD_BYTES_def MAX_TTS_CHUNK_BYTES_def)
qed

text \<open>A gateway that answers every synthesis request with two samples.\<close>

abbreviation demo_tts_reply :: http_response where
  "demo_tts_reply \<equiv> \<lparr>resp_status = 200, resp_content_length = None,
     resp_content_type = Some ''application/vnd.calluwu.pcm16-stream'',
     resp_body = [Inr [67, 87, 84, 49, 0, 0, 0, 2, 123, 125], Inr [1, 2, 3, 4]]\<rparr>"

abbreviation demo_tts_codecs :: gateway_codecs where
  "demo_tts_codecs \<equiv> demo_codecs\<lparr>gc_uuids := (\<lambda>_. ''7'')\<rparr>"

abbreviation demo_tts_http :: "string http_lib" where
  "demo_tts_http \<equiv> \<lparr>http_build = (\<lambda>_. Some (\<lambda>_. Some demo_tts_reply))\<rparr>"

abbreviation demo_speech :: SynthesisRequest where
  "demo_speech \<equiv> \<lparr>synthesis_text = ''hi'', synthesis_voice_id = ''luna'', synthesis_sample_rate_hz = 16000\<rparr>"

lemma demo_split: "split_tts_text ''hi'' = [''hi'']" "chars_count ''hi'' = 2"
  by (simp_all add: split_tts_text_def split_tts_chars.simps trim_chars_def trim_start_chars_def is_continuation_def
      char_is_whitespace_def MAX_TTS_TEXT_CHARACTERS_def chars_count_def)

lemma demo_audio:
  assumes "gw_client g = (\<lambda>_. Some demo_tts_reply)" and "gw_urls g = demo_urls"
  shows "tts_synthesize (ps_text_to_speech (gateway_providers demo_tts_codecs g m c)) demo_speech (\<lambda>_. False) = [Inr [1, 2, 3, 4]]"
proof -
  have type: "media_type demo_tts_reply = Some ''application/vnd.calluwu.pcm16-stream''"
    by (simp add: media_type_def) code_simp
  have "post_stream g ''tts'' body False ''application/vnd.calluwu.pcm16-stream'' = Inr demo_tts_reply" for body
    using assms type by (simp add: post_stream_def send_request_def Let_def is_success_def)
  then show ?thesis
    by (simp add: gateway_providers_sel gateway_synthesize_def demo_split tts_expects_def invocation_id_of_def
        tts_init_def tts_accept_def tts_header_def TTS_STREAM_MAGIC_def tts_header_matches_def saturating_add_def u64_max_def
        MAX_GATEWAY_RESPONSE_BYTES_def MAX_TTS_CHUNK_BYTES_def)
qed

abbreviation demo_gateway :: "string GatewayClient" where
  "demo_gateway \<equiv> \<lparr>gw_urls = demo_urls, gw_client = \<lambda>_. Some demo_tts_reply, gw_access = demo_access\<rparr>"

lemma demo_resolved:
  obtains c where "gateway_resolve demo_tts_codecs demo_urls demo_tts_http demo_cloud_manifest (Some demo_access) =
    Some (Inr (gateway_providers demo_tts_codecs demo_gateway demo_cloud_manifest c))"
proof -
  obtain c where c: "with_concurrency (agent_tools (agent_definition demo_cloud_manifest))
      (max_concurrent_tools (agent_limits (agent_definition demo_cloud_manifest))) = Some c"
    by (simp add: with_concurrency_def default_limits_def MAX_PERMITS_def u64_max_def)
  have "\<not> list_all scripted_reference (references_of demo_cloud_manifest)" by (simp add: scripted_reference_def)
  from gateway_resolve_cloud [OF this c, of demo_tts_codecs demo_urls demo_tts_http "Some demo_access"] show ?thesis
    using that [of c] demo_cloud_references gateway_offers [OF demo_cloud_valid, of demo_tts_codecs demo_gateway c]
    by (simp add: gateway_client_new_def andR_def)
qed

theorem resolved_audio_is_framable_witness:
  "\<exists>p. gateway_resolve demo_tts_codecs demo_urls demo_tts_http demo_cloud_manifest (Some demo_access) = Some (Inr p) \<and>
     Inr [1, 2, 3, 4] \<in> set (tts_synthesize (ps_text_to_speech p) demo_speech (\<lambda>_. False)) \<and>
     frame_validate \<lparr>frame_header = demo_header, frame_audio = [1, 2, 3, 4]\<rparr> = Inr ()"
proof -
  obtain c where r: "gateway_resolve demo_tts_codecs demo_urls demo_tts_http demo_cloud_manifest (Some demo_access) =
      Some (Inr (gateway_providers demo_tts_codecs demo_gateway demo_cloud_manifest c))" (is "_ = Some (Inr ?p)")
    by (rule demo_resolved)
  have a: "Inr [1, 2, 3, 4] \<in> set (tts_synthesize (ps_text_to_speech ?p) demo_speech (\<lambda>_. False))"
    by (subst demo_audio) simp_all
  show ?thesis
    using r a resolved_audio_is_framable [OF demo_cloud_valid r a, of demo_header]
    by (auto simp: envelope_validate_def envelope_server_def PROTOCOL_VERSION_def ident_eval)
qed

subsection \<open>A response over the resolved providers\<close>

text \<open>\<open>timed n s\<close>: the stream as a response task sees it when the deadline of an item, if any, passes after \<open>n\<close> items.\<close>

definition timed :: "nat option \<Rightarrow> 'a provider_stream \<Rightarrow> 'a stream_next list" where
  "timed d s = (case d of None \<Rightarrow> map Item s | Some n \<Rightarrow> map Item (take n s) @ [Elapsed])"

lemma no_cancel_timed:
  "(\<And>e. Inl e \<in> set s \<Longrightarrow> perr_kind e \<noteq> ProviderErrorKind.Cancelled) \<Longrightarrow> no_cancel (timed d s)"
  by (auto simp: timed_def no_cancel_def dest: in_set_takeD split: option.split)

lemma resolved_streams_kind:
  assumes "manifest_validate ser url_scheme m = Inr ()" and "gateway_resolve C U H m access = Some (Inr p)" and "\<And>j. \<not> cancel j"
  shows "Inl e \<in> set (reasoner_reason (ps_reasoner p) req cancel) \<Longrightarrow> perr_kind e \<noteq> ProviderErrorKind.Cancelled"
    and "Inl e \<in> set (tts_synthesize (ps_text_to_speech p) sreq cancel) \<Longrightarrow> perr_kind e \<noteq> ProviderErrorKind.Cancelled"
proof -
  have "(Inl e \<in> set (reasoner_reason (ps_reasoner p) req cancel) \<longrightarrow> perr_kind e \<noteq> ProviderErrorKind.Cancelled) \<and>
      (Inl e \<in> set (tts_synthesize (ps_text_to_speech p) sreq cancel) \<longrightarrow> perr_kind e \<noteq> ProviderErrorKind.Cancelled)"
    using assms(1,2)
  proof (cases rule: gateway_resolve_cases)
    case scripted
    then show ?thesis
      by (auto simp: scripted_reason_def scripted_synthesize_def Let_def yield_all_not_cancelled [OF assms(3)] split: option.splits)
  next
    case (gateway g c)
    show ?thesis
      unfolding gateway(2) gateway_providers_sel gateway_synthesize_def
      using gateway_reason_kind [of cancel, OF assms(3)] gateway_synthesize_kind [of cancel, OF assms(3)] by blast
  qed
  then show "Inl e \<in> set (reasoner_reason (ps_reasoner p) req cancel) \<Longrightarrow> perr_kind e \<noteq> ProviderErrorKind.Cancelled"
    and "Inl e \<in> set (tts_synthesize (ps_text_to_speech p) sreq cancel) \<Longrightarrow> perr_kind e \<noteq> ProviderErrorKind.Cancelled" by auto
qed

text \<open>
  C35 (liveness). A response over the providers of any resolved deployment that is not cancelled
  always ends by telling its actor so, with Completed or Failed, whatever the gateway answers
  and whichever deadlines pass.
\<close>

theorem resolved_response_always_ends:
  fixes l ser executor req voice rate sid rid d1 d2
  assumes "manifest_validate ser url_scheme m = Inr ()" and "gateway_resolve C U H m access = Some (Inr p)" and "\<And>j. \<not> cancel j"
  defines "evs \<equiv> response_pipeline l (\<lambda>r. timed (d1 r) (reasoner_reason (ps_reasoner p) r cancel))
      (\<lambda>r. timed (d2 r) (tts_synthesize (ps_text_to_speech p) r cancel)) ser executor (ps_tools p) req voice rate sid rid"
  shows "evs \<noteq> [] \<and> (last evs = Completed \<or> (\<exists>e. last evs = Failed e))"
proof -
  have "0 < max_concurrent_tools (agent_limits (agent_definition m))" using manifest_ok [OF assms(1)] by (simp add: limits_ok_def)
  moreover have "permits (ps_tools p) = max_concurrent_tools (agent_limits (agent_definition m))"
    by (rule gateway_resolve_cases [OF assms(1,2)]) (simp_all add: gateway_providers_sel)
  ultimately have "0 < permits (ps_tools p)" by simp
  then have "closes evs"
    unfolding evs_def
    by (intro response_pipeline_closes no_cancel_timed resolved_streams_kind [OF assms(1,2), of cancel] assms(3))
  then show ?thesis by (simp add: closes_def)
qed

theorem resolved_response_always_ends_witness:
  "\<exists>p evs. gateway_resolve demo_tts_codecs demo_urls demo_tts_http demo_cloud_manifest (Some demo_access) = Some (Inr p) \<and>
     evs = response_pipeline demo_limits (\<lambda>r. timed None (reasoner_reason (ps_reasoner p) r (\<lambda>_. False)))
       (\<lambda>r. timed (Some 1) (tts_synthesize (ps_text_to_speech p) r (\<lambda>_. False))) demo_ser
       (\<lambda>_. ExecReturned (Inr (JBool True))) (ps_tools p) \<lparr>instructions = [], messages = []\<rparr> ''luna'' 16000 ''s'' ''r'' \<and>
     evs \<noteq> []"
proof -
  obtain c where r: "gateway_resolve demo_tts_codecs demo_urls demo_tts_http demo_cloud_manifest (Some demo_access) =
      Some (Inr (gateway_providers demo_tts_codecs demo_gateway demo_cloud_manifest c))"
    by (rule demo_resolved)
  have "\<not> (\<lambda>_. False) j" for j :: nat by simp
  note ends = resolved_response_always_ends [OF demo_cloud_valid r this, of demo_limits "\<lambda>_. None" "\<lambda>_. Some 1"]
  show ?thesis by (intro exI conjI, rule r, rule refl, rule conjunct1 [OF ends])
qed

end
