(* ===== verification/Completion.thy ===== *)
theory Completion
  imports Session
begin

text \<open>
  How the end of an actor reaches the holders of its handle (\<open>session.rs\<close>): the completion guard,
  which reports on every way out of the task, also a panic or an abort, and the wait on the
  watch channel it owns.
\<close>

record CompletionGuard =
  cg_flag :: bool
  cg_finished :: bool
  cg_terminal_outcome :: SessionTerminalOutcome
  cg_outcome_set :: bool

definition guard_new :: CompletionGuard where
  "guard_new = \<lparr>cg_flag = False, cg_finished = False, cg_terminal_outcome = Pending, cg_outcome_set = False\<rparr>"

definition guard_finish :: "SessionTerminalOutcome \<Rightarrow> CompletionGuard \<Rightarrow> CompletionGuard" where
  "guard_finish outcome g = g\<lparr>cg_terminal_outcome := outcome, cg_outcome_set := True\<rparr>"

definition guard_drop :: "CompletionGuard \<Rightarrow> CompletionGuard" where
  "guard_drop g =
     (let g = (if \<not> cg_outcome_set g then g\<lparr>cg_terminal_outcome := OutcomeFailed\<rparr> else g) in
      g\<lparr>cg_flag := True, cg_finished := True\<rparr>)"

text \<open>The states of the guard over the life of a task: \<open>None\<close> is a task that panics or is aborted.\<close>

definition guard_states :: "unit result option \<Rightarrow> CompletionGuard list" where
  "guard_states r =
     (case r of
        None \<Rightarrow> [guard_new, guard_drop guard_new]
      | Some res \<Rightarrow>
          let g = guard_finish (if isl res then OutcomeFailed else Flushed) guard_new in [guard_new, g, guard_drop g])"

text \<open>
  The wait, on the values the channel still shows, from the current one on; the end of the list is
  the sender dropped.
\<close>

fun wait_terminal_outcome :: "SessionTerminalOutcome \<Rightarrow> SessionTerminalOutcome list \<Rightarrow> SessionTerminalOutcome" where
  "wait_terminal_outcome current later =
     (if current \<noteq> Pending then current
      else case later of [] \<Rightarrow> OutcomeFailed | v # vs \<Rightarrow> wait_terminal_outcome v vs)"

declare wait_terminal_outcome.simps [simp del]

text \<open>
  Whoever waits, from whenever on, learns how the task ended and never waits for good; a task that
  panics or is aborted counts as failed, and every guard ends finished.
\<close>

lemma waiting_learns_outcome:
  assumes "guard_states r = before @ g # later"
  shows "wait_terminal_outcome (cg_terminal_outcome g) (map cg_terminal_outcome later) =
      (case r of Some (Inr _) \<Rightarrow> Flushed | _ \<Rightarrow> OutcomeFailed)"
    and "cg_finished (last (guard_states r))" "cg_flag (last (guard_states r))"
  using assms
  by (auto simp: guard_states_def guard_new_def guard_finish_def guard_drop_def Let_def Cons_eq_append_conv
      wait_terminal_outcome.simps split: option.splits sum.splits)

end
