(* ===== verification/Server.thy ===== *)
theory Server
  imports ShardGuarantees Gateway
begin

text \<open>
  The internal HTTP and WebSocket surface of a shard (\<open>server.rs\<close>): the handlers as functions from
  the shard to a reply and the shard they leave, the fingerprints that bind a preparation to its
  tenant and to its ingest capability, and the loop that joins a session to its transport.

  External: the hash function (\<open>sha\<close>), the serialisers and parsers of \<open>serde\<close>, the URL and HTTP
  libraries, the identifiers drawn by \<open>Uuid::now_v7\<close> (\<open>uuid\<close>), the clock and the outcome of waiting
  for an actor. What axum's routing and extractors do is a parameter of theory \<open>Routes\<close>.
\<close>

subsection \<open>Fingerprints\<close>

definition u64_to_be_bytes :: "nat \<Rightarrow> byte list" where
  "u64_to_be_bytes n = map (\<lambda>i. of_nat (n div 256 ^ (7 - i))) [0..<8]"

text \<open>What the hasher is fed: every part behind its length.\<close>

definition hash_input :: "byte list list \<Rightarrow> byte list" where
  "hash_input parts = concat (map (\<lambda>part. u64_to_be_bytes (length part) @ part) parts)"

definition hash_parts :: "(byte list \<Rightarrow> fingerprint) \<Rightarrow> byte list list \<Rightarrow> fingerprint" where
  "hash_parts sha parts = sha (hash_input parts)"

definition attachment_fingerprint :: "(byte list \<Rightarrow> fingerprint) \<Rightarrow> string \<Rightarrow> string \<Rightarrow> fingerprint" where
  "attachment_fingerprint sha ingest_url ingest_token = hash_parts sha [string_to_bytes ingest_url, string_to_bytes ingest_token]"

definition preparation_parts :: "TenantContext \<Rightarrow> byte list \<Rightarrow> fingerprint \<Rightarrow> byte list list" where
  "preparation_parts ctx manifest_json att =
     [string_to_bytes (organization_id ctx), string_to_bytes (project_id ctx), string_to_bytes (deployment_id ctx),
      string_to_bytes (session_id ctx), u64_to_be_bytes (runtime_generation ctx), manifest_json, att]"

definition preparation_fingerprint ::
  "(byte list \<Rightarrow> fingerprint) \<Rightarrow> (AgentManifest \<Rightarrow> string + byte list) \<Rightarrow> TenantContext \<Rightarrow> AgentManifest \<Rightarrow> fingerprint \<Rightarrow>
   fingerprint result" where
  "preparation_fingerprint sha to_vec ctx m att =
     (case to_vec m of
        Inl e \<Rightarrow> Inl (RuntimeError.Json e)
      | Inr manifest_json \<Rightarrow> Inr (hash_parts sha (preparation_parts ctx manifest_json att)))"

subsection \<open>Headers\<close>

text \<open>A header map; \<open>None\<close> is a value that is not visible ASCII.\<close>

type_synonym header_map = "(string \<times> string option) list"

definition optional_header :: "header_map \<Rightarrow> string \<Rightarrow> string option result" where
  "optional_header headers name =
     (case map_of headers name of
        None \<Rightarrow> Inr None
      | Some None \<Rightarrow> Inl (InvalidRequest ''proxy header is not UTF-8'')
      | Some (Some v) \<Rightarrow> Inr (Some v))"

definition required_header :: "header_map \<Rightarrow> string \<Rightarrow> string result" where
  "required_header headers name =
     (case optional_header headers name of
        Inl e \<Rightarrow> Inl e
      | Inr None \<Rightarrow> Inl (InvalidRequest (''missing trusted proxy header '' @ name))
      | Inr (Some v) \<Rightarrow> Inr v)"

definition HEADER_SESSION_ID :: string where
  "HEADER_SESSION_ID = ''x-calluwu-session-id''"

definition HEADER_RUNTIME_GENERATION :: string where
  "HEADER_RUNTIME_GENERATION = ''x-calluwu-runtime-generation''"

definition HEADER_INGEST_URL :: string where
  "HEADER_INGEST_URL = ''x-calluwu-runtime-ingest-url''"

definition HEADER_INGEST_TOKEN :: string where
  "HEADER_INGEST_TOKEN = ''x-calluwu-runtime-ingest-token''"

definition HEADER_ORGANIZATION_ID :: string where
  "HEADER_ORGANIZATION_ID = ''x-calluwu-organization-id''"

definition HEADER_PROJECT_ID :: string where
  "HEADER_PROJECT_ID = ''x-calluwu-project-id''"

definition HEADER_DEPLOYMENT_ID :: string where
  "HEADER_DEPLOYMENT_ID = ''x-calluwu-deployment-id''"

text \<open>\<open>str::parse::<u64>\<close>: digits with an optional plus sign, without overflow.\<close>

definition parse_u64 :: "string \<Rightarrow> nat option" where
  "parse_u64 s =
     (let ds = (case s of c # cs \<Rightarrow> if c = CHR ''+'' then cs else s | [] \<Rightarrow> []);
          v = foldl (\<lambda>a c. 10 * a + (of_char c - 48)) 0 ds in
      if ds = [] \<or> \<not> list_all is_ascii_digit ds \<or> v > u64_max then None else Some v)"

definition admission_from_headers :: "string \<Rightarrow> header_map \<Rightarrow> TenantContext result" where
  "admission_from_headers uuid headers =
     (case required_header headers HEADER_SESSION_ID of Inl e \<Rightarrow> Inl e | Inr sid \<Rightarrow>
      (case required_header headers HEADER_ORGANIZATION_ID of Inl e \<Rightarrow> Inl e | Inr org \<Rightarrow>
      (case required_header headers HEADER_PROJECT_ID of Inl e \<Rightarrow> Inl e | Inr prj \<Rightarrow>
      (case required_header headers HEADER_DEPLOYMENT_ID of Inl e \<Rightarrow> Inl e | Inr dep \<Rightarrow>
      (case required_header headers HEADER_RUNTIME_GENERATION of Inl e \<Rightarrow> Inl e | Inr gen \<Rightarrow>
      (case parse_u64 gen of
         None \<Rightarrow> Inl (InvalidRequest ''runtime generation header is invalid'')
       | Some n \<Rightarrow>
           let ctx = \<lparr>organization_id = org, project_id = prj, deployment_id = dep, session_id = sid,
             runtime_generation = n, correlation_id = ''req_'' @ uuid\<rparr> in
           andR (context_validate ctx) (Inr ctx)))))))"

definition attachment_fingerprint_from_headers :: "(byte list \<Rightarrow> fingerprint) \<Rightarrow> header_map \<Rightarrow> fingerprint result" where
  "attachment_fingerprint_from_headers sha headers =
     (case required_header headers HEADER_INGEST_URL of Inl e \<Rightarrow> Inl e | Inr u \<Rightarrow>
      (case required_header headers HEADER_INGEST_TOKEN of Inl e \<Rightarrow> Inl e | Inr t \<Rightarrow>
       Inr (attachment_fingerprint sha u t)))"

subsection \<open>Replies\<close>

record BuildInfo =
  service :: string
  version :: string
  source_revision :: string
  source_digest :: string
  build_timestamp :: string
  build_toolchain :: string
  build_profile :: string
  builder_image :: string
  runtime_base_image :: string
  build_protocol_version :: nat
  build_boot_id :: string

text \<open>\<open>env\<close> and \<open>option_env\<close> are the compile-time environment.\<close>

definition default_build_info :: "(string \<Rightarrow> string) \<Rightarrow> (string \<Rightarrow> string option) \<Rightarrow> BuildInfo" where
  "default_build_info env option_env =
     (let get = (\<lambda>name d. case option_env name of Some v \<Rightarrow> v | None \<Rightarrow> d) in
      \<lparr>service = ''calluwu-runtime'', version = env ''CARGO_PKG_VERSION'',
       source_revision = get ''CALLUWU_SOURCE_REVISION'' ''development-unversioned'',
       source_digest = get ''CALLUWU_SOURCE_DIGEST'' ''development-unversioned'',
       build_timestamp = get ''CALLUWU_BUILD_TIMESTAMP'' ''development-unversioned'',
       build_toolchain = get ''CALLUWU_BUILD_TOOLCHAIN'' (''rust '' @ env ''CARGO_PKG_RUST_VERSION''),
       build_profile = get ''CALLUWU_BUILD_PROFILE'' ''development-unversioned'',
       builder_image = get ''CALLUWU_BUILDER_IMAGE'' ''development-host'',
       runtime_base_image = get ''CALLUWU_RUNTIME_BASE_IMAGE'' ''development-host'',
       build_protocol_version = PROTOCOL_VERSION, build_boot_id = []\<rparr>)"

datatype reply_body =
    ErrorBody string string string "(string, json) btree_map option"
  | PreparedBody string u64 string
  | ReadinessBody string string LoadSnapshot
  | LoadBody LoadSnapshot
  | HealthBody string
  | BuildBody BuildInfo
  | NoBody

record http_reply =
  reply_status :: nat
  reply_content :: reply_body

definition http_status :: "RuntimeError \<Rightarrow> nat" where
  "http_status e =
     (case e of
        AtCapacity \<Rightarrow> 503 | RuntimeError.Draining \<Rightarrow> 503
      | SessionConflict \<Rightarrow> 409 | GenerationMismatch _ _ \<Rightarrow> 409
      | InvalidState _ \<Rightarrow> 409
      | InvalidRequest _ \<Rightarrow> 400 | RuntimeError.Protocol _ \<Rightarrow> 400
      | _ \<Rightarrow> 500)"

definition http_error :: "string \<Rightarrow> RuntimeError \<Rightarrow> http_reply" where
  "http_error uuid e =
     \<lparr>reply_status = http_status e,
      reply_content = ErrorBody (error_code e) (public_message e) (''req_'' @ uuid) (error_details e)\<rparr>"

text \<open>A handler turns the result of its work into a reply.\<close>

definition respond :: "string \<Rightarrow> ('a \<Rightarrow> http_reply) \<Rightarrow> 'a shard \<Rightarrow> ShardSupervisor \<Rightarrow> http_reply \<times> ShardSupervisor" where
  "respond uuid ok m s =
     (case m s of (Inl e, s') \<Rightarrow> (http_error uuid e, s') | (Inr a, s') \<Rightarrow> (ok a, s'))"

subsection \<open>Handlers\<close>

definition liveness :: http_reply where
  "liveness = \<lparr>reply_status = 200, reply_content = HealthBody ''live''\<rparr>"

definition readiness :: "string \<Rightarrow> ShardSupervisor \<Rightarrow> http_reply \<times> ShardSupervisor" where
  "readiness uuid =
     respond uuid (\<lambda>l.
       let ready = load_accepting l \<and> available_sessions l > 0 in
       \<lparr>reply_status = (if ready then 200 else 503),
        reply_content = ReadinessBody (if ready then ''ready'' else ''not_ready'') (load_boot_id l) l\<rparr>) load"

definition server_load :: "string \<Rightarrow> ShardSupervisor \<Rightarrow> http_reply \<times> ShardSupervisor" where
  "server_load uuid = respond uuid (\<lambda>l. \<lparr>reply_status = 200, reply_content = LoadBody l\<rparr>) load"

text \<open>The shared state of the handlers; the supervisor itself is the state they are functions of.\<close>

record AppState =
  app_build :: BuildInfo
  app_max_message_bytes :: usize

definition build_info :: "AppState \<Rightarrow> http_reply" where
  "build_info app = \<lparr>reply_status = 200, reply_content = BuildBody (app_build app)\<rparr>"

definition server_cancel_session ::
  "(byte list \<Rightarrow> fingerprint) \<Rightarrow> string \<Rightarrow> string \<Rightarrow> header_map \<Rightarrow> nat \<Rightarrow> stop_waits \<Rightarrow>
   ShardSupervisor \<Rightarrow> http_reply \<times> ShardSupervisor" where
  "server_cancel_session sha uuid path_session headers now w =
     respond uuid (\<lambda>_. \<lparr>reply_status = 204, reply_content = NoBody\<rparr>)
       (bindE (liftE (admission_from_headers uuid headers)) (\<lambda>ctx.
          if session_id ctx \<noteq> path_session
          then throwE (InvalidRequest ''session path does not match trusted session header'')
          else bindE (liftE (attachment_fingerprint_from_headers sha headers)) (\<lambda>att.
            shard_cancel_session now ctx att w)))"

text \<open>\<open>HttpEventSink::new\<close> (\<open>event.rs\<close>); \<open>builds\<close>: the HTTP client can be built.\<close>

definition http_event_sink_new :: "'u url_lib \<Rightarrow> bool \<Rightarrow> string \<Rightarrow> string \<Rightarrow> unit result" where
  "http_event_sink_new U builds ingest_url token =
     (if token = [] \<or> length token > 4096
      then Inl (InvalidRequest ''runtime ingest token is missing or too large'')
      else case url_parse U ingest_url of
        None \<Rightarrow> Inl (InvalidRequest ''runtime ingest URL is invalid'')
      | Some u \<Rightarrow>
          let loopback = url_host_str U u \<in> {Some ''localhost'', Some ''127.0.0.1'', Some ''::1''} in
          if url_scheme_of U u \<noteq> ''https'' \<and> \<not> (url_scheme_of U u = ''http'' \<and> loopback)
          then Inl (InvalidRequest ''runtime ingest URL must use HTTPS (HTTP is loopback-only)'')
          else if \<not> builds then Inl (Internal ''failed to initialize HTTP client'')
          else Inr ())"

record PrepareSessionRequest =
  rq_organization_id :: string
  rq_project_id :: string
  rq_deployment_id :: string
  rq_session_id :: string
  rq_runtime_generation :: u64
  rq_manifest :: AgentManifest
  rq_runtime_ingest_url :: string
  rq_runtime_ingest_token :: string

text \<open>The libraries and parsers the handler uses.\<close>

record 'u server_libs =
  lib_sha :: "byte list \<Rightarrow> fingerprint"
  lib_to_vec :: "AgentManifest \<Rightarrow> string + byte list"
  lib_ser :: serializer
  lib_url_scheme :: "string \<Rightarrow> string option"
  lib_urls :: "'u url_lib"
  lib_sink_builds :: bool
  lib_resolve :: "AgentManifest \<Rightarrow> 'u RuntimeServiceAccess option \<Rightarrow> ProviderSet result"

definition request_context :: "string \<Rightarrow> PrepareSessionRequest \<Rightarrow> TenantContext" where
  "request_context uuid r =
     \<lparr>organization_id = rq_organization_id r, project_id = rq_project_id r, deployment_id = rq_deployment_id r,
      session_id = rq_session_id r, runtime_generation = rq_runtime_generation r, correlation_id = ''req_'' @ uuid\<rparr>"

definition needs_runtime_services :: "AgentManifest \<Rightarrow> bool" where
  "needs_runtime_services m \<longleftrightarrow>
     agent_tools (agent_definition m) \<noteq> [] \<or> list_ex (\<lambda>r. ref_provider r \<noteq> ''scripted'') (references_of m)"

text \<open>Everything before the call of \<open>prepare\<close>.\<close>

definition session_preparation ::
  "'u server_libs \<Rightarrow> string \<Rightarrow> PrepareSessionRequest \<Rightarrow> 'u RuntimeServiceAccess SessionPreparation result" where
  "session_preparation L uuid r =
     (let ctx = request_context uuid r; m = rq_manifest r;
          att = attachment_fingerprint (lib_sha L) (rq_runtime_ingest_url r) (rq_runtime_ingest_token r) in
      andR (context_validate ctx)
        (andR (manifest_validate (lib_ser L) (lib_url_scheme L) m)
          (andR (http_event_sink_new (lib_urls L) (lib_sink_builds L) (rq_runtime_ingest_url r) (rq_runtime_ingest_token r))
            (case preparation_fingerprint (lib_sha L) (lib_to_vec L) ctx m att of
               Inl e \<Rightarrow> Inl e
             | Inr fp \<Rightarrow>
                 (case (if needs_runtime_services m
                     then map_sum id Some (from_ingest (lib_urls L) (rq_runtime_ingest_url r) (rq_runtime_ingest_token r) ctx)
                     else Inr None) of
                    Inl e \<Rightarrow> Inl e
                  | Inr access \<Rightarrow>
                      Inr \<lparr>prep_context = ctx, prep_manifest = m, runtime_service_access = access,
                        prep_fingerprint = fp, prep_attachment_fingerprint = att\<rparr>)))))"

definition prepare_session ::
  "'u server_libs \<Rightarrow> string \<Rightarrow> nat \<Rightarrow> PrepareSessionRequest \<Rightarrow> ShardSupervisor \<Rightarrow> http_reply \<times> ShardSupervisor" where
  "prepare_session L uuid now r s =
     respond uuid
       (\<lambda>status. \<lparr>reply_status = (case status of Created \<Rightarrow> 201 | Existing \<Rightarrow> 200),
          reply_content = PreparedBody (rq_session_id r) (rq_runtime_generation r) (boot_id s)\<rparr>)
       (bindE (liftE (session_preparation L uuid r)) (\<lambda>p.
          prepare (lib_ser L) (lib_url_scheme L) (lib_resolve L) now p)) s"

subsection \<open>The WebSocket\<close>

datatype TransportInput = TransportControl ClientMessage | TransportAudio "byte list" | TransportPing "byte list" | TransportClosed

datatype ws_message = WsText string | WsBinary "byte list" | WsPing "byte list" | WsPong "byte list" | WsClose "(nat \<times> string) option"

definition transport_error :: "string \<Rightarrow> ProviderError" where
  "transport_error msg = \<lparr>perr_stage = ''transport'', perr_kind = ProviderErrorKind.Permanent, perr_message = msg\<rparr>"

text \<open>
  \<open>receive\<close> on what the socket delivers (\<open>Inl ()\<close> for a failed read, the end of the list for a closed
  socket): the decoded input and the messages left.
\<close>

fun ws_receive ::
  "(string \<Rightarrow> ClientMessage option) \<Rightarrow> (unit + ws_message) list \<Rightarrow> (ProviderError + TransportInput) \<times> (unit + ws_message) list" where
  "ws_receive from_str [] = (Inr TransportClosed, [])"
| "ws_receive from_str (Inl _ # ms) = (Inl (transport_error ''WebSocket receive failed''), ms)"
| "ws_receive from_str (Inr (WsText t) # ms) =
     ((case from_str t of
         None \<Rightarrow> Inl (transport_error ''WebSocket control JSON is invalid'')
       | Some m \<Rightarrow> Inr (TransportControl m)), ms)"
| "ws_receive from_str (Inr (WsBinary audio) # ms) = (Inr (TransportAudio audio), ms)"
| "ws_receive from_str (Inr (WsPing payload) # ms) = (Inr (TransportPing payload), ms)"
| "ws_receive from_str (Inr (WsPong _) # ms) = ws_receive from_str ms"
| "ws_receive from_str (Inr (WsClose _) # ms) = (Inr TransportClosed, ms)"

definition ws_frame ::
  "(ServerMessage \<Rightarrow> string option) \<Rightarrow> (AudioChunkHeader \<Rightarrow> string + byte list) \<Rightarrow> RealtimeOutput \<Rightarrow> ProviderError + ws_message" where
  "ws_frame to_string to_vec out =
     (case out of
        RealtimeOutput.Control m \<Rightarrow>
          (case to_string m of
             None \<Rightarrow> Inl (transport_error ''WebSocket response serialization failed'')
           | Some json \<Rightarrow> Inr (WsText json))
      | RealtimeOutput.Audio f \<Rightarrow>
          (case frame_encode to_vec f of
             Inl _ \<Rightarrow> Inl (transport_error ''WebSocket audio framing failed'')
           | Inr bytes \<Rightarrow> Inr (WsBinary bytes)))"

text \<open>
  \<open>sock\<close> is what the socket makes of a message: how long it takes and whether it is accepted. The
  methods of the transport give the time they take and their result; the writes of the loop wait for
  at most \<open>write_timeout\<close>.
\<close>

definition WEBSOCKET_WRITE_TIMEOUT :: duration where
  "WEBSOCKET_WRITE_TIMEOUT = from_secs 5"

record ws_codecs =
  ws_to_string :: "ServerMessage \<Rightarrow> string option"
  ws_to_vec :: "AudioChunkHeader \<Rightarrow> string + byte list"

type_synonym socket = "ws_message \<Rightarrow> duration \<times> bool"

definition socket_send :: "socket \<Rightarrow> string \<Rightarrow> ws_message \<Rightarrow> duration \<times> (ProviderError + unit)" where
  "socket_send sock failed m = (case sock m of (d, sent) \<Rightarrow> (d, if sent then Inr () else Inl (transport_error failed)))"

definition ws_send :: "ws_codecs \<Rightarrow> socket \<Rightarrow> RealtimeOutput \<Rightarrow> duration \<times> (ProviderError + unit)" where
  "ws_send C sock out =
     (case ws_frame (ws_to_string C) (ws_to_vec C) out of
        Inl e \<Rightarrow> (0, Inl e)
      | Inr m \<Rightarrow> socket_send sock ''WebSocket send failed'' m)"

definition ws_pong :: "socket \<Rightarrow> byte list \<Rightarrow> duration \<times> (ProviderError + unit)" where
  "ws_pong sock payload = socket_send sock ''WebSocket pong failed'' (WsPong payload)"

definition ws_close :: "socket \<Rightarrow> nat \<Rightarrow> string \<Rightarrow> duration \<times> (ProviderError + unit)" where
  "ws_close sock code reason = socket_send sock ''WebSocket close failed'' (WsClose (Some (code, reason)))"

definition transport_write_timeout :: "string \<Rightarrow> ProviderError" where
  "transport_write_timeout operation = transport_error (''WebSocket '' @ operation @ '' deadline exceeded'')"

definition with_timeout :: "duration \<Rightarrow> string \<Rightarrow> duration \<times> (ProviderError + unit) \<Rightarrow> ProviderError + unit" where
  "with_timeout write_timeout operation r =
     (if fst r \<le> write_timeout then snd r else Inl (transport_write_timeout operation))"

definition send_transport_output :: "duration \<Rightarrow> ws_codecs \<Rightarrow> socket \<Rightarrow> RealtimeOutput \<Rightarrow> ProviderError + unit" where
  "send_transport_output write_timeout C sock out = with_timeout write_timeout ''send'' (ws_send C sock out)"

definition pong_transport :: "duration \<Rightarrow> socket \<Rightarrow> byte list \<Rightarrow> ProviderError + unit" where
  "pong_transport write_timeout sock payload = with_timeout write_timeout ''pong'' (ws_pong sock payload)"

definition close_transport :: "duration \<Rightarrow> socket \<Rightarrow> nat \<Rightarrow> string \<Rightarrow> ProviderError + unit" where
  "close_transport write_timeout sock code reason = with_timeout write_timeout ''close'' (ws_close sock code reason)"

subsection \<open>The transport loop\<close>

text \<open>
  What the \<open>select!\<close> of the loop takes next: an output of the session, the end of its output with the
  outcome the loop then waits for, or an input. \<open>transport_write\<close> is what the loop writes; a write
  fails when the transport fails or its deadline passes.
\<close>

datatype transport_event =
  OutputReady RealtimeOutput | OutputEnded SessionTerminalOutcome | InputReady "ProviderError + TransportInput"

datatype transport_write = WriteSend RealtimeOutput | WritePong "byte list" | WriteClose nat string

definition transport_write_result :: "duration \<Rightarrow> ws_codecs \<Rightarrow> socket \<Rightarrow> transport_write \<Rightarrow> ProviderError + unit" where
  "transport_write_result write_timeout C sock w =
     (case w of
        WriteSend out \<Rightarrow> send_transport_output write_timeout C sock out
      | WritePong payload \<Rightarrow> pong_transport write_timeout sock payload
      | WriteClose code reason \<Rightarrow> close_transport write_timeout sock code reason)"

definition error_output :: "string \<Rightarrow> TenantContext \<Rightarrow> RuntimeError \<Rightarrow> RealtimeOutput" where
  "error_output uuid ctx e =
     RealtimeOutput.Control (ServerMessage.Error
       (envelope_server (session_id ctx) (runtime_generation ctx) (''transport-'' @ uuid))
       (error_code e) (public_message e) (error_details e))"

definition outcome_close :: "SessionTerminalOutcome \<Rightarrow> transport_write" where
  "outcome_close outcome =
     (if outcome = Flushed then WriteClose 1000 ''session terminal persisted''
      else WriteClose 1011 ''session terminal persistence failed'')"

text \<open>
  One iteration: \<open>ok n w\<close> says whether the write \<open>w\<close>, the \<open>n\<close>-th, succeeds. The result is the
  writes, the handle with its queues and whether the loop goes on.
\<close>

definition rejected_input ::
  "(nat \<Rightarrow> string) \<Rightarrow> (nat \<Rightarrow> transport_write \<Rightarrow> bool) \<Rightarrow> nat \<Rightarrow> TenantContext \<Rightarrow> unit result \<times> SessionHandle \<Rightarrow>
   transport_write list \<times> SessionHandle \<times> bool" where
  "rejected_input uuid ok n ctx r =
     (case r of
        (Inr _, h) \<Rightarrow> ([], h, True)
      | (Inl e, h) \<Rightarrow>
          let report = WriteSend (error_output (uuid n) ctx e) in
          if \<not> ok n report then ([report], h, False)
          else (case e of
              MailboxFull _ \<Rightarrow> ([report, WriteClose 1013 ''runtime overloaded''], h, False)
            | _ \<Rightarrow> ([report], h, True)))"

definition transport_step ::
  "(nat \<Rightarrow> string) \<Rightarrow> (nat \<Rightarrow> transport_write \<Rightarrow> bool) \<Rightarrow> nat \<Rightarrow> TenantContext \<Rightarrow> SessionHandle \<Rightarrow> transport_event \<Rightarrow>
   transport_write list \<times> SessionHandle \<times> bool" where
  "transport_step uuid ok n ctx h ev =
     (case ev of
        OutputEnded outcome \<Rightarrow> ([outcome_close outcome], h, False)
      | OutputReady out \<Rightarrow> ([WriteSend out], h, ok n (WriteSend out))
      | InputReady (Inr (TransportControl m)) \<Rightarrow> rejected_input uuid ok n ctx (try_control h m)
      | InputReady (Inr (TransportAudio audio)) \<Rightarrow> rejected_input uuid ok n ctx (try_audio h audio)
      | InputReady (Inr (TransportPing payload)) \<Rightarrow> ([WritePong payload], h, ok n (WritePong payload))
      | InputReady (Inr TransportClosed) \<Rightarrow> ([], h, False)
      | InputReady (Inl _) \<Rightarrow> ([], h, False))"

text \<open>Between two iterations the actor works on the queues behind the handle: \<open>env\<close>.\<close>

fun transport_loop ::
  "(nat \<Rightarrow> string) \<Rightarrow> (nat \<Rightarrow> transport_write \<Rightarrow> bool) \<Rightarrow> nat \<Rightarrow> TenantContext \<Rightarrow> SessionHandle \<Rightarrow> ((SessionHandle \<Rightarrow> SessionHandle) \<times> transport_event) list \<Rightarrow>
   transport_write list \<times> SessionHandle \<times> bool" where
  "transport_loop uuid ok n ctx h [] = ([], h, True)"
| "transport_loop uuid ok n ctx h ((env, ev) # evs) =
     (case transport_step uuid ok n ctx (env h) ev of
        (ws, h', False) \<Rightarrow> (ws, h', False)
      | (ws, h', True) \<Rightarrow>
          (case transport_loop uuid ok (n + length ws) ctx h' evs of (ws', h'', k) \<Rightarrow> (ws @ ws', h'', k)))"

text \<open>
  A finished loop hands the session back. \<open>meanwhile\<close> is what the session's actor and the requests
  served during the loop have made of the shard, given the handle as the loop left it.
\<close>

definition run_transport ::
  "(nat \<Rightarrow> string) \<Rightarrow> (nat \<Rightarrow> transport_write \<Rightarrow> bool) \<Rightarrow> nat \<Rightarrow> stop_waits \<Rightarrow> (SessionHandle \<Rightarrow> ShardSupervisor \<Rightarrow> ShardSupervisor) \<Rightarrow>
   SessionHandle \<Rightarrow> fingerprint \<Rightarrow> ((SessionHandle \<Rightarrow> SessionHandle) \<times> transport_event) list \<Rightarrow> ShardSupervisor \<Rightarrow>
   transport_write list \<times> bool \<times> ShardSupervisor" where
  "run_transport uuid ok now w meanwhile h att evs s =
     (case transport_loop uuid ok 0 (hnd_context h) h evs of
        (ws, h', running) \<Rightarrow>
          (ws, running,
           if running then meanwhile h' s else snd (disconnect_session now (hnd_context h) att w (meanwhile h' s))))"

text \<open>The socket of a connection may treat every write differently: \<open>socks n\<close> at the \<open>n\<close>-th.\<close>

definition websocket_ok :: "ws_codecs \<Rightarrow> (nat \<Rightarrow> socket) \<Rightarrow> nat \<Rightarrow> transport_write \<Rightarrow> bool" where
  "websocket_ok C socks n w \<longleftrightarrow> \<not> isl (transport_write_result WEBSOCKET_WRITE_TIMEOUT C (socks n) w)"

definition run_websocket ::
  "(nat \<Rightarrow> string) \<Rightarrow> ws_codecs \<Rightarrow> (nat \<Rightarrow> socket) \<Rightarrow> nat \<Rightarrow> stop_waits \<Rightarrow>
   (SessionHandle \<Rightarrow> ShardSupervisor \<Rightarrow> ShardSupervisor) \<Rightarrow> SessionHandle \<Rightarrow> fingerprint \<Rightarrow>
   ((SessionHandle \<Rightarrow> SessionHandle) \<times> transport_event) list \<Rightarrow> ShardSupervisor \<Rightarrow> transport_write list \<times> bool \<times> ShardSupervisor" where
  "run_websocket uuid C socks = run_transport uuid (websocket_ok C socks)"

text \<open>
  What an upgraded connection meets: whether the client completes the upgrade, what other requests have
  made of the shard by then, the identifiers drawn, the codecs and the socket, the times of the attachment
  and of the end, the waits of the disconnect, what happens to the shard during the loop and what the
  loop receives.
\<close>

record upgrade =
  up_completes :: bool
  up_before :: "ShardSupervisor \<Rightarrow> ShardSupervisor"
  up_uuids :: "nat \<Rightarrow> string"
  up_codecs :: ws_codecs
  up_sockets :: "nat \<Rightarrow> socket"
  up_now :: nat
  up_later :: nat
  up_waits :: stop_waits
  up_meanwhile :: "SessionHandle \<Rightarrow> ShardSupervisor \<Rightarrow> ShardSupervisor"
  up_env :: "env_action list list"
  up_events :: "((SessionHandle \<Rightarrow> SessionHandle) \<times> transport_event) list"

text \<open>The closure given to \<open>on_upgrade\<close>, with what it has captured.\<close>

definition on_upgrade ::
  "upgrade \<Rightarrow> TenantContext \<Rightarrow> fingerprint \<Rightarrow> ShardSupervisor \<Rightarrow> transport_write list \<times> bool \<times> ShardSupervisor" where
  "on_upgrade U ctx att s =
     (case attach_prepared (up_now U) ctx att (up_env U) s of
        (Inr (h, _), s') \<Rightarrow>
          run_websocket (up_uuids U) (up_codecs U) (up_sockets U) (up_later U) (up_waits U) (up_meanwhile U) h att (up_events U) s'
      | (Inl e, s') \<Rightarrow>
          let report = WriteSend (error_output (up_uuids U 0) ctx e) in
          (report # (if websocket_ok (up_codecs U) (up_sockets U) 0 report then [WriteClose 1008 ''session attachment rejected''] else []),
           False, s'))"

text \<open>
  \<open>realtime\<close>: the checks, the reply that grants the upgrade, and what the upgraded connection does: its
  writes and whether it still runs.
\<close>

definition realtime_checks :: "(byte list \<Rightarrow> fingerprint) \<Rightarrow> string \<Rightarrow> header_map \<Rightarrow> nat \<Rightarrow> (TenantContext \<times> fingerprint) shard" where
  "realtime_checks sha uuid headers now =
     bindE (liftE (admission_from_headers uuid headers)) (\<lambda>ctx.
       bindE (liftE (attachment_fingerprint_from_headers sha headers)) (\<lambda>att.
         thenE (validate_prepared_attachment now ctx att) (returnE (ctx, att))))"

definition realtime ::
  "(byte list \<Rightarrow> fingerprint) \<Rightarrow> string \<Rightarrow> header_map \<Rightarrow> nat \<Rightarrow> upgrade \<Rightarrow> ShardSupervisor \<Rightarrow>
   http_reply \<times> (transport_write list \<times> bool) option \<times> ShardSupervisor" where
  "realtime sha uuid headers now U s =
     (case realtime_checks sha uuid headers now s of
        (Inl e, s') \<Rightarrow> (http_error uuid e, None, s')
      | (Inr (ctx, att), s') \<Rightarrow>
          let granted = \<lparr>reply_status = 101, reply_content = NoBody\<rparr> in
          if \<not> up_completes U then (granted, None, s')
          else (case on_upgrade U ctx att (up_before U s') of
              (ws, running, s'') \<Rightarrow> (granted, Some (ws, running), s'')))"

definition serve_shutdown :: "(string \<Rightarrow> bool) \<Rightarrow> (string \<Rightarrow> bool) \<Rightarrow> ShardSupervisor \<Rightarrow> ShardSupervisor" where
  "serve_shutdown after_grace after_force s = snd (drain after_grace after_force (begin_draining s))"

end
