(* ===== verification/ServerGuarantees.thy ===== *)
theory ServerGuarantees
  imports Server
begin

text \<open>
  What the shard's HTTP and WebSocket surface guarantees: a transport that ends closes with the code its
  session earned and leaves a session behind only when its actor would not end, a cancel request
  reaches only the entry it is entitled to, a repeated preparation is answered alike without effect, and
  fingerprints identify what was prepared.
\<close>

subsection \<open>What the transport writes\<close>

definition is_close :: "transport_write \<Rightarrow> bool" where
  "is_close w = (case w of WriteClose _ _ \<Rightarrow> True | _ \<Rightarrow> False)"

text \<open>
  \<open>close_justified\<close>: what must have happened for a close frame. \<open>overload_report\<close> is the report of a
  full lane.
\<close>

definition overload_report :: "transport_write \<Rightarrow> bool" where
  "overload_report w =
     (case w of WriteSend (RealtimeOutput.Control (ServerMessage.Error _ code _ _)) \<Rightarrow> code = ''runtime_overloaded'' | _ \<Rightarrow> False)"

definition close_justified :: "transport_event list \<Rightarrow> transport_write list \<Rightarrow> bool" where
  "close_justified evs ws \<longleftrightarrow>
     list_all (\<lambda>w. \<not> is_close w) (butlast ws) \<and>
     (case rev ws of
        WriteClose code _ # before \<Rightarrow>
          (code = 1000 \<and> OutputEnded Flushed \<in> set evs \<or>
           code = 1011 \<and> (\<exists>outcome. outcome \<noteq> Flushed \<and> OutputEnded outcome \<in> set evs) \<or>
           code = 1013 \<and> before \<noteq> [] \<and> overload_report (hd before))
      | _ \<Rightarrow> True)"

lemma rejected_input_writes:
  assumes "rejected_input uuid ok n ctx r = (ws, h, k)"
  shows "(k \<longrightarrow> list_all (\<lambda>w. \<not> is_close w) ws) \<and> close_justified evs ws"
  using assms
  by (auto simp: rejected_input_def Let_def close_justified_def is_close_def overload_report_def error_output_def
      split: sum.splits prod.splits if_splits RuntimeError.splits)

lemma transport_step_writes:
  assumes "transport_step uuid ok n ctx h ev = (ws, h', k)"
  shows "(k \<longrightarrow> list_all (\<lambda>w. \<not> is_close w) ws) \<and> close_justified (ev # evs) ws"
  using assms rejected_input_writes
  by (auto simp: transport_step_def close_justified_def is_close_def outcome_close_def
      split: transport_event.splits sum.splits TransportInput.splits if_splits)

lemma close_justified_append:
  assumes "list_all (\<lambda>w. \<not> is_close w) ws" and "close_justified evs ws'"
  shows "close_justified (ev # evs) (ws @ ws')"
proof (cases ws' rule: rev_cases)
  case Nil
  have "list_all (\<lambda>w. \<not> is_close w) (butlast ws)" using assms(1) by (auto simp: list_all_iff dest: in_set_butlastD)
  with Nil assms(1) show ?thesis
    by (cases ws rule: rev_cases) (auto simp: close_justified_def is_close_def split: transport_write.splits)
next
  case (snoc us u)
  with assms show ?thesis
    by (auto simp: close_justified_def is_close_def butlast_append hd_append split: transport_write.splits)
qed

lemma transport_loop_writes:
  "transport_loop uuid ok n ctx h evs = (ws, h', k) \<Longrightarrow>
   close_justified (map snd evs) ws \<and> (k \<longrightarrow> list_all (\<lambda>w. \<not> is_close w) ws)"
proof (induction uuid ok n ctx h evs arbitrary: ws h' k rule: transport_loop.induct)
  case (2 uuid ok n ctx h env ev evs)
  obtain us g b where step: "transport_step uuid ok n ctx (env h) ev = (us, g, b)" by (cases rule: prod_cases3)
  note us = transport_step_writes [OF step]
  show ?case
  proof (cases b)
    case True
    obtain vs g' b' where rest: "transport_loop uuid ok (n + length us) ctx g evs = (vs, g', b')" by (cases rule: prod_cases3)
    then have "close_justified (map snd evs) vs \<and> (b' \<longrightarrow> list_all (\<lambda>w. \<not> is_close w) vs)"
      using "2.IH" [OF step [symmetric]] True by auto
    with "2.prems" step rest True us show ?thesis by (auto intro: close_justified_append)
  next
    case False
    with "2.prems" step us show ?thesis by auto
  qed
qed (auto simp: close_justified_def)

text \<open>
  After a stop no session is left that answers to the request, unless its actor ended in none of the
  waits: then it has been cancelled by its token and aborted.
\<close>

lemma stop_leaves_none:
  assumes "context_validate ctx = Inr ()" and "shard_inv cfg s"
    and "map_of (sessions (snd (stop_session now ctx att reason w s))) (session_id ctx) = Some e"
    and "validate_active_entry e ctx att = Inr ()"
  shows "\<not> within_grace w \<and> \<not> within_forced w \<and> \<not> within_abort w \<and> hnd_force_cancel (as_handle e) \<and> as_aborted e"
proof (cases "map_of (sessions (reap s)) (session_id ctx)")
  case None
  then have "sessions (snd (stop_session now ctx att reason w s)) = sessions (reap s)"
    unfolding stop_inactive [OF assms(1,2) None] by (simp split: option.split sum.split)
  with None assms(3) show ?thesis by simp
next
  case (Some e0)
  show ?thesis
  proof (cases "validate_active_entry e0 ctx att")
    case (Inl err)
    then have "stop_session now ctx att reason w s = (Inl err, reap s)"
      using stale_stop_is_fenced [OF assms(1,2)] Some by simp
    with assms(3,4) Some Inl show ?thesis by simp
  next
    case (Inr u)
    then show ?thesis using stop_active [OF assms(1,2) Some, of att now reason w] assms(3) by (auto split: if_splits)
  qed
qed

text \<open>
  C39 (safety). A transport sends a close frame only as its last write: 1000 only when the
  session ended Flushed, 1011 only when it ended otherwise, 1013 only after the report of a full
  lane. Once it has ended, and whatever other requests did to the shard until then that keeps
  its invariant, its disconnect leaves a session that still answers to its tenant, generation
  and attachment registered only when the actor ended in none of the three waits, and that
  session has then been cancelled by its token and aborted.
\<close>

theorem transport_closes_and_reaps:
  assumes "run_transport uuid ok now w meanwhile h att evs s = (ws, running, s')"
    and "context_validate (hnd_context h) = Inr ()" and "\<forall>h'. shard_inv cfg (meanwhile h' s)"
  shows "close_justified (map snd evs) ws \<and>
    (running \<longrightarrow> list_all (\<lambda>w. \<not> is_close w) ws) \<and>
    (\<not> running \<longrightarrow> (\<forall>e. map_of (sessions s') (session_id (hnd_context h)) = Some e \<longrightarrow>
       validate_active_entry e (hnd_context h) att = Inr () \<longrightarrow>
       \<not> within_grace w \<and> \<not> within_forced w \<and> \<not> within_abort w \<and> hnd_force_cancel (as_handle e) \<and> as_aborted e))"
proof -
  obtain h' where l: "transport_loop uuid ok 0 (hnd_context h) h evs = (ws, h', running)"
    and s': "s' = (if running then meanwhile h' s else snd (disconnect_session now (hnd_context h) att w (meanwhile h' s)))"
    using assms(1) by (auto simp: run_transport_def split: prod.splits)
  have "shard_inv cfg (meanwhile h' s)" using assms(3) by simp
  note left = stop_leaves_none [OF assms(2) this]
  show ?thesis using transport_loop_writes [OF l] left s' by (simp add: disconnect_session_def)
qed

theorem transport_closes_and_reaps_witness:
  "\<exists>ws s'. run_transport (\<lambda>_. ''7'') (\<lambda>_ _. True) 5 \<lparr>within_grace = True, within_forced = True, within_abort = True\<rparr> (\<lambda>_ s. s)
       (as_handle demo_active) [2] [(\<lambda>h. h, InputReady (Inr (TransportPing [1]))), (\<lambda>h. h, OutputEnded Flushed)]
       demo_running = (ws, False, s') \<and>
     ws = [WritePong [1], WriteClose 1000 ''session terminal persisted''] \<and>
     (case map_of (sessions s') ''ses_01JABCDEF'' of None \<Rightarrow> True | Some e \<Rightarrow> validate_active_entry e demo_context [2] \<noteq> Inr ())"
proof -
  let ?w = "\<lparr>within_grace = True, within_forced = True, within_abort = True\<rparr>"
  let ?evs = "[(\<lambda>h. h, InputReady (Inr (TransportPing [1]))), (\<lambda>h. h, OutputEnded Flushed)]"
  obtain ws k s' where r: "run_transport (\<lambda>_. ''7'') (\<lambda>_ _. True) 5 ?w (\<lambda>_ s. s) (as_handle demo_active) [2] ?evs demo_running = (ws, k, s')"
    by (cases rule: prod_cases3)
  then have "ws = [WritePong [1], WriteClose 1000 ''session terminal persisted'']" "\<not> k"
    by (auto simp: run_transport_def transport_step_def outcome_close_def)
  moreover from transport_closes_and_reaps [OF r] demo_contexts(1) demo_running_inv
  have "\<not> k \<longrightarrow> (\<forall>e. map_of (sessions s') ''ses_01JABCDEF'' = Some e \<longrightarrow> validate_active_entry e demo_context [2] \<noteq> Inr ())"
    by simp
  ultimately show ?thesis using r by (auto split: option.split)
qed

subsection \<open>Cancelling\<close>

lemma validated_active:
  "validate_active_entry e ctx att = Inr () \<longleftrightarrow>
     runtime_generation (hnd_context (as_handle e)) = runtime_generation ctx \<and>
     organization_id (hnd_context (as_handle e)) = organization_id ctx \<and> project_id (hnd_context (as_handle e)) = project_id ctx \<and>
     deployment_id (hnd_context (as_handle e)) = deployment_id ctx \<and> as_attachment_fingerprint e = Some att"
  by (auto simp: validate_active_entry_def Let_def)

lemma validated_prepared:
  "validate_prepared_entry now p ctx att = Inr () \<longleftrightarrow>
     now < expires_at p \<and> runtime_generation (pr_context p) = runtime_generation ctx \<and>
     organization_id (pr_context p) = organization_id ctx \<and> project_id (pr_context p) = project_id ctx \<and>
     deployment_id (pr_context p) = deployment_id ctx \<and> pr_attachment_fingerprint p = att"
  by (auto simp: validate_prepared_entry_def Let_def)

text \<open>Whom the headers of a request stand for: the tenant and generation they name, and the ingest capability they carry.\<close>

definition bearer :: "(byte list \<Rightarrow> fingerprint) \<Rightarrow> string \<Rightarrow> header_map \<Rightarrow> TenantContext \<Rightarrow> fingerprint \<Rightarrow> bool" where
  "bearer sha uuid headers ctx att \<longleftrightarrow>
     admission_from_headers uuid headers = Inr ctx \<and> attachment_fingerprint_from_headers sha headers = Inr att"

lemma admission_valid: "admission_from_headers uuid headers = Inr ctx \<Longrightarrow> context_validate ctx = Inr ()"
  by (auto simp: admission_from_headers_def Let_def andR_def split: sum.splits option.splits)

lemma error_status: "400 \<le> reply_status (http_error uuid e)"
  by (simp add: http_error_def http_status_def split: RuntimeError.split)

text \<open>How a cancel request that names a session in its path and its headers ends, in terms of the stop it makes.\<close>

lemma cancel_cases:
  assumes "server_cancel_session sha uuid path headers now w s = (reply, s')"
  obtains "s' = s" "400 \<le> reply_status reply"
  | ctx att r where "bearer sha uuid headers ctx att" "session_id ctx = path" "context_validate ctx = Inr ()"
      "stop_session now ctx att ''control_plane_cancel'' w s = (r, s')" "reply_status reply = 204 \<longleftrightarrow> r = Inr ()"
      "r \<noteq> Inr () \<longrightarrow> 400 \<le> reply_status reply"
proof (cases "admission_from_headers uuid headers")
  case (Inl e)
  with assms that(1) error_status [of uuid e] show ?thesis
    by (auto simp: server_cancel_session_def respond_def errorE_defs)
next
  case (Inr ctx)
  show ?thesis
  proof (cases "session_id ctx = path")
    case False
    with Inr assms that(1) error_status [of uuid] show ?thesis
      by (auto simp: server_cancel_session_def respond_def errorE_defs)
  next
    case path: True
    show ?thesis
    proof (cases "attachment_fingerprint_from_headers sha headers")
      case (Inl e)
      with Inr path assms that(1) error_status [of uuid e] show ?thesis
        by (auto simp: server_cancel_session_def respond_def errorE_defs)
    next
      case att: (Inr att)
      obtain r t where run: "stop_session now ctx att ''control_plane_cancel'' w s = (r, t)" by fastforce
      have reply: "s' = t" "reply = (case r of Inl e \<Rightarrow> http_error uuid e | Inr _ \<Rightarrow> \<lparr>reply_status = 204, reply_content = NoBody\<rparr>)"
        using assms Inr path att run
        by (auto simp: server_cancel_session_def respond_def errorE_defs shard_cancel_session_def split: sum.splits)
      have status: "reply_status reply = 204 \<longleftrightarrow> r = Inr ()"
        using reply(2) error_status [of uuid "projl r"] by (cases r) simp_all
      have bad: "r \<noteq> Inr () \<longrightarrow> 400 \<le> reply_status reply"
        using reply(2) error_status [of uuid "projl r"] by (cases r) simp_all
      show ?thesis
        by (rule that(2) [OF _ path admission_valid [OF Inr] _ status bad]) (use Inr att run reply(1) in \<open>simp_all add: bearer_def\<close>)
    qed
  qed
qed

text \<open>What is true of the entry that a request cancels.\<close>

definition may_cancel :: "nat \<Rightarrow> TenantContext \<Rightarrow> fingerprint \<Rightarrow> ShardSupervisor \<Rightarrow> bool" where
  "may_cancel now ctx att s \<longleftrightarrow>
     (case map_of (sessions (reap s)) (session_id ctx) of
        Some e \<Rightarrow>
          runtime_generation (hnd_context (as_handle e)) = runtime_generation ctx \<and>
          organization_id (hnd_context (as_handle e)) = organization_id ctx \<and> project_id (hnd_context (as_handle e)) = project_id ctx \<and>
          deployment_id (hnd_context (as_handle e)) = deployment_id ctx \<and> as_attachment_fingerprint e = Some att
      | None \<Rightarrow>
          (case map_of (prepared s) (session_id ctx) of
             None \<Rightarrow> True
           | Some p \<Rightarrow>
               now < expires_at p \<and> runtime_generation (pr_context p) = runtime_generation ctx \<and>
               organization_id (pr_context p) = organization_id ctx \<and> project_id (pr_context p) = project_id ctx \<and>
               deployment_id (pr_context p) = deployment_id ctx \<and> pr_attachment_fingerprint p = att))"

lemma stop_effect:
  assumes "context_validate ctx = Inr ()" and "shard_inv cfg s" and "stop_session now ctx att reason w s = (r, s')"
  shows "(r = Inr () \<longrightarrow> may_cancel now ctx att s \<and> map_of (sessions s') (session_id ctx) = None \<and>
      (map_of (sessions (reap s)) (session_id ctx) = None \<longrightarrow> map_of (prepared s') (session_id ctx) = None)) \<and>
    (\<not> may_cancel now ctx att s \<longrightarrow> s' = reap s) \<and>
    (\<forall>sid. sid \<noteq> session_id ctx \<longrightarrow> map_of (sessions s') sid = map_of (sessions (reap s)) sid \<and>
       map_of (prepared s') sid = map_of (prepared s) sid)"
proof (cases "map_of (sessions (reap s)) (session_id ctx)")
  case None
  with stop_inactive [OF assms(1,2) None, of now att reason w] assms(3) show ?thesis
    by (cases "map_of (prepared s) (session_id ctx)")
      (auto simp: may_cancel_def validated_prepared [symmetric] delete_conv' split: sum.splits)
next
  case (Some e)
  show ?thesis
  proof (cases "validate_active_entry e ctx att")
    case (Inl err)
    then have "stop_session now ctx att reason w s = (Inl err, reap s)"
      using stale_stop_is_fenced [OF assms(1,2)] Some by simp
    with Inl Some assms(3) show ?thesis by (auto simp: may_cancel_def validated_active [symmetric])
  next
    case (Inr u)
    with Some stop_active [OF assms(1,2) Some, of att now reason w] assms(3) show ?thesis
      by (auto simp: may_cancel_def validated_active [symmetric] split: if_splits)
  qed
qed


abbreviation demo_cancel_headers :: header_map where
  "demo_cancel_headers \<equiv> [(HEADER_SESSION_ID, Some ''ses_01JABCDEF''), (HEADER_ORGANIZATION_ID, Some ''org_01JABCDEF''),
     (HEADER_PROJECT_ID, Some ''prj_01JABCDEF''), (HEADER_DEPLOYMENT_ID, Some ''dep_01JABCDEF''),
     (HEADER_RUNTIME_GENERATION, Some ''1''), (HEADER_INGEST_URL, Some ''https://h/''), (HEADER_INGEST_TOKEN, Some ''token'')]"

lemma demo_cancel_context: "context_validate (demo_context\<lparr>correlation_id := ''req_7''\<rparr>) = Inr ()"
  by (simp add: context_validate_ok ident_eval)

lemma demo_cancel_bearer:
  "admission_from_headers ''7'' demo_cancel_headers = Inr (demo_context\<lparr>correlation_id := ''req_7''\<rparr>)"
  "attachment_fingerprint_from_headers (\<lambda>_. [2]) demo_cancel_headers = Inr [2]"
  using demo_cancel_context
  by (simp_all add: admission_from_headers_def attachment_fingerprint_from_headers_def required_header_def optional_header_def
      HEADER_SESSION_ID_def HEADER_ORGANIZATION_ID_def HEADER_PROJECT_ID_def HEADER_DEPLOYMENT_ID_def HEADER_RUNTIME_GENERATION_def
      HEADER_INGEST_URL_def HEADER_INGEST_TOKEN_def parse_u64_def u64_max_def ascii_defs less_eq_char_def Let_def andR_def
      attachment_fingerprint_def hash_parts_def)


subsection \<open>Preparing twice\<close>

text \<open>
  What the preparation of a session relies on in its provider resolver: whether a manifest can be
  resolved does not depend on whom the access is issued to.
\<close>

locale deployment_resolver =
  fixes resolve :: "AgentManifest \<Rightarrow> 'u RuntimeServiceAccess option \<Rightarrow> ProviderSet result"
  assumes context_ignored: "resolve m (Some a) = Inr ps \<Longrightarrow> \<exists>ps'. resolve m (Some (a\<lparr>access_context := c\<rparr>)) = Inr ps'"
begin

lemma resolves_again:
  assumes "resolve m access = Inr ps"
  shows "\<exists>ps'. resolve m (map_option (\<lambda>a. a\<lparr>access_context := c\<rparr>) access) = Inr ps'"
  using assms context_ignored by (cases access) auto

end

text \<open>
  The resolvers of the program; their panic on a manifest without tool concurrency, which no valid
  manifest reaches, is an error here.
\<close>

definition gateway_resolver ::
  "gateway_codecs \<Rightarrow> 'u url_lib \<Rightarrow> 'u http_lib \<Rightarrow> AgentManifest \<Rightarrow> 'u RuntimeServiceAccess option \<Rightarrow> ProviderSet result" where
  "gateway_resolver C U H m access =
     (case gateway_resolve C U H m access of Some r \<Rightarrow> r | None \<Rightarrow> Inl (Internal ''resolver panicked''))"

definition local_resolver ::
  "gateway_codecs \<Rightarrow> AgentManifest \<Rightarrow> 'u RuntimeServiceAccess option \<Rightarrow> ProviderSet result" where
  "local_resolver C m access =
     (case LocalScriptedProviderResolver_resolve (gc_print C) (gc_from_str C) m of
        Some r \<Rightarrow> r | None \<Rightarrow> Inl (Internal ''resolver panicked''))"

interpretation gw_resolver: deployment_resolver "gateway_resolver C U H"
  by unfold_locales
    (auto simp: gateway_resolver_def gateway_resolve_def gateway_client_new_def Let_def
      gateway_providers_def ensure_capabilities_def andR_def capabilities_def
      split: if_splits option.splits sum.splits)

interpretation local_scripted: deployment_resolver "local_resolver C"
  by unfold_locales (simp add: local_resolver_def)

lemma request_context_valid:
  "context_validate (request_context uuid r) = Inr () \<Longrightarrow> length uuid' \<le> 156 \<Longrightarrow> context_validate (request_context uuid' r) = Inr ()"
  by (auto simp: context_validate_def request_context_def split: option.splits if_splits)

text \<open>A preparation built from the same request differs in the correlation only.\<close>

lemma session_preparation_again:
  assumes "session_preparation L uuid r = Inr p" and "length uuid' \<le> 156"
  shows "session_preparation L uuid' r = Inr (p\<lparr>prep_context := request_context uuid' r,
    runtime_service_access := map_option (\<lambda>a. a\<lparr>access_context := request_context uuid' r\<rparr>) (runtime_service_access p)\<rparr>) \<and>
    prep_context p = request_context uuid r \<and> prep_manifest p = rq_manifest r \<and>
    context_validate (request_context uuid' r) = Inr ()"
proof -
  have v: "context_validate (request_context uuid r) = Inr ()"
    using assms(1) by (auto simp: session_preparation_def Let_def andR_def split: sum.splits)
  note v' = request_context_valid [OF v assms(2)]
  have "preparation_fingerprint sha to_vec (request_context uuid' r) m att =
      preparation_fingerprint sha to_vec (request_context uuid r) m att" for sha to_vec m att
    by (simp add: preparation_fingerprint_def preparation_parts_def request_context_def split: sum.split)
  with assms(1) v v' show ?thesis
    by (auto simp: session_preparation_def Let_def andR_def from_ingest_def split: sum.splits if_splits option.splits)
qed

text \<open>What a created reservation leaves behind.\<close>

lemma prepare_created:
  assumes "prepare ser url_scheme resolve now p s = (Inr Created, s')"
  shows "accepting s' \<and> \<not> sessions_poisoned s' \<and> \<not> prepared_poisoned s' \<and> reap s' = s' \<and> sup_config s' = sup_config s \<and> boot_id s' = boot_id s \<and>
    map_of (sessions s') (session_id (prep_context p)) = None \<and>
    (\<exists>e. map_of (prepared s') (session_id (prep_context p)) = Some e \<and> pr_fingerprint e = prep_fingerprint p \<and>
       runtime_generation (pr_context e) = runtime_generation (prep_context p)) \<and>
    manifest_validate ser url_scheme (prep_manifest p) = Inr () \<and> (\<exists>ps. resolve (prep_manifest p) (runtime_service_access p) = Inr ps) \<and>
    config_validate (prepared_config (shard_session (sup_config s)) (prep_manifest p)) = Inr ()"
  using assms
  by (auto simp: prepare_def prepare_checks_def prepare_reserve_def prepare_insert_def errorE_defs lock_sessions_def
      lock_prepared_def panic_both_locked_def Let_def reap_def update_conv' split: sum.splits if_splits option.splits)

lemma prepare_existing:
  assumes "accepting s" "\<not> sessions_poisoned s" "\<not> prepared_poisoned s" "reap s = s" "context_validate (prep_context p) = Inr ()"
    "manifest_validate ser url_scheme (prep_manifest p) = Inr ()" "resolve (prep_manifest p) (runtime_service_access p) = Inr ps"
    "config_validate (prepared_config (shard_session (sup_config s)) (prep_manifest p)) = Inr ()"
    "map_of (sessions s) (session_id (prep_context p)) = None"
    "map_of (prepared s) (session_id (prep_context p)) = Some e" "pr_fingerprint e = prep_fingerprint p"
    "runtime_generation (pr_context e) = runtime_generation (prep_context p)"
  shows "prepare ser url_scheme resolve now p s = (Inr Existing, s)"
  using assms by (simp add: prepare_def prepare_checks_def prepare_reserve_def errorE_defs lock_sessions_def lock_prepared_def)

context deployment_resolver
begin

lemma prepare_session_again:
  assumes "prepare_session L uuid now r s = (reply, s')" and "reply_status reply = 201"
    and "lib_resolve L = resolve" and "length uuid' \<le> 156"
  shows "prepare_session L uuid' now' r s' = (reply\<lparr>reply_status := 200\<rparr>, s')"
proof -
  obtain p where p: "session_preparation L uuid r = Inr p"
    and created: "prepare (lib_ser L) (lib_url_scheme L) (lib_resolve L) now p s = (Inr Created, s')"
    and reply: "reply = \<lparr>reply_status = 201, reply_content = PreparedBody (rq_session_id r) (rq_runtime_generation r) (boot_id s)\<rparr>"
    using assms(1,2)
    by (auto simp: prepare_session_def respond_def errorE_defs http_error_def http_status_def
        split: sum.splits prod.splits PreparationStatus.splits RuntimeError.splits)
  let ?access = "map_option (\<lambda>a. a\<lparr>access_context := request_context uuid' r\<rparr>) (runtime_service_access p)"
  let ?p = "p\<lparr>prep_context := request_context uuid' r, runtime_service_access := ?access\<rparr>"
  note again = session_preparation_again [OF p assms(4)] and c = prepare_created [OF created]
  obtain ps where "lib_resolve L (prep_manifest p) ?access = Inr ps" using c resolves_again unfolding assms(3) by blast
  moreover have "session_id (prep_context ?p) = session_id (prep_context p)"
    "runtime_generation (prep_context ?p) = runtime_generation (prep_context p)"
    using again by (simp_all add: request_context_def)
  moreover obtain e where "map_of (prepared s') (session_id (prep_context p)) = Some e" "pr_fingerprint e = prep_fingerprint p"
    "runtime_generation (pr_context e) = runtime_generation (prep_context p)" using c by blast
  ultimately have "prepare (lib_ser L) (lib_url_scheme L) (lib_resolve L) now' ?p s' = (Inr Existing, s')"
    using c again by (intro prepare_existing [where ps = ps and e = e]) simp_all
  with again reply c show ?thesis by (simp add: prepare_session_def respond_def errorE_defs)
qed

end

text \<open>
  C37 (functional). A preparation that was answered 201 is answered 200 with the same body when
  the same request is repeated, with a new correlation and at another time, and the repetition
  leaves the shard exactly as it was, with the gateway resolver as with the local one.
\<close>

theorem prepare_session_is_idempotent:
  assumes "prepare_session L uuid now r s = (reply, s')" and "reply_status reply = 201"
    and "lib_resolve L = gateway_resolver C U H \<or> lib_resolve L = local_resolver C" and "length uuid' \<le> 156"
  shows "prepare_session L uuid' now' r s' = (reply\<lparr>reply_status := 200\<rparr>, s')"
  using assms(3)
proof
  assume "lib_resolve L = gateway_resolver C U H"
  then show ?thesis by (rule gw_resolver.prepare_session_again [OF assms(1,2) _ assms(4)])
next
  assume "lib_resolve L = local_resolver C"
  then show ?thesis by (rule local_scripted.prepare_session_again [OF assms(1,2) _ assms(4)])
qed

abbreviation demo_libs :: "string server_libs" where
  "demo_libs \<equiv> \<lparr>lib_sha = (\<lambda>bytes. bytes), lib_to_vec = (\<lambda>_. Inr [123, 125]), lib_ser = demo_ser, lib_url_scheme = (\<lambda>_. None),
     lib_urls = demo_urls, lib_sink_builds = True, lib_resolve = gateway_resolver demo_tts_codecs demo_urls demo_tts_http\<rparr>"

abbreviation demo_request :: PrepareSessionRequest where
  "demo_request \<equiv> \<lparr>rq_organization_id = ''org_01JABCDEF'', rq_project_id = ''prj_01JABCDEF'', rq_deployment_id = ''dep_01JABCDEF'',
     rq_session_id = ''ses_01JABCDEF'', rq_runtime_generation = 1, rq_manifest = demo_cloud_manifest,
     rq_runtime_ingest_url = ''https://h/'', rq_runtime_ingest_token = replicate 32 (CHR ''a'')\<rparr>"

lemma demo_session_preparation: "\<exists>p. session_preparation demo_libs ''7'' demo_request = Inr p \<and>
   prep_context p = request_context ''7'' demo_request \<and> prep_manifest p = demo_cloud_manifest \<and>
   runtime_service_access p = Some (demo_access\<lparr>access_context := request_context ''7'' demo_request\<rparr>)"
proof -
  have "context_validate (request_context ''7'' demo_request) = Inr ()"
    by (simp add: request_context_def context_validate_ok ident_eval)
  then show ?thesis using demo_cloud_valid
    by (simp add: session_preparation_def Let_def andR_def http_event_sink_new_def from_ingest_def needs_runtime_services_def
        preparation_fingerprint_def ascii_defs list_all_iff)
qed

lemma demo_created: "\<exists>reply s'. prepare_session demo_libs ''7'' 0 demo_request demo_shard = (reply, s') \<and> reply_status reply = 201"
proof -
  obtain p where p: "session_preparation demo_libs ''7'' demo_request = Inr p" "prep_context p = request_context ''7'' demo_request"
    "prep_manifest p = demo_cloud_manifest" "runtime_service_access p = Some (demo_access\<lparr>access_context := request_context ''7'' demo_request\<rparr>)"
    using demo_session_preparation by blast
  have c: "context_validate (request_context ''7'' demo_request) = Inr ()"
    by (simp add: request_context_def context_validate_ok ident_eval)
  have "\<exists>ps. gateway_resolver demo_tts_codecs demo_urls demo_tts_http demo_cloud_manifest (Some demo_access) = Inr ps"
    by (rule demo_resolved) (simp add: gateway_resolver_def)
  then obtain ps where ps: "lib_resolve demo_libs demo_cloud_manifest (Some (demo_access\<lparr>access_context := request_context ''7'' demo_request\<rparr>)) = Inr ps"
    using gw_resolver.context_ignored by fastforce
  have v: "config_validate (prepared_config (shard_session (sup_config demo_shard)) demo_cloud_manifest) = Inr ()"
    by (simp add: config_validate_def prepared_config_def default_shard_config_def default_config_def default_limits_def
        from_secs_def Let_def)
  have "fst (prepare demo_ser (\<lambda>_. None) (lib_resolve demo_libs) 0 p demo_shard) = Inr Created"
    using p(2-4) c ps v demo_cloud_valid
    by (simp add: prepare_def prepare_checks_def prepare_reserve_def errorE_defs lock_sessions_def lock_prepared_def reap_def
      saturating_add_def default_shard_config_def clock_eval)
  then show ?thesis using p(1)
    by (auto simp: prepare_session_def respond_def errorE_defs split: prod.splits)
qed

theorem prepare_session_is_idempotent_witness:
  "\<exists>reply s'. prepare_session demo_libs ''7'' 0 demo_request demo_shard = (reply, s') \<and> reply_status reply = 201 \<and>
     prepare_session demo_libs ''8'' 5 demo_request s' = (reply\<lparr>reply_status := 200\<rparr>, s')"
proof -
  obtain reply s' where c: "prepare_session demo_libs ''7'' 0 demo_request demo_shard = (reply, s')" "reply_status reply = 201"
    using demo_created by blast
  have "lib_resolve demo_libs = gateway_resolver demo_tts_codecs demo_urls demo_tts_http" by simp
  from prepare_session_is_idempotent [OF c disjI1 [OF this], of "''8''" 5] c show ?thesis by auto
qed

subsection \<open>Fingerprints\<close>

lemma u64_to_be_bytes_length [simp]: "length (u64_to_be_bytes n) = 8"
  by (simp add: u64_to_be_bytes_def)

lemma digits_inject:
  "a < b ^ k \<Longrightarrow> a' < b ^ k \<Longrightarrow> (\<And>i. i < k \<Longrightarrow> a div b ^ i mod b = a' div b ^ i mod b) \<Longrightarrow> a = (a' :: nat)"
proof (induction k arbitrary: a a')
  case (Suc k)
  have "a div b div b ^ i mod b = a' div b div b ^ i mod b" if "i < k" for i
    using Suc.prems(3) [of "Suc i"] that by (simp add: div_mult2_eq)
  moreover have "a div b < b ^ k" "a' div b < b ^ k"
    using Suc.prems(1,2) by (auto simp: less_mult_imp_div_less mult.commute)
  ultimately have "a div b = a' div b" using Suc.IH by blast
  moreover have "a mod b = a' mod b" using Suc.prems(3) [of 0] by simp
  ultimately show ?case by (metis div_mult_mod_eq)
qed simp

lemma u64_to_be_bytes_inject:
  assumes "u64_to_be_bytes a = u64_to_be_bytes b" and "a \<le> u64_max" and "b \<le> u64_max"
  shows "a = b"
proof (rule digits_inject [of _ 256 8])
  fix i :: nat
  assume i: "i < 8"
  have nth: "u64_to_be_bytes n ! (7 - i) = of_nat (n div 256 ^ i)" for n
    using i nth_upt [of 0 "7 - i" 8] by (simp add: u64_to_be_bytes_def)
  have "(of_nat (a div 256 ^ i) :: byte) = of_nat (b div 256 ^ i)" using nth [of a] nth [of b] assms(1) by simp
  then have "unat (of_nat (a div 256 ^ i) :: byte) = unat (of_nat (b div 256 ^ i) :: byte)" by simp
  then show "a div 256 ^ i mod 256 = b div 256 ^ i mod 256" by (simp add: unat_of_nat)
qed (use assms(2,3) in \<open>simp_all add: u64_max_def\<close>)

text \<open>Every part stands behind its length, so the parts can be read back.\<close>

lemma hash_input_inject:
  "hash_input ps = hash_input qs \<Longrightarrow> length ps = length qs \<Longrightarrow>
   list_all (\<lambda>p. length p \<le> u64_max) ps \<Longrightarrow> list_all (\<lambda>p. length p \<le> u64_max) qs \<Longrightarrow> ps = qs"
proof (induction ps arbitrary: qs)
  case (Cons p ps)
  then obtain q qs' where qs: "qs = q # qs'" by (cases qs) auto
  have eq: "u64_to_be_bytes (length p) @ p @ hash_input ps = u64_to_be_bytes (length q) @ q @ hash_input qs'"
    using Cons.prems(1) qs by (simp add: hash_input_def)
  then have "u64_to_be_bytes (length p) = u64_to_be_bytes (length q)" and rest: "p @ hash_input ps = q @ hash_input qs'"
    by simp_all
  then have "length p = length q" using u64_to_be_bytes_inject Cons.prems(3,4) qs by simp
  with rest have "p = q" "hash_input ps = hash_input qs'" by simp_all
  with Cons qs show ?case by simp
qed simp

lemma string_to_bytes_inject: "string_to_bytes a = string_to_bytes b \<Longrightarrow> a = b"
proof -
  have "inj (\<lambda>c. of_nat (of_char c) :: byte)"
  proof (rule injI)
    fix c d :: char
    assume "(of_nat (of_char c) :: byte) = of_nat (of_char d)"
    then have "unat (of_nat (of_char c) :: byte) = unat (of_nat (of_char d) :: byte)" by simp
    then have "(of_char c :: nat) = of_char d" by (simp add: unat_of_nat)
    then show "c = d" by simp
  qed
  then show "string_to_bytes a = string_to_bytes b \<Longrightarrow> a = b" unfolding string_to_bytes_def by simp
qed

text \<open>The part lists a request has the hasher digest: that of the ingest capability and that of the preparation.\<close>

definition hashed_parts :: "'u server_libs \<Rightarrow> PrepareSessionRequest \<Rightarrow> byte list list list" where
  "hashed_parts L r =
     (let url_parts = [string_to_bytes (rq_runtime_ingest_url r), string_to_bytes (rq_runtime_ingest_token r)] in
      case lib_to_vec L (rq_manifest r) of
        Inl _ \<Rightarrow> [url_parts]
      | Inr json \<Rightarrow> [url_parts, preparation_parts (request_context [] r) json (hash_parts (lib_sha L) url_parts)])"

lemma fingerprint_hashed:
  assumes "session_preparation L uuid r = Inr p"
  shows "\<exists>json. lib_to_vec L (rq_manifest r) = Inr json \<and>
    prep_fingerprint p = lib_sha L (hash_input (hashed_parts L r ! 1)) \<and>
    hashed_parts L r = [[string_to_bytes (rq_runtime_ingest_url r), string_to_bytes (rq_runtime_ingest_token r)],
      preparation_parts (request_context [] r) json (prep_attachment_fingerprint p)] \<and>
    prep_attachment_fingerprint p = lib_sha L (hash_input (hashed_parts L r ! 0))"
  using assms
  by (auto simp: session_preparation_def hashed_parts_def Let_def andR_def preparation_fingerprint_def preparation_parts_def
      request_context_def attachment_fingerprint_def hash_parts_def split: sum.splits if_splits)

text \<open>
  C38 (safety). Where the hash function has no collision on the hashed inputs, two preparations
  with the same fingerprint come from requests for the same organization, project, deployment,
  session, generation, serialised manifest, ingest URL and ingest token: every part is hashed
  behind its length, so no two requests are confused.
\<close>

theorem fingerprint_identifies_preparation:
  fixes L :: "'u server_libs" and r1 r2 :: PrepareSessionRequest
  assumes "session_preparation L uuid1 r1 = Inr p1" and "session_preparation L uuid2 r2 = Inr p2"
    and "inj_on (lib_sha L) (hash_input ` (set (hashed_parts L r1) \<union> set (hashed_parts L r2)))"
    and "\<forall>parts \<in> set (hashed_parts L r1) \<union> set (hashed_parts L r2). \<forall>part \<in> set parts. length part \<le> u64_max"
    and "rq_runtime_generation r1 \<le> u64_max" and "rq_runtime_generation r2 \<le> u64_max"
    and "prep_fingerprint p1 = prep_fingerprint p2"
  shows "rq_organization_id r1 = rq_organization_id r2 \<and> rq_project_id r1 = rq_project_id r2 \<and>
    rq_deployment_id r1 = rq_deployment_id r2 \<and> rq_session_id r1 = rq_session_id r2 \<and>
    rq_runtime_generation r1 = rq_runtime_generation r2 \<and>
    lib_to_vec L (rq_manifest r1) = lib_to_vec L (rq_manifest r2) \<and>
    rq_runtime_ingest_url r1 = rq_runtime_ingest_url r2 \<and> rq_runtime_ingest_token r1 = rq_runtime_ingest_token r2"
proof -
  obtain j1 where h1: "lib_to_vec L (rq_manifest r1) = Inr j1" "prep_fingerprint p1 = lib_sha L (hash_input (hashed_parts L r1 ! 1))"
    "hashed_parts L r1 = [[string_to_bytes (rq_runtime_ingest_url r1), string_to_bytes (rq_runtime_ingest_token r1)],
      preparation_parts (request_context [] r1) j1 (prep_attachment_fingerprint p1)]"
    "prep_attachment_fingerprint p1 = lib_sha L (hash_input (hashed_parts L r1 ! 0))"
    using fingerprint_hashed [OF assms(1)] by blast
  obtain j2 where h2: "lib_to_vec L (rq_manifest r2) = Inr j2" "prep_fingerprint p2 = lib_sha L (hash_input (hashed_parts L r2 ! 1))"
    "hashed_parts L r2 = [[string_to_bytes (rq_runtime_ingest_url r2), string_to_bytes (rq_runtime_ingest_token r2)],
      preparation_parts (request_context [] r2) j2 (prep_attachment_fingerprint p2)]"
    "prep_attachment_fingerprint p2 = lib_sha L (hash_input (hashed_parts L r2 ! 0))"
    using fingerprint_hashed [OF assms(2)] by blast
  have same: "hashed_parts L r1 ! i = hashed_parts L r2 ! i"
    if "i < 2" "lib_sha L (hash_input (hashed_parts L r1 ! i)) = lib_sha L (hash_input (hashed_parts L r2 ! i))" for i
  proof (rule hash_input_inject)
    have "hashed_parts L r1 ! i \<in> set (hashed_parts L r1)" "hashed_parts L r2 ! i \<in> set (hashed_parts L r2)"
      using nth_mem [of i "hashed_parts L r1"] nth_mem [of i "hashed_parts L r2"] that(1) by (simp_all add: h1(3) h2(3))
    then show "hash_input (hashed_parts L r1 ! i) = hash_input (hashed_parts L r2 ! i)"
      "list_all (\<lambda>p. length p \<le> u64_max) (hashed_parts L r1 ! i)" "list_all (\<lambda>p. length p \<le> u64_max) (hashed_parts L r2 ! i)"
      using that(2) assms(3,4) by (auto simp: list_all_iff dest: inj_onD)
    show "length (hashed_parts L r1 ! i) = length (hashed_parts L r2 ! i)"
      using that(1) by (cases i) (simp_all add: h1(3) h2(3) preparation_parts_def)
  qed
  have "hashed_parts L r1 ! 1 = hashed_parts L r2 ! 1" using same [of 1] assms(7) h1(2) h2(2) by simp
  then have p: "preparation_parts (request_context [] r1) j1 (prep_attachment_fingerprint p1) =
      preparation_parts (request_context [] r2) j2 (prep_attachment_fingerprint p2)" by (simp add: h1(3) h2(3))
  then have "prep_attachment_fingerprint p1 = prep_attachment_fingerprint p2" by (simp add: preparation_parts_def)
  then have "hashed_parts L r1 ! 0 = hashed_parts L r2 ! 0" using same [of 0] h1(4) h2(4) by simp
  with p h1(1,3) h2(1,3) assms(5,6) show ?thesis
    by (auto simp: preparation_parts_def request_context_def dest!: string_to_bytes_inject u64_to_be_bytes_inject)
qed

lemma demo_hashed_small:
  "\<forall>parts \<in> set (hashed_parts demo_libs demo_request). \<forall>part \<in> set parts. length part \<le> u64_max"
  by (simp add: hashed_parts_def preparation_parts_def request_context_def string_to_bytes_def hash_parts_def hash_input_def u64_max_def)

theorem fingerprint_identifies_preparation_witness:
  "\<exists>p q. session_preparation demo_libs ''7'' demo_request = Inr p \<and> session_preparation demo_libs ''8'' demo_request = Inr q \<and>
     prep_fingerprint p = prep_fingerprint q \<and> inj (lib_sha demo_libs) \<and>
     rq_runtime_ingest_token demo_request = replicate 32 (CHR ''a'')"
proof -
  obtain p where p: "session_preparation demo_libs ''7'' demo_request = Inr p" using demo_session_preparation by blast
  then obtain q where q: "session_preparation demo_libs ''8'' demo_request = Inr q" "prep_fingerprint p = prep_fingerprint q"
    using session_preparation_again [OF p, of "''8''"] by auto
  have "inj_on (lib_sha demo_libs) A" for A by (simp add: inj_on_def)
  from fingerprint_identifies_preparation [OF p q(1) this _ _ _ q(2)] demo_hashed_small
  have "rq_runtime_ingest_token demo_request = rq_runtime_ingest_token demo_request" by (simp add: u64_max_def)
  with p q show ?thesis by (auto simp: inj_def)
qed

end
