(* ===== verification/Probe.thy ===== *)
theory Probe
  imports ServerGuarantees
begin

text \<open>
  The readiness probe of the command line (\<open>probe.rs\<close>): a client for one request, with a strict
  parser of the reply, and what it says about the shard whose readiness handler it asks. The socket
  is a parameter; the JSON parser of the body is \<open>from_slice\<close>.
\<close>

definition MAX_HEADER_BYTES :: nat where
  "MAX_HEADER_BYTES = 8 * 1024"

definition MAX_RESPONSE_BYTES :: nat where
  "MAX_RESPONSE_BYTES = 16 * 1024"

definition MIN_TIMEOUT :: duration where
  "MIN_TIMEOUT = from_millis 50"

definition MAX_TIMEOUT :: duration where
  "MAX_TIMEOUT = from_secs 10"

record ReadinessLoad =
  rl_boot_id :: string
  rl_accepting :: bool
  rl_draining :: bool
  rl_available_sessions :: usize

record ReadinessContract =
  rc_status :: string
  rc_boot_id :: string
  rc_load :: ReadinessLoad

subsection \<open>Strings\<close>

text \<open>\<open>windows(n).position\<close>, \<open>split("\r\n")\<close>, \<open>splitn(3, ' ')\<close> and \<open>eq_ignore_ascii_case\<close>.\<close>

fun window_position :: "'a list \<Rightarrow> 'a list \<Rightarrow> nat option" where
  "window_position w [] = None"
| "window_position w (x # xs) = (if take (length w) (x # xs) = w then Some 0 else map_option Suc (window_position w xs))"

abbreviation (input) CR :: char where
  "CR \<equiv> CHR 0x0D"

abbreviation (input) LF :: char where
  "LF \<equiv> CHR 0x0A"

fun split_crlf :: "string \<Rightarrow> string list" where
  "split_crlf [] = [[]]"
| "split_crlf [c] = [[c]]"
| "split_crlf (c # d # cs) =
     (if c = CR \<and> d = LF then [] # split_crlf cs
      else case split_crlf (d # cs) of [] \<Rightarrow> [[c]] | l # ls \<Rightarrow> (c # l) # ls)"

definition splitn_3 :: "char \<Rightarrow> string \<Rightarrow> string \<times> string \<times> string" where
  "splitn_3 d s =
     (case split_once d s of
        None \<Rightarrow> (s, [], [])
      | Some (a, r) \<Rightarrow> (case split_once d r of None \<Rightarrow> (a, r, []) | Some (b, c) \<Rightarrow> (a, b, c)))"

definition to_ascii_lowercase :: "string \<Rightarrow> string" where
  "to_ascii_lowercase = map (\<lambda>c. if is_ascii_uppercase c then char_of (byte_of c + 32) else c)"

definition eq_ignore_ascii_case :: "string \<Rightarrow> string \<Rightarrow> bool" where
  "eq_ignore_ascii_case a b \<longleftrightarrow> to_ascii_lowercase a = to_ascii_lowercase b"

definition is_header_name :: "string \<Rightarrow> bool" where
  "is_header_name name \<longleftrightarrow>
     name \<noteq> [] \<and>
     list_all (\<lambda>c. is_ascii_alphanumeric c \<or>
       c \<in> {CHR ''!'', CHR ''#'', CHR ''$'', CHR ''%'', CHR ''&'', CHR 0x27, CHR ''*'', CHR ''+'', CHR ''-'', CHR ''.'',
         CHR 0x5E, CHR ''_'', CHR 0x60, CHR ''|'', CHR ''~''}) name"

subsection \<open>The parser of the reply\<close>

definition probe_status :: "string \<Rightarrow> string + unit" where
  "probe_status status_line =
     (case splitn_3 (CHR '' '') status_line of (http_version, status, reason) \<Rightarrow>
        if http_version \<noteq> ''HTTP/1.1'' \<or> length status \<noteq> 3 \<or> \<not> list_all is_ascii_digit status \<or> reason = []
        then Inl ''runtime readiness response has a malformed HTTP/1.1 status line''
        else if status \<noteq> ''200'' then Inl (''runtime readiness endpoint returned HTTP '' @ status)
        else Inr ())"

fun probe_headers :: "string list \<Rightarrow> nat option \<Rightarrow> string option \<Rightarrow> string + nat option \<times> string option" where
  "probe_headers [] content_length content_type = Inr (content_length, content_type)"
| "probe_headers (l # ls) content_length content_type =
     (if l = [] \<or> hd l \<in> {CHR '' '', CHR 0x09} then Inl ''runtime readiness response has a malformed HTTP header''
      else case split_once (CHR '':'') l of
        None \<Rightarrow> Inl ''runtime readiness response has a malformed HTTP header''
      | Some (name, raw) \<Rightarrow>
          if \<not> is_header_name name then Inl ''runtime readiness response has an invalid HTTP header name''
          else let v = trim raw in
            if eq_ignore_ascii_case name ''content-length''
            then if content_length \<noteq> None then Inl ''runtime readiness response has duplicate content-length headers''
              else (case parse_u64 v of
                  None \<Rightarrow> Inl ''runtime readiness response has an invalid content-length''
                | Some n \<Rightarrow> probe_headers ls (Some n) content_type)
            else if eq_ignore_ascii_case name ''content-type''
            then if content_type \<noteq> None then Inl ''runtime readiness response has duplicate content-type headers''
              else probe_headers ls content_length (Some v)
            else if eq_ignore_ascii_case name ''transfer-encoding''
            then Inl ''runtime readiness response cannot use transfer encoding''
            else probe_headers ls content_length content_type)"

definition contract_ready :: "ReadinessContract \<Rightarrow> bool" where
  "contract_ready r \<longleftrightarrow>
     \<not> (rc_status r \<noteq> ''ready'' \<or> rc_boot_id r = [] \<or> rc_boot_id r \<noteq> rl_boot_id (rc_load r) \<or> \<not> rl_accepting (rc_load r)
        \<or> rl_draining (rc_load r) \<or> rl_available_sessions (rc_load r) = 0)"

definition probe_body :: "(byte list \<Rightarrow> ReadinessContract option) \<Rightarrow> byte list \<Rightarrow> nat option \<Rightarrow> string option \<Rightarrow> string + unit" where
  "probe_body from_slice body content_length content_type =
     (case content_length of
        None \<Rightarrow> Inl ''runtime readiness response is missing content-length''
      | Some n \<Rightarrow>
          if length body \<noteq> n then Inl ''runtime readiness response body length does not match content-length''
          else case content_type of
            None \<Rightarrow> Inl ''runtime readiness response is missing content-type''
          | Some t \<Rightarrow>
              if \<not> eq_ignore_ascii_case (trim (hd (split_on (CHR '';'') t))) ''application/json''
              then Inl ''runtime readiness response is not application/json''
              else case from_slice body of
                None \<Rightarrow> Inl ''runtime readiness response is not valid JSON''
              | Some r \<Rightarrow>
                  if \<not> contract_ready r then Inl ''runtime readiness response does not satisfy the ready contract''
                  else Inr ())"

definition validate_response :: "(byte list \<Rightarrow> ReadinessContract option) \<Rightarrow> byte list \<Rightarrow> string + unit" where
  "validate_response from_slice response =
     (case window_position [13, 10, 13, 10] response of
        None \<Rightarrow> Inl ''runtime readiness response has malformed HTTP headers''
      | Some header_end \<Rightarrow>
          if header_end > MAX_HEADER_BYTES then Inl ''runtime readiness response headers exceeded 8192 bytes''
          else let header = bytes_to_string (take header_end response) in
            if \<not> valid_utf8 header then Inl ''runtime readiness response headers are not valid UTF-8''
            else case split_crlf header of
              [] \<Rightarrow> Inl ''runtime readiness response is missing an HTTP status line''
            | status_line # ls \<Rightarrow>
                (case probe_status status_line of
                   Inl e \<Rightarrow> Inl e
                 | Inr _ \<Rightarrow>
                     (case probe_headers ls None None of
                        Inl e \<Rightarrow> Inl e
                      | Inr (content_length, content_type) \<Rightarrow>
                          probe_body from_slice (drop (header_end + 4) response) content_length content_type)))"

subsection \<open>The exchange\<close>

text \<open>How the socket behaves, up to what the peer sends before it closes.\<close>

record probe_io =
  io_connects :: bool
  io_writes :: bool
  io_flushes :: bool
  io_received :: "byte list option"

definition exchange :: "(byte list \<Rightarrow> ReadinessContract option) \<Rightarrow> string \<Rightarrow> probe_io \<Rightarrow> string + unit" where
  "exchange from_slice address io =
     (if \<not> io_connects io then Inl (''failed to connect to runtime at '' @ address)
      else if \<not> io_writes io then Inl ''failed to send runtime readiness request''
      else if \<not> io_flushes io then Inl ''failed to flush runtime readiness request''
      else case io_received io of
        None \<Rightarrow> Inl ''failed to read runtime readiness response''
      | Some bytes \<Rightarrow>
          let response = take (MAX_RESPONSE_BYTES + 1) bytes in
          if length response > MAX_RESPONSE_BYTES then Inl ''runtime readiness response exceeded 16384 bytes''
          else validate_response from_slice response)"

text \<open>\<open>in_time\<close>: the exchange ends before the deadline.\<close>

definition probe_run ::
  "(byte list \<Rightarrow> ReadinessContract option) \<Rightarrow> string \<Rightarrow> bool \<Rightarrow> duration \<Rightarrow> bool \<Rightarrow> probe_io \<Rightarrow> string + unit" where
  "probe_run from_slice address loopback limit in_time io =
     (if \<not> loopback then Inl ''probe address must use an IPv4 or IPv6 loopback address''
      else if \<not> (MIN_TIMEOUT \<le> limit \<and> limit \<le> MAX_TIMEOUT)
      then Inl ''probe timeout must be between 50 and 10000 milliseconds''
      else if \<not> in_time
      then Inl (''runtime readiness probe timed out after '' @ string_of_nat (limit div 1000000) @ '' milliseconds'')
      else exchange from_slice address io)"

subsection \<open>The reply on the wire\<close>

text \<open>
  How the HTTP library writes a reply: the status line, one line per header and the body. \<open>headers_ok\<close>:
  header names are names, values are visible ASCII or blanks, no name occurs twice, the body is JSON of the given
  length and is not chunked.
\<close>

definition header_line :: "string \<times> string \<Rightarrow> string" where
  "header_line h = fst h @ '': '' @ snd h"

definition http_header :: "string \<Rightarrow> string \<Rightarrow> (string \<times> string) list \<Rightarrow> string" where
  "http_header status reason hs =
     (''HTTP/1.1 '' @ status @ '' '' @ reason) @ concat (map (\<lambda>h. CR # LF # header_line h) hs)"

definition http_wire :: "string \<Rightarrow> string \<Rightarrow> (string \<times> string) list \<Rightarrow> byte list \<Rightarrow> byte list" where
  "http_wire status reason hs body = string_to_bytes (http_header status reason hs) @ [13, 10, 13, 10] @ body"

definition printable :: "string \<Rightarrow> bool" where
  "printable s \<longleftrightarrow> list_all (\<lambda>c. 32 \<le> byte_of c \<and> byte_of c \<le> (126::nat)) s"

definition headers_ok :: "(string \<times> string) list \<Rightarrow> nat \<Rightarrow> bool" where
  "headers_ok hs n \<longleftrightarrow>
     list_all (\<lambda>h. is_header_name (fst h) \<and> printable (snd h)) hs \<and> distinct (map (\<lambda>h. to_ascii_lowercase (fst h)) hs) \<and>
     map_of (map (\<lambda>h. (to_ascii_lowercase (fst h), snd h)) hs) ''content-length'' = Some (string_of_nat n) \<and>
     map_of (map (\<lambda>h. (to_ascii_lowercase (fst h), snd h)) hs) ''content-type'' = Some ''application/json'' \<and>
     map_of (map (\<lambda>h. (to_ascii_lowercase (fst h), snd h)) hs) ''transfer-encoding'' = None"

lemma bytes_round [simp]: "bytes_to_string (string_to_bytes s) = s"
  by (induction s) (simp_all add: bytes_to_string_def string_to_bytes_def unat_of_nat)

lemma string_to_bytes_append [simp]: "string_to_bytes (a @ b) = string_to_bytes a @ string_to_bytes b"
  "string_to_bytes (c # b) = of_nat (of_char c) # string_to_bytes b" "string_to_bytes [] = []" "length (string_to_bytes a) = length a"
  by (simp_all add: string_to_bytes_def)

lemma header_name_char:
  assumes "is_header_name k" "c \<in> set k"
  shows "c \<noteq> CHR '':'' \<and> 33 \<le> byte_of c \<and> byte_of c \<le> (126::nat)"
  using assms by (auto simp: is_header_name_def list_all_iff ascii_defs less_eq_char_def)

lemma printable_header_line:
  "is_header_name (fst h) \<Longrightarrow> printable (snd h) \<Longrightarrow> printable (header_line h) \<and> header_line h \<noteq> []"
  using header_name_char [of "fst h"] by (force simp: printable_def header_line_def list_all_iff)

lemma printable_no_cr: "printable l \<Longrightarrow> CR \<notin> set l"
  by (auto simp: printable_def list_all_iff)

subsection \<open>Cutting the header\<close>

lemma window_skip:
  "(\<forall>x \<in> set l. x \<noteq> 13) \<Longrightarrow>
   window_position [13, 10, 13, 10] (l @ r) = map_option ((+) (length l)) (window_position [13, 10, 13, (10::byte)] r)"
  by (induction l) (auto simp: option.map_comp option.map_ident_strong intro!: option.map_cong)

lemma no_cr_bytes: "CR \<notin> set l \<Longrightarrow> \<forall>x \<in> set (string_to_bytes l). x \<noteq> 13"
proof
  fix x
  assume l: "CR \<notin> set l" and "x \<in> set (string_to_bytes l)"
  then obtain c where c: "c \<in> set l" "x = of_nat (of_char c)" by (auto simp: string_to_bytes_def)
  have "string_to_bytes [c] \<noteq> string_to_bytes [CR]" using string_to_bytes_inject [of "[c]" "[CR]"] l c(1) by auto
  with c(2) show "x \<noteq> 13" by simp
qed

lemma window_header:
  "CR \<notin> set l \<Longrightarrow> \<forall>m \<in> set ls. CR \<notin> set m \<and> m \<noteq> [] \<Longrightarrow>
   window_position [13, 10, 13, 10] (string_to_bytes (l @ concat (map (\<lambda>m. CR # LF # m) ls)) @ [13, 10, 13, 10] @ body) =
     Some (length (l @ concat (map (\<lambda>m. CR # LF # m) ls)))"
proof (induction ls arbitrary: l)
  case Nil
  then show ?case using window_skip [OF no_cr_bytes [of l]] by simp
next
  case (Cons m ls)
  let ?rest = "string_to_bytes (m @ concat (map (\<lambda>m. CR # LF # m) ls)) @ [13, 10, 13, 10] @ body"
  obtain c cs where m: "m = c # cs" "of_nat (of_char c) \<noteq> (13 :: byte)"
    using Cons.prems(2) no_cr_bytes [of m] by (cases m) auto
  have "window_position [13, 10, 13, 10] ?rest = Some (length (m @ concat (map (\<lambda>m. CR # LF # m) ls)))"
    using Cons by simp
  then have "window_position [13, 10, 13, 10] (13 # 10 # ?rest) = Some (length (m @ concat (map (\<lambda>m. CR # LF # m) ls)) + 2)"
    using m by simp
  then show ?case using window_skip [OF no_cr_bytes [OF Cons.prems(1)]] by simp
qed

lemma split_crlf_line: "CR \<notin> set l \<Longrightarrow> split_crlf l = [l]"
  "CR \<notin> set l \<Longrightarrow> split_crlf (l @ CR # LF # r) = l # split_crlf r"
proof -
  show "CR \<notin> set l \<Longrightarrow> split_crlf l = [l]" by (induction l rule: split_crlf.induct) auto
  show "CR \<notin> set l \<Longrightarrow> split_crlf (l @ CR # LF # r) = l # split_crlf r"
  proof (induction l)
    case (Cons c l)
    then show ?case by (cases "l @ CR # LF # r") auto
  qed simp
qed

lemma split_crlf_header:
  "CR \<notin> set l \<Longrightarrow> \<forall>m \<in> set ls. CR \<notin> set m \<Longrightarrow> split_crlf (l @ concat (map (\<lambda>m. CR # LF # m) ls)) = l # ls"
  by (induction ls arbitrary: l) (simp_all add: split_crlf_line)

subsection \<open>Reading the headers\<close>

lemma utf8_chars_ascii_string:
  "\<forall>c \<in> set s. byte_of c < (128::nat) \<Longrightarrow> utf8_chars s = map (\<lambda>c. [c]) s"
proof (induction s)
  case (Cons c s)
  then have "utf8_chars s = map (\<lambda>c. [c]) s" by simp
  with Cons.prems show ?case by (cases s) (auto simp: is_continuation_def)
qed simp

lemma valid_utf8_ascii: "\<forall>c \<in> set s. byte_of c < (128::nat) \<Longrightarrow> valid_utf8 s"
  by (force simp: valid_utf8_def utf8_chars_ascii_string list_all_iff byte_in_def)

lemma trim_visible:
  assumes v: "\<forall>c \<in> set v. 33 \<le> byte_of c \<and> byte_of c \<le> (126::nat)"
  shows "trim v = v" "trim (CHR '' '' # v) = v"
proof -
  have "utf8_chars v = map (\<lambda>c. [c]) v" "utf8_chars (CHR '' '' # v) = map (\<lambda>c. [c]) (CHR '' '' # v)"
    using v by (intro utf8_chars_ascii_string; force)+
  moreover have "dropWhile char_is_whitespace (map (\<lambda>c. [c]) w) = map (\<lambda>c. [c]) w" if "set w \<subseteq> set v" for w
  proof (cases w)
    case (Cons c w')
    then have "33 \<le> byte_of c" using v that by auto
    with Cons show ?thesis by (simp add: char_is_whitespace_def)
  qed simp
  from this [of v] this [of "rev v"]
  have "dropWhile char_is_whitespace (map (\<lambda>c. [c]) v) = map (\<lambda>c. [c]) v"
    "dropWhile char_is_whitespace (rev (map (\<lambda>c. [c]) v)) = rev (map (\<lambda>c. [c]) v)" by (simp_all add: rev_map)
  moreover have "char_is_whitespace '' ''" by (simp add: char_is_whitespace_def)
  moreover have "concat (map (\<lambda>c. [c]) v) = v" by (induction v) simp_all
  ultimately show "trim v = v" "trim (CHR '' '' # v) = v" by (simp_all add: trim_def trim_start_chars_def)
qed

lemma parse_u64_string_of_nat: "n \<le> u64_max \<Longrightarrow> parse_u64 (string_of_nat n) = Some n"
proof -
  have d: "\<forall>c \<in> set (string_of_nat n). is_ascii_digit c \<and> c \<noteq> CHR ''+''"
    using string_of_nat_digits [of _ n] by (force simp: is_ascii_digit_def less_eq_char_def)
  assume "n \<le> u64_max"
  then show ?thesis
    using d string_of_nat_value [of n]
    by (cases "string_of_nat n") (auto simp: parse_u64_def list_all_iff)
qed

lemma split_header_line: "is_header_name (fst h) \<Longrightarrow> split_once (CHR '':'') (header_line h) = Some (fst h, CHR '' '' # snd h)"
proof -
  have "CHR '':'' \<notin> set k \<Longrightarrow> split_once (CHR '':'') (k @ CHR '':'' # r) = Some (k, r)" for k r by (induction k) auto
  then show "is_header_name (fst h) \<Longrightarrow> ?thesis" using header_name_char by (fastforce simp: header_line_def)
qed

lemma lower_names:
  "to_ascii_lowercase ''content-length'' = ''content-length''" "to_ascii_lowercase ''content-type'' = ''content-type''"
  "to_ascii_lowercase ''transfer-encoding'' = ''transfer-encoding''" "to_ascii_lowercase ''application/json'' = ''application/json''"
  by (simp_all add: to_ascii_lowercase_def ascii_defs less_eq_char_def)

lemma probe_headers_read:
  assumes "distinct (map (\<lambda>h. to_ascii_lowercase (fst h)) hs)"
    and "\<forall>h \<in> set hs. is_header_name (fst h) \<and> to_ascii_lowercase (fst h) \<noteq> ''transfer-encoding'' \<and>
      (to_ascii_lowercase (fst h) = ''content-length'' \<longrightarrow> c = None \<and> parse_u64 (trim (CHR '' '' # snd h)) = Some n) \<and>
      (to_ascii_lowercase (fst h) = ''content-type'' \<longrightarrow> d = None \<and> trim (CHR '' '' # snd h) = t)"
  shows "probe_headers (map header_line hs) c d =
    Inr (if ''content-length'' \<in> (\<lambda>h. to_ascii_lowercase (fst h)) ` set hs then Some n else c,
         if ''content-type'' \<in> (\<lambda>h. to_ascii_lowercase (fst h)) ` set hs then Some t else d)"
  using assms
proof (induction hs arbitrary: c d)
  case (Cons h hs)
  let ?k = "to_ascii_lowercase (fst h)"
  have name: "is_header_name (fst h)" using Cons.prems(2) by simp
  have line: "header_line h \<noteq> []" "hd (header_line h) \<notin> {CHR '' '', CHR 0x09}"
    using name header_name_char [OF name, of "hd (fst h)"] by (auto simp: header_line_def is_header_name_def)
  have tail: "?k \<notin> (\<lambda>h. to_ascii_lowercase (fst h)) ` set hs" using Cons.prems(1) by auto
  consider "?k = ''content-length''" | "?k = ''content-type''" | "?k \<noteq> ''content-length''" "?k \<noteq> ''content-type''" by blast
  then show ?case
  proof cases
    case 1
    with tail have other: "\<forall>x \<in> set hs. to_ascii_lowercase (fst x) \<noteq> ''content-length''" by force
    then have "''content-length'' \<notin> (\<lambda>h. to_ascii_lowercase (fst h)) ` set hs" by force
    moreover have "probe_headers (map header_line hs) (Some n) d =
        Inr (if ''content-length'' \<in> (\<lambda>h. to_ascii_lowercase (fst h)) ` set hs then Some n else Some n,
          if ''content-type'' \<in> (\<lambda>h. to_ascii_lowercase (fst h)) ` set hs then Some t else d)"
      by (rule Cons.IH) (use Cons.prems other in simp_all)
    ultimately have "probe_headers (map header_line hs) (Some n) d =
        Inr (Some n, if ''content-type'' \<in> (\<lambda>h. to_ascii_lowercase (fst h)) ` set hs then Some t else d)" by simp
    with 1 Cons.prems(2) line name show ?thesis by (simp add: split_header_line eq_ignore_ascii_case_def lower_names)
  next
    case 2
    with tail have other: "\<forall>x \<in> set hs. to_ascii_lowercase (fst x) \<noteq> ''content-type''" by force
    then have "''content-type'' \<notin> (\<lambda>h. to_ascii_lowercase (fst h)) ` set hs" by force
    moreover have "probe_headers (map header_line hs) c (Some t) =
        Inr (if ''content-length'' \<in> (\<lambda>h. to_ascii_lowercase (fst h)) ` set hs then Some n else c,
          if ''content-type'' \<in> (\<lambda>h. to_ascii_lowercase (fst h)) ` set hs then Some t else Some t)"
      by (rule Cons.IH) (use Cons.prems other in simp_all)
    ultimately have "probe_headers (map header_line hs) c (Some t) =
        Inr (if ''content-length'' \<in> (\<lambda>h. to_ascii_lowercase (fst h)) ` set hs then Some n else c, Some t)" by simp
    with 2 Cons.prems(2) line name show ?thesis by (simp add: split_header_line eq_ignore_ascii_case_def lower_names)
  next
    case 3
    with Cons.prems Cons.IH [of c d] line name show ?thesis
      by (simp add: split_header_line eq_ignore_ascii_case_def lower_names)
  qed
qed simp

lemma headers_ok_read:
  assumes "headers_ok hs n" "n \<le> u64_max"
  shows "probe_headers (map header_line hs) None None = Inr (Some n, Some ''application/json'')"
proof -
  let ?m = "map (\<lambda>h. (to_ascii_lowercase (fst h), snd h)) hs"
  have dist: "distinct (map (\<lambda>h. to_ascii_lowercase (fst h)) hs)" using assms(1) by (simp add: headers_ok_def)
  have look: "map_of ?m (to_ascii_lowercase (fst h)) = Some (snd h)" if "h \<in> set hs" for h
    using that dist by (intro map_of_is_SomeI) (auto simp: comp_def)
  have mem: "k \<in> (\<lambda>h. to_ascii_lowercase (fst h)) ` set hs" if "map_of ?m k = Some v" for k v
    using map_of_SomeD [OF that] by auto
  have keys: "''content-length'' \<in> (\<lambda>h. to_ascii_lowercase (fst h)) ` set hs" "''content-type'' \<in> (\<lambda>h. to_ascii_lowercase (fst h)) ` set hs"
    using assms(1) mem by (simp_all add: headers_ok_def)
  have digits: "\<forall>c \<in> set (string_of_nat n). 33 \<le> byte_of c \<and> byte_of c \<le> (126::nat)"
    using string_of_nat_digits by force
  have "probe_headers (map header_line hs) None None =
      Inr (if ''content-length'' \<in> (\<lambda>h. to_ascii_lowercase (fst h)) ` set hs then Some n else None,
        if ''content-type'' \<in> (\<lambda>h. to_ascii_lowercase (fst h)) ` set hs then Some ''application/json'' else None)"
  proof (rule probe_headers_read [OF dist], intro ballI conjI impI)
    fix h
    assume h: "h \<in> set hs"
    show "is_header_name (fst h)" using assms(1) h by (simp add: headers_ok_def list_all_iff)
    show "to_ascii_lowercase (fst h) \<noteq> ''transfer-encoding''" using look [OF h] assms(1) by (auto simp: headers_ok_def)
    show "parse_u64 (trim (CHR '' '' # snd h)) = Some n" if "to_ascii_lowercase (fst h) = ''content-length''"
      using look [OF h] that assms trim_visible(2) [OF digits] by (simp add: headers_ok_def parse_u64_string_of_nat)
    show "trim (CHR '' '' # snd h) = ''application/json''" if "to_ascii_lowercase (fst h) = ''content-type''"
      using look [OF h] that assms(1) trim_visible(2) [of "''application/json''"] by (simp add: headers_ok_def)
  qed simp_all
  with keys show ?thesis by simp
qed

lemma split_status: "CHR '' '' \<notin> set status \<Longrightarrow> splitn_3 (CHR '' '') (''HTTP/1.1 '' @ status @ '' '' @ reason) = (''HTTP/1.1'', status, reason)"
proof -
  have "CHR '' '' \<notin> set k \<Longrightarrow> split_once (CHR '' '') (k @ CHR '' '' # r) = Some (k, r)" for k r by (induction k) auto
  from this [of status reason] show "CHR '' '' \<notin> set status \<Longrightarrow> ?thesis" by (simp add: splitn_3_def)
qed

lemma ascii_header:
  "printable l \<Longrightarrow> \<forall>m \<in> set ls. printable m \<Longrightarrow> \<forall>c \<in> set (l @ concat (map (\<lambda>m. CR # LF # m) ls)). byte_of c < (128::nat)"
proof (induction ls arbitrary: l)
  case Nil
  then show ?case by (force simp: printable_def list_all_iff)
next
  case (Cons m ls)
  from Cons.IH [of m] Cons.IH [OF Cons.prems(1)] Cons.prems(2) show ?case by auto
qed

lemma validate_wire:
  assumes hs: "headers_ok hs (length body)" "length body \<le> u64_max"
    and status: "length status = 3" "list_all is_ascii_digit status" and reason: "reason \<noteq> []" "printable reason"
    and small: "length (http_header status reason hs) \<le> MAX_HEADER_BYTES"
  shows "validate_response from_slice (http_wire status reason hs body) =
    (if status \<noteq> ''200'' then Inl (''runtime readiness endpoint returned HTTP '' @ status)
     else probe_body from_slice body (Some (length body)) (Some ''application/json''))"
proof -
  let ?l = "''HTTP/1.1 '' @ status @ '' '' @ reason" and ?ls = "map header_line hs"
  have header: "http_header status reason hs = ?l @ concat (map (\<lambda>m. CR # LF # m) ?ls)"
    by (simp add: http_header_def comp_def)
  have digit: "48 \<le> byte_of c \<and> byte_of c \<le> (57::nat)" if "c \<in> set status" for c
    using status(2) that by (auto simp: list_all_iff is_ascii_digit_def less_eq_char_def)
  have l: "printable ?l" using reason(2) digit by (fastforce simp: printable_def list_all_iff)
  have ls: "\<forall>m \<in> set ?ls. printable m \<and> m \<noteq> []"
    using hs(1) printable_header_line by (auto simp: headers_ok_def list_all_iff)
  then have lines: "CR \<notin> set ?l" "\<forall>m \<in> set ?ls. CR \<notin> set m \<and> m \<noteq> []" "\<forall>m \<in> set ?ls. CR \<notin> set m"
    using printable_no_cr [OF l] printable_no_cr by blast+
  note pos = window_header [OF lines(1,2), folded header, of body]
  have "\<forall>c \<in> set (http_header status reason hs). byte_of c < (128::nat)"
    unfolding header using ascii_header l ls by blast
  then have utf8: "valid_utf8 (http_header status reason hs)" by (simp add: valid_utf8_ascii)
  have split: "split_crlf (http_header status reason hs) = ?l # ?ls" using split_crlf_header [OF lines(1,3)] header by simp
  have "CHR '' '' \<notin> set status" using digit by fastforce
  then have "probe_status ?l = (if status \<noteq> ''200'' then Inl (''runtime readiness endpoint returned HTTP '' @ status) else Inr ())"
    using status reason(1) split_status by (simp add: probe_status_def del: append_Cons)
  then show ?thesis
    using pos small utf8 split headers_ok_read [OF hs]
    by (simp add: validate_response_def http_wire_def)
qed

text \<open>What the probe's parser reads of a readiness body.\<close>

definition readiness_contract :: "string \<Rightarrow> string \<Rightarrow> LoadSnapshot \<Rightarrow> ReadinessContract" where
  "readiness_contract status boot l =
     \<lparr>rc_status = status, rc_boot_id = boot,
      rc_load = \<lparr>rl_boot_id = load_boot_id l, rl_accepting = load_accepting l, rl_draining = load_draining l,
        rl_available_sessions = available_sessions l\<rparr>\<rparr>"

lemma status_digits: "string_of_nat 200 = ''200''" "string_of_nat (Suc (Suc 0)) = ''2''"
  by code_simp+

text \<open>When the shard has a place to give.\<close>

definition shard_has_room :: "ShardSupervisor \<Rightarrow> bool" where
  "shard_has_room s \<longleftrightarrow>
     \<not> sessions_poisoned s \<and> \<not> prepared_poisoned s \<and> accepting s \<and> length (sessions (reap s)) + length (prepared s) < max_sessions (sup_config s)"

lemma readiness_reply:
  assumes "readiness uuid s = (reply, s')" and "max_sessions (sup_config s) \<le> u64_max"
  shows "(reply_status reply = 200 \<longleftrightarrow> shard_has_room s) \<and>
    (shard_has_room s \<longrightarrow> reply_content reply = ReadinessBody ''ready'' (boot_id s) (load_snapshot (reap s)) \<and>
       0 < available_sessions (load_snapshot (reap s))) \<and>
    length (string_of_nat (reply_status reply)) = 3 \<and> list_all is_ascii_digit (string_of_nat (reply_status reply))"
proof -
  have codes: "length (string_of_nat n) = 3 \<and> list_all is_ascii_digit (string_of_nat n)" if "n \<in> {200, 500, 503}" for n
    using that by (auto simp: string_of_nat.simps digit_char_def ascii_defs less_eq_char_def)
  have "shard_has_room s \<longleftrightarrow> \<not> sessions_poisoned s \<and> \<not> prepared_poisoned s \<and> accepting s \<and> 0 < available_sessions (load_snapshot (reap s))"
    using assms(2) by (auto simp: shard_has_room_def load_snapshot_def Let_def saturating_sub_def saturating_add_def reap_def)
  moreover have "reply_status reply \<in> {200, 500, 503}"
    "reply_status reply = 200 \<longleftrightarrow> \<not> sessions_poisoned s \<and> \<not> prepared_poisoned s \<and> accepting s \<and> 0 < available_sessions (load_snapshot (reap s))"
    "\<not> sessions_poisoned s \<Longrightarrow> \<not> prepared_poisoned s \<Longrightarrow> accepting s \<Longrightarrow> 0 < available_sessions (load_snapshot (reap s)) \<Longrightarrow>
      reply_content reply = ReadinessBody ''ready'' (boot_id s) (load_snapshot (reap s))"
    using assms(1)
    by (auto simp: readiness_def respond_def load_def errorE_defs lock_sessions_def lock_prepared_def http_error_def http_status_def Let_def
        load_snapshot_def reap_def split: if_splits)
  ultimately show ?thesis using codes by auto
qed

text \<open>
  C40 (equivalence). The probe succeeds on the reply of the readiness handler, written as HTTP
  with a content length and type, exactly when the shard accepts sessions, neither lock of its
  registries is poisoned and a place is free.
\<close>

theorem probe_agrees_with_readiness:
  assumes "readiness uuid s = (reply, s')" and "max_sessions (sup_config s) \<le> u64_max" and "boot_id s \<noteq> []"
    and "\<forall>st boot l. reply_content reply = ReadinessBody st boot l \<longrightarrow> from_slice body = Some (readiness_contract st boot l)"
    and "headers_ok hs (length body)" and "reason \<noteq> []" and "printable reason"
    and "length (http_header (string_of_nat (reply_status reply)) reason hs) \<le> MAX_HEADER_BYTES"
    and "length (http_wire (string_of_nat (reply_status reply)) reason hs body) \<le> MAX_RESPONSE_BYTES"
    and "MIN_TIMEOUT \<le> limit" and "limit \<le> MAX_TIMEOUT"
  shows "probe_run from_slice address True limit True
      \<lparr>io_connects = True, io_writes = True, io_flushes = True,
       io_received = Some (http_wire (string_of_nat (reply_status reply)) reason hs body)\<rparr> = Inr () \<longleftrightarrow> shard_has_room s"
proof -
  let ?wire = "http_wire (string_of_nat (reply_status reply)) reason hs body"
  note r = readiness_reply [OF assms(1,2)]
  have "length body \<le> u64_max" using assms(9) by (simp add: http_wire_def MAX_RESPONSE_BYTES_def u64_max_def)
  note wire = validate_wire [OF assms(5) this conjunct1 [OF r [THEN conjunct2, THEN conjunct2]]
      conjunct2 [OF r [THEN conjunct2, THEN conjunct2]] assms(6-8)]
  have ok: "string_of_nat (reply_status reply) = ''200'' \<longleftrightarrow> shard_has_room s"
    using r string_of_nat_inj [of "reply_status reply" 200] by (simp add: status_digits)
  have "probe_body from_slice body (Some (length body)) (Some ''application/json'') = Inr ()" if room: "shard_has_room s"
  proof -
    have "contract_ready (readiness_contract ''ready'' (boot_id s) (load_snapshot (reap s)))"
      using r room assms(3) by (auto simp: contract_ready_def readiness_contract_def load_snapshot_def Let_def shard_has_room_def reap_def)
    moreover have "trim ''application/json'' = ''application/json''" by (rule trim_visible) auto
    ultimately show ?thesis using r room assms(4) by (simp add: probe_body_def eq_ignore_ascii_case_def)
  qed
  then have "validate_response from_slice ?wire = Inr () \<longleftrightarrow> shard_has_room s" unfolding wire using ok by auto
  then show ?thesis using assms(9-11) by (simp add: probe_run_def exchange_def Let_def)
qed

abbreviation demo_headers :: "(string \<times> string) list" where
  "demo_headers \<equiv> [(''content-type'', ''application/json''), (''content-length'', ''2'')]"

theorem probe_agrees_with_readiness_witness:
  "probe_run (\<lambda>_. Some (readiness_contract ''ready'' ''boot_1'' (load_snapshot demo_shard))) ''127.0.0.1:8080'' True (from_secs 1) True
     \<lparr>io_connects = True, io_writes = True, io_flushes = True, io_received = Some (http_wire ''200'' ''OK'' demo_headers [123, 125])\<rparr>
   = Inr ()"
proof -
  let ?slice = "\<lambda>_. Some (readiness_contract ''ready'' ''boot_1'' (load_snapshot demo_shard))"
  let ?reply = "\<lparr>reply_status = 200, reply_content = ReadinessBody ''ready'' ''boot_1'' (load_snapshot demo_shard)\<rparr>"
  have r: "readiness ''7'' demo_shard = (?reply, demo_shard)"
    by (simp add: readiness_def respond_def load_def errorE_defs lock_sessions_def lock_prepared_def reap_def Let_def load_snapshot_def
        saturating_add_def saturating_sub_def u64_max_def)
  have h: "headers_ok demo_headers (length [123, 125 :: byte])"
    by (simp add: headers_ok_def lower_names status_digits is_header_name_def ascii_defs printable_def less_eq_char_def)
  have room: "shard_has_room demo_shard" by (simp add: shard_has_room_def reap_def)
  show ?thesis
    using probe_agrees_with_readiness [OF r _ _ _ h, of ?slice "''OK''" "from_secs 1" "''127.0.0.1:8080''"] room
    by (simp add: status_digits u64_max_def default_shard_config_def printable_def http_header_def http_wire_def header_line_def
        MAX_HEADER_BYTES_def MAX_RESPONSE_BYTES_def MIN_TIMEOUT_def MAX_TIMEOUT_def from_secs_def from_millis_def)
qed

end
