(* ===== verification/CommandLine.thy ===== *)
theory CommandLine
  imports Probe
begin

text \<open>
  The command line of the runtime (\<open>main.rs\<close>): the shard behind \<open>serve\<close>, the local realtime session
  it can prepare for itself with the connection it prints, and the client loop of \<open>simulate\<close>. Argument
  parsing, tracing, signals and sockets are not modelled; files and the outputs a session delivers
  are parameters. An error is the text of its outermost context.
\<close>

datatype Command =
    Serve string usize u64 "string option"
  | Simulate string string "string option"
  | ProbeCommand string u64

subsection \<open>The manifest argument\<close>

definition trim_start :: "string \<Rightarrow> string" where
  "trim_start s = concat (trim_start_chars (utf8_chars s))"

text \<open>The parsers of a manifest: \<open>serde_json::from_str\<close>, the serialiser and the URL parser.\<close>

record manifest_libs =
  ml_from_str :: "string \<Rightarrow> string + AgentManifest"
  ml_ser :: serializer
  ml_url_scheme :: "string \<Rightarrow> string option"
  ml_read_file :: "string \<Rightarrow> string option"

definition load_manifest :: "manifest_libs \<Rightarrow> string \<Rightarrow> string + AgentManifest" where
  "load_manifest M arg =
     (case (if take 1 (trim_start arg) = ''{'' then Some arg else ml_read_file M arg) of
        None \<Rightarrow> Inl (''failed to read agent manifest '' @ arg)
      | Some manifest_json \<Rightarrow>
          (case parse_json (ml_from_str M) (ml_ser M) (ml_url_scheme M) manifest_json of
             Inl _ \<Rightarrow> Inl ''agent manifest failed contract validation''
           | Inr m \<Rightarrow> Inr m))"

subsection \<open>Serving\<close>

definition serve_config :: "usize \<Rightarrow> u64 \<Rightarrow> ShardConfig" where
  "serve_config n shutdown_grace_ms = default_shard_config\<lparr>max_sessions := n, shutdown_grace := from_millis shutdown_grace_ms\<rparr>"

text \<open>The supervisor, its resolver chosen by whether a local manifest is given; \<open>None\<close> is a panic of the resolver.\<close>

definition serve_supervisor :: "string \<Rightarrow> ProviderSet \<Rightarrow> usize \<Rightarrow> u64 \<Rightarrow> string + ShardSupervisor" where
  "serve_supervisor uuid scripted n shutdown_grace_ms =
     (case new_supervisor uuid (serve_config n shutdown_grace_ms) scripted of
        Inl _ \<Rightarrow> Inl ''runtime shard configuration is invalid''
      | Inr s \<Rightarrow> Inr s)"

definition serve_resolver ::
  "gateway_codecs \<Rightarrow> 'u url_lib \<Rightarrow> 'u http_lib \<Rightarrow> string option \<Rightarrow> AgentManifest \<Rightarrow> 'u RuntimeServiceAccess option \<Rightarrow>
   ProviderSet result option" where
  "serve_resolver C U H agent_manifest m access =
     (if agent_manifest \<noteq> None then LocalScriptedProviderResolver_resolve (gc_print C) (gc_from_str C) m
      else gateway_resolve C U H m access)"

definition local_context :: TenantContext where
  "local_context =
     \<lparr>organization_id = ''org_local0001'', project_id = ''prj_local0001'', deployment_id = ''dep_local0001'',
      session_id = ''ses_localserve'', runtime_generation = 1, correlation_id = ''local-serve''\<rparr>"

definition local_ingest_url :: string where
  "local_ingest_url = ''local://semantic-events''"

text \<open>The headers printed for the local client.\<close>

definition local_headers :: "TenantContext \<Rightarrow> string \<Rightarrow> (string \<times> string) list" where
  "local_headers ctx ingest_token =
     [(''X-Calluwu-Session-Id'', session_id ctx), (''X-Calluwu-Runtime-Generation'', string_of_nat (runtime_generation ctx)),
      (''X-Calluwu-Runtime-Ingest-Url'', local_ingest_url), (''X-Calluwu-Runtime-Ingest-Token'', ingest_token),
      (''X-Calluwu-Organization-Id'', organization_id ctx), (''X-Calluwu-Project-Id'', project_id ctx),
      (''X-Calluwu-Deployment-Id'', deployment_id ctx)]"

definition local_preparation ::
  "(byte list \<Rightarrow> fingerprint) \<Rightarrow> (AgentManifest \<Rightarrow> string + byte list) \<Rightarrow> string \<Rightarrow> AgentManifest \<Rightarrow> 'x SessionPreparation result" where
  "local_preparation sha to_vec ingest_token m =
     (let att = attachment_fingerprint sha local_ingest_url ingest_token in
      case preparation_fingerprint sha to_vec local_context m att of
        Inl e \<Rightarrow> Inl e
      | Inr fp \<Rightarrow>
          Inr \<lparr>prep_context = local_context, prep_manifest = m, runtime_service_access = None, prep_fingerprint = fp,
            prep_attachment_fingerprint = att\<rparr>)"

text \<open>
  What is printed: the realtime URL, the session, its generation and the headers a client has to
  send. \<open>stdout\<close> is the error of writing it, if any.
\<close>

definition prepare_local_realtime ::
  "manifest_libs \<Rightarrow> (byte list \<Rightarrow> fingerprint) \<Rightarrow> (AgentManifest \<Rightarrow> string + byte list) \<Rightarrow>
   (AgentManifest \<Rightarrow> 'x option \<Rightarrow> ProviderSet result) \<Rightarrow> string option \<Rightarrow> string \<Rightarrow> nat \<Rightarrow> string \<Rightarrow> string \<Rightarrow> ShardSupervisor \<Rightarrow>
   (string + string \<times> string \<times> u64 \<times> (string \<times> string) list) \<times> ShardSupervisor" where
  "prepare_local_realtime M sha to_vec resolve stdout uuid now local_address arg s =
     (case load_manifest M arg of
        Inl e \<Rightarrow> (Inl e, s)
      | Inr m \<Rightarrow>
          let ingest_token = ''local_'' @ uuid in
          (case local_preparation sha to_vec ingest_token m of
             Inl e \<Rightarrow> (Inl (error_to_string e), s)
           | Inr p \<Rightarrow>
               (case prepare (ml_ser M) (ml_url_scheme M) resolve now p s of
                  (Inl _, s') \<Rightarrow> (Inl ''local realtime session could not be prepared'', s')
                | (Inr _, s') \<Rightarrow>
                    (case stdout of
                       Some e \<Rightarrow> (Inl e, s')
                     | None \<Rightarrow>
                         (Inr (''ws://'' @ local_address @ ''/v1/realtime'', session_id local_context,
                            runtime_generation local_context, local_headers local_context ingest_token), s')))))"

subsection \<open>Simulation\<close>

definition simulation_context :: TenantContext where
  "simulation_context =
     \<lparr>organization_id = ''org_local0001'', project_id = ''prj_local0001'', deployment_id = ''dep_local0001'',
      session_id = ''ses_local0001'', runtime_generation = 1, correlation_id = ''simulation''\<rparr>"

definition simulation_envelope :: "TenantContext \<Rightarrow> string \<Rightarrow> RealtimeEnvelope" where
  "simulation_envelope ctx message_id =
     \<lparr>env_protocol_version = PROTOCOL_VERSION, env_session_id = session_id ctx, env_message_id = message_id,
      env_runtime_generation = runtime_generation ctx\<rparr>"

text \<open>The session's configuration: the defaults with what the manifest sets.\<close>

definition simulation_config :: "AgentManifest \<Rightarrow> SessionConfig" where
  "simulation_config m =
     (let d = agent_definition m in
      default_config\<lparr>max_session_duration := from_secs (max_session_seconds (agent_limits d)),
        cfg_max_history_messages := max_history_messages (agent_limits d),
        cfg_sample_rate_hz := voice_sample_rate_hz (agent_voice d),
        cfg_voice_id := voice_id (agent_voice d),
        cfg_instructions := agent_instructions d,
        cfg_required_capabilities := required_capabilities m\<rparr>)"

text \<open>Everything up to the lease; the outer \<open>None\<close> is a panic of the resolver.\<close>

definition simulate_lease ::
  "manifest_libs \<Rightarrow> (json \<Rightarrow> string) \<Rightarrow> (string \<Rightarrow> json option) \<Rightarrow> string \<Rightarrow> env_action list list \<Rightarrow> string \<Rightarrow> string \<Rightarrow>
   (string + SessionHandle \<times> SessionActor) option" where
  "simulate_lease M print from_str uuid env arg input =
     (if input = [] \<or> length input > 16000 then Some (Inl ''--input must contain 1 to 16,000 bytes'')
      else case load_manifest M arg of
        Inl e \<Rightarrow> Some (Inl e)
      | Inr m \<Rightarrow>
          (case LocalScriptedProviderResolver_resolve print from_str m of
             None \<Rightarrow> None
           | Some (Inl _) \<Rightarrow> Some (Inl ''local simulation cannot execute this deployment'')
           | Some (Inr ps) \<Rightarrow>
               (case ensure_capabilities ps (required_capabilities m) of
                  Inl _ \<Rightarrow> Some (Inl ''agent provider requirements cannot be satisfied'')
                | Inr _ \<Rightarrow>
                    let cfg = simulation_config m in
                    (case new_supervisor uuid (default_shard_config\<lparr>max_sessions := 1, shard_session := cfg\<rparr>) ps of
                       Inl e \<Rightarrow> Some (Inl (error_to_string e))
                     | Inr s \<Rightarrow>
                         Some (map_sum error_to_string id (fst (admit_with simulation_context cfg ps env s)))))))"

text \<open>What waiting for an output gives.\<close>

datatype received_output = OutputTimeout | OutputEnd | OutputReceived RealtimeOutput

definition receive_output :: "received_output \<Rightarrow> string + RealtimeOutput" where
  "receive_output r =
     (case r of
        OutputTimeout \<Rightarrow> Inl ''simulation timed out waiting for runtime output''
      | OutputEnd \<Rightarrow> Inl ''simulation session ended before response completion''
      | OutputReceived out \<Rightarrow> Inr out)"

text \<open>The printers of \<open>write_ndjson\<close>; \<open>nd_newline\<close>: the end of the line can be written.\<close>

record ndjson_libs =
  nd_message :: "ServerMessage \<Rightarrow> string option"
  nd_header :: "AudioChunkHeader \<Rightarrow> (string, json) btree_map option"
  nd_print :: "json \<Rightarrow> string option"
  nd_base64 :: "byte list \<Rightarrow> string"
  nd_newline :: bool

definition end_line :: "ndjson_libs \<Rightarrow> string \<Rightarrow> string + string" where
  "end_line N line = (if nd_newline N then Inr (line @ [LF]) else Inl ''failed to write simulation NDJSON'')"

definition write_ndjson :: "ndjson_libs \<Rightarrow> RealtimeOutput \<Rightarrow> string + string" where
  "write_ndjson N out =
     (case out of
        RealtimeOutput.Control m \<Rightarrow>
          (case nd_message N m of
             None \<Rightarrow> Inl ''failed to serialize runtime message'' | Some line \<Rightarrow> end_line N line)
      | RealtimeOutput.Audio f \<Rightarrow>
          (case nd_header N (frame_header f) of
             None \<Rightarrow> Inl ''failed to serialize audio header''
           | Some v \<Rightarrow>
               (case nd_print N (JObject (btree_insert ''audioBase64'' (JString (nd_base64 N (frame_audio f))) v)) of
                  None \<Rightarrow> Inl ''failed to serialize local audio message'' | Some line \<Rightarrow> end_line N line)))"

definition is_completed :: "RealtimeOutput \<Rightarrow> bool" where
  "is_completed out \<longleftrightarrow> (case out of RealtimeOutput.Control (ResponseCompleted _ _ _ False) \<Rightarrow> True | _ \<Rightarrow> False)"

text \<open>The loop over the outputs: the lines written and how it ended, \<open>None\<close> while it waits for more.\<close>

fun simulate_loop :: "ndjson_libs \<Rightarrow> received_output list \<Rightarrow> string list \<times> (string + unit) option" where
  "simulate_loop N [] = ([], None)"
| "simulate_loop N (r # rs) =
     (case receive_output r of
        Inl e \<Rightarrow> ([], Some (Inl e))
      | Inr out \<Rightarrow>
          (case write_ndjson N out of
             Inl e \<Rightarrow> ([], Some (Inl e))
           | Inr line \<Rightarrow>
               if is_completed out then ([line], Some (Inr ()))
               else (case simulate_loop N rs of (ls, k) \<Rightarrow> (line # ls, k))))"

text \<open>The two messages of the simulated caller.\<close>

definition simulate_messages :: "string \<Rightarrow> SessionHandle \<Rightarrow> unit result \<times> SessionHandle" where
  "simulate_messages input h =
     (case try_control h (SessionStart (simulation_envelope simulation_context ''simulation-start'')) of
        (Inl e, h) \<Rightarrow> (Inl e, h)
      | (Inr _, h) \<Rightarrow> try_control h (InputText (simulation_envelope simulation_context ''simulation-input'') input))"

subsection \<open>The printed connection works\<close>

text \<open>Header names as the server sees them.\<close>

definition received_headers :: "(string \<times> string) list \<Rightarrow> header_map" where
  "received_headers hs = map (\<lambda>h. (to_ascii_lowercase (fst h), Some (snd h))) hs"

lemma local_lower:
  "to_ascii_lowercase ''X-Calluwu-Session-Id'' = HEADER_SESSION_ID" "to_ascii_lowercase ''X-Calluwu-Runtime-Generation'' = HEADER_RUNTIME_GENERATION"
  "to_ascii_lowercase ''X-Calluwu-Runtime-Ingest-Url'' = HEADER_INGEST_URL" "to_ascii_lowercase ''X-Calluwu-Runtime-Ingest-Token'' = HEADER_INGEST_TOKEN"
  "to_ascii_lowercase ''X-Calluwu-Organization-Id'' = HEADER_ORGANIZATION_ID" "to_ascii_lowercase ''X-Calluwu-Project-Id'' = HEADER_PROJECT_ID"
  "to_ascii_lowercase ''X-Calluwu-Deployment-Id'' = HEADER_DEPLOYMENT_ID"
  by code_simp+

lemma local_names:
  "received_headers (local_headers ctx t) =
     [(HEADER_SESSION_ID, Some (session_id ctx)), (HEADER_RUNTIME_GENERATION, Some (string_of_nat (runtime_generation ctx))),
      (HEADER_INGEST_URL, Some local_ingest_url), (HEADER_INGEST_TOKEN, Some t), (HEADER_ORGANIZATION_ID, Some (organization_id ctx)),
      (HEADER_PROJECT_ID, Some (project_id ctx)), (HEADER_DEPLOYMENT_ID, Some (deployment_id ctx))]"
  using local_lower by (simp add: received_headers_def local_headers_def)

lemmas header_name_defs = HEADER_SESSION_ID_def HEADER_RUNTIME_GENERATION_def HEADER_INGEST_URL_def HEADER_INGEST_TOKEN_def
  HEADER_ORGANIZATION_ID_def HEADER_PROJECT_ID_def HEADER_DEPLOYMENT_ID_def

lemma local_lookup:
  "required_header (received_headers (local_headers ctx t)) HEADER_SESSION_ID = Inr (session_id ctx)"
  "required_header (received_headers (local_headers ctx t)) HEADER_RUNTIME_GENERATION = Inr (string_of_nat (runtime_generation ctx))"
  "required_header (received_headers (local_headers ctx t)) HEADER_INGEST_URL = Inr local_ingest_url"
  "required_header (received_headers (local_headers ctx t)) HEADER_INGEST_TOKEN = Inr t"
  "required_header (received_headers (local_headers ctx t)) HEADER_ORGANIZATION_ID = Inr (organization_id ctx)"
  "required_header (received_headers (local_headers ctx t)) HEADER_PROJECT_ID = Inr (project_id ctx)"
  "required_header (received_headers (local_headers ctx t)) HEADER_DEPLOYMENT_ID = Inr (deployment_id ctx)"
  by (simp_all add: local_names required_header_def optional_header_def header_name_defs)

lemma local_context_valid:
  "length uuid \<le> 156 \<Longrightarrow> context_validate (local_context\<lparr>correlation_id := ''req_'' @ uuid\<rparr>) = Inr ()"
  by (simp add: context_validate_ok local_context_def ident_eval)

lemma local_admission:
  assumes "length uuid \<le> 156"
  shows "admission_from_headers uuid (received_headers (local_headers local_context t)) =
      Inr (local_context\<lparr>correlation_id := ''req_'' @ uuid\<rparr>)"
proof -
  have "parse_u64 (string_of_nat (runtime_generation local_context)) = Some (runtime_generation local_context)"
    by (rule parse_u64_string_of_nat) (simp add: u64_max_def local_context_def)
  moreover have "\<lparr>organization_id = organization_id local_context, project_id = project_id local_context,
      deployment_id = deployment_id local_context, session_id = session_id local_context,
      runtime_generation = runtime_generation local_context, correlation_id = ''req_'' @ uuid\<rparr> =
      local_context\<lparr>correlation_id := ''req_'' @ uuid\<rparr>" by simp
  ultimately show ?thesis
    using local_context_valid [OF assms] by (simp only: admission_from_headers_def local_lookup Let_def andR_def sum.case option.case)
qed

text \<open>
  A client that sends the printed headers before the preparation expires is upgraded.
\<close>

lemma local_session_attaches:
  assumes "prepare_local_realtime M sha to_vec resolve stdout uuid now local_address arg s = (Inr (ws, sid, gen, hs), s')"
    and "sessions s = []" and "prepared s = []" and "now' < now + prepared_session_ttl (sup_config s)" and "length uuid' \<le> 156"
  shows "fst (realtime sha uuid' (received_headers hs) now' U s') = \<lparr>reply_status = 101, reply_content = NoBody\<rparr>"
proof -
  obtain m p st where p: "local_preparation sha to_vec (''local_'' @ uuid) m = Inr p"
    "prepare (ml_ser M) (ml_url_scheme M) resolve now p s = (Inr st, s')" "hs = local_headers local_context (''local_'' @ uuid)"
    using assms(1) by (auto simp: prepare_local_realtime_def Let_def split: sum.splits prod.splits option.splits)
  have pr: "prep_context p = local_context" "prep_attachment_fingerprint p = attachment_fingerprint sha local_ingest_url (''local_'' @ uuid)"
    using p(1) by (auto simp: local_preparation_def Let_def split: sum.splits)
  obtain cfg ps where "prepare_checks (ml_ser M) (ml_url_scheme M) resolve p s = (Inr (cfg, ps), s)"
    "prepare_reserve now p cfg ps s = (Inr st, s')"
    using p(2) by (auto simp: prepare_def prepare_checks_def errorE_defs split: sum.splits if_splits)
  then have s': "s' = prepare_insert (now + prepared_session_ttl (sup_config s)) p cfg ps (s\<lparr>sessions := []\<rparr>)"
    "\<not> sessions_poisoned s" "\<not> prepared_poisoned s"
    using assms(2,3)
    by (auto simp: prepare_reserve_def errorE_defs lock_sessions_def lock_prepared_def panic_both_locked_def instant_add_def
        reap_def split: if_splits option.splits)
  let ?ctx = "local_context\<lparr>correlation_id := ''req_'' @ uuid'\<rparr>"
  have "validate_prepared_attachment now' ?ctx (attachment_fingerprint sha local_ingest_url (''local_'' @ uuid)) s' = (Inr (), s')"
    using local_context_valid [OF assms(5)] assms(2-4) s' pr
    by (simp add: validate_prepared_attachment_def validate_inactive_def validate_reservation_def errorE_defs lock_sessions_def
        lock_prepared_def prepare_insert_def reap_def Let_def validate_prepared_entry_def)
  then show ?thesis
    using local_admission [OF assms(5)] p(3)
    by (simp add: realtime_def realtime_checks_def errorE_defs attachment_fingerprint_from_headers_def local_lookup Let_def
        split: prod.split)
qed

text \<open>A simulation that ends well has printed exactly the outputs up to the first completed response.\<close>

lemma simulate_loop_completes:
  "simulate_loop N rs = (ls, Some (Inr ())) \<Longrightarrow>
   \<exists>outs out. length ls = Suc (length outs) \<and> take (length ls) rs = map OutputReceived (outs @ [out]) \<and>
     is_completed out \<and> \<not> list_ex is_completed outs \<and> map Inr ls = map (write_ndjson N) (outs @ [out])"
proof (induction N rs arbitrary: ls rule: simulate_loop.induct)
  case (2 N r rs)
  then obtain out where r: "r = OutputReceived out" by (cases r) (auto simp: receive_output_def)
  with "2.prems" obtain line where line: "write_ndjson N out = Inr line"
    by (cases "write_ndjson N out") (auto simp: receive_output_def)
  show ?case
  proof (cases "is_completed out")
    case True
    then show ?thesis using "2.prems" r line by (intro exI [of _ "[]"] exI [of _ out]) (auto simp: receive_output_def)
  next
    case False
    then obtain ks where ks: "simulate_loop N rs = (ks, Some (Inr ()))" "ls = line # ks"
      using "2.prems" r line by (auto simp: receive_output_def split: prod.splits)
    from "2.IH" [of out line ks] obtain outs last where "length ks = Suc (length outs)"
      "take (length ks) rs = map OutputReceived (outs @ [last])" "is_completed last" "\<not> list_ex is_completed outs"
      "map Inr ks = map (write_ndjson N) (outs @ [last])"
      using False r line ks(1) by (auto simp: receive_output_def)
    then show ?thesis using False r line ks(2) by (intro exI [of _ "out # outs"] exI [of _ last]) auto
  qed
qed simp

end
