(* ===== verification/Routes.thy ===== *)
theory Routes
  imports ServerGuarantees
begin

text \<open>
  The router of the HTTP surface (\<open>server.rs\<close>, \<open>router\<close>): its table of routes, the shared state it gives
  to the handlers and the dispatch of a request to its handler; and that whatever is asked for, an upgraded
  connection included, the shard keeps its invariant, on which the guarantees of cancellation and of
  the transport rest.

  External: axum's matching of paths and methods and its extractors (\<open>axum\<close>); its layers (request
  identifiers, tracing, the reply after a panic) do not reach the handlers.
\<close>

subsection \<open>The router\<close>

definition app_state :: "BuildInfo \<Rightarrow> usize \<Rightarrow> ShardSupervisor \<Rightarrow> AppState" where
  "app_state build limit s = \<lparr>app_build = build\<lparr>build_boot_id := boot_id s\<rparr>, app_max_message_bytes = limit\<rparr>"

datatype method_filter = GetRoute | PostRoute | AnyRoute

datatype handler = Liveness | Readiness | Load | BuildHandler | PrepareHandler | CancelHandler | RealtimeHandler

definition routes :: "(string \<times> method_filter \<times> handler) list" where
  "routes =
     [(''/health/live'', GetRoute, Liveness), (''/health/ready'', GetRoute, Readiness), (''/healthz'', GetRoute, Readiness),
      (''/load'', GetRoute, Load), (''/build'', GetRoute, BuildHandler), (''/v1/sessions/admit'', PostRoute, PrepareHandler),
      (''/v1/sessions/{session_id}/cancel'', PostRoute, CancelHandler), (''/v1/realtime'', AnyRoute, RealtimeHandler)]"

definition body_limit :: usize where
  "body_limit = 1024 * 1024"

record incoming_request =
  req_method :: string
  req_path :: string
  req_headers :: header_map
  req_body :: "byte list"

text \<open>
  Axum: the parameters of a path that matches a pattern, the methods a filter lets pass, its replies
  when nothing matches, and the extractors, each with the reply of its rejection.
\<close>

record axum =
  ax_captures :: "string \<Rightarrow> string \<Rightarrow> string list option"
  ax_allows :: "method_filter \<Rightarrow> string \<Rightarrow> bool"
  ax_not_found :: http_reply
  ax_method_not_allowed :: http_reply
  ax_path :: "string list \<Rightarrow> http_reply + string"
  ax_json :: "usize \<Rightarrow> incoming_request \<Rightarrow> http_reply + PrepareSessionRequest"
  ax_upgrade :: "incoming_request \<Rightarrow> http_reply + unit"

text \<open>What a request meets: the identifier drawn for it, the time, the waits of a cancellation and the upgrade.\<close>

record circumstances =
  c_uuid :: string
  c_now :: nat
  c_waits :: stop_waits
  c_upgrade :: upgrade

text \<open>A reply, with what an upgraded connection writes and whether it still runs.\<close>

type_synonym served = "http_reply \<times> (transport_write list \<times> bool) option \<times> ShardSupervisor"

definition replied :: "http_reply \<times> ShardSupervisor \<Rightarrow> served" where
  "replied r = (fst r, None, snd r)"

definition run_handler ::
  "axum \<Rightarrow> 'u server_libs \<Rightarrow> AppState \<Rightarrow> circumstances \<Rightarrow> incoming_request \<Rightarrow> string list \<Rightarrow> handler \<Rightarrow> ShardSupervisor \<Rightarrow> served" where
  "run_handler A L app c rq captures h s =
     (case h of
        Liveness \<Rightarrow> replied (liveness, s)
      | Readiness \<Rightarrow> replied (readiness (c_uuid c) s)
      | Load \<Rightarrow> replied (server_load (c_uuid c) s)
      | BuildHandler \<Rightarrow> replied (build_info app, s)
      | PrepareHandler \<Rightarrow>
          (case ax_json A body_limit rq of
             Inl rejection \<Rightarrow> replied (rejection, s)
           | Inr r \<Rightarrow> replied (prepare_session L (c_uuid c) (c_now c) r s))
      | CancelHandler \<Rightarrow>
          (case ax_path A captures of
             Inl rejection \<Rightarrow> replied (rejection, s)
           | Inr sid \<Rightarrow> replied (server_cancel_session (lib_sha L) (c_uuid c) sid (req_headers rq) (c_now c) (c_waits c) s))
      | RealtimeHandler \<Rightarrow>
          (case ax_upgrade A rq of
             Inl rejection \<Rightarrow> replied (rejection, s)
           | Inr _ \<Rightarrow> realtime (lib_sha L) (c_uuid c) (req_headers rq) (c_now c) (c_upgrade c) s))"

definition router ::
  "axum \<Rightarrow> 'u server_libs \<Rightarrow> BuildInfo \<Rightarrow> usize \<Rightarrow> circumstances \<Rightarrow> incoming_request \<Rightarrow> ShardSupervisor \<Rightarrow> served" where
  "router A L build limit c rq s =
     (case find (\<lambda>(pattern, _, _). ax_captures A pattern (req_path rq) \<noteq> None) routes of
        None \<Rightarrow> replied (ax_not_found A, s)
      | Some (pattern, methods, h) \<Rightarrow>
          if \<not> ax_allows A methods (req_method rq) then replied (ax_method_not_allowed A, s)
          else run_handler A L (app_state build limit s) c rq (the (ax_captures A pattern (req_path rq))) h s)"

subsection \<open>The invariant behind the server\<close>

abbreviation keeps_inv :: "ShardConfig \<Rightarrow> 'a shard \<Rightarrow> bool" where
  "keeps_inv c \<equiv> hoare (shard_inv c) (shard_inv c)"

lemma respond_inv: "keeps_inv c m \<Longrightarrow> shard_inv c s \<Longrightarrow> shard_inv c (snd (respond uuid ok m s))"
  using shard_sections.keeps_result [of c m s] by (cases "m s") (auto simp: respond_def split: sum.split)

lemma prepare_inv:
  assumes "now \<le> clock_max"
  shows "keeps_inv c (prepare ser url_scheme resolve now p)"
proof (rule hoareI)
  fix s
  assume inv: "shard_inv c s"
  have lanes: "lanes_ok (shard_session (sup_config s))" using inv by (simp add: shard_inv_def shard_config_wf_def shard_bounds_def)
  have "shard_inv c s'" if run: "prepare ser url_scheme resolve now p s = (r, s')" for r s'
  proof (cases "prepare_checks ser url_scheme resolve p s")
    case (Pair x t)
    then have t: "t = s" by (auto simp: prepare_checks_def errorE_defs split: sum.splits if_splits)
    show ?thesis
    proof (cases x)
      case (Inl e)
      with Pair t run inv show ?thesis by (simp add: prepare_def errorE_defs)
    next
      case (Inr y)
      then obtain cfg ps where y: "x = Inr (cfg, ps)" by (cases y) auto
      have cfg: "config_validate cfg = Inr ()" "cfg = prepared_config (shard_session (sup_config s)) (prep_manifest p)"
        using Pair y by (auto simp: prepare_checks_def errorE_defs split: sum.splits if_splits)
      then have "lanes_ok cfg" using lanes by (simp add: lanes_ok_def prepared_config_def Let_def)
      moreover have "prepare_reserve now p cfg ps s = (r, s')" using run Pair y t by (simp add: prepare_def errorE_defs)
      ultimately show ?thesis using keeps_reserve [OF cfg(1) _ assms inv] by blast
    qed
  qed
  then show "wpE (prepare ser url_scheme resolve now p) (\<lambda>_. shard_inv c) (\<lambda>_. shard_inv c) s"
    by (auto simp: wpE_def split: prod.split sum.split)
qed

lemma attach_inv:
  assumes inv: "shard_inv c s" and run: "attach_prepared now ctx att env s = (r, s')"
  shows "shard_inv c s'"
proof (cases "attach_take now ctx att s")
  case (Pair x t)
  have t: "shard_inv c t" by (rule shard_sections.keeps_result [OF shard_sections.keeps_take inv Pair])
  show ?thesis
  proof (cases x)
    case (Inl e)
    with Pair run t show ?thesis by (simp add: attach_prepared_def errorE_defs)
  next
    case (Inr p)
    then have "map_of (prepared s) (session_id ctx) = Some p"
      using Pair by (auto simp: attach_take_def errorE_defs lock_prepared_def split: sum.splits option.splits if_splits)
    then have lanes: "lanes_ok (pr_session_config p)" using inv by (simp add: shard_inv_def prepared_inv_def)
    have "admit_internal ctx (pr_session_config p) (pr_providers p) (Some (pr_fingerprint p)) (Some (pr_attachment_fingerprint p)) env t = (r, s')"
      using run Pair Inr by (simp add: attach_prepared_def errorE_defs)
    with keeps_admit [OF lanes t] t show ?thesis
      by (auto simp: admit_internal_def errorE_defs split: if_splits sum.splits)
  qed
qed

lemma upgrade_inv:
  assumes "shard_inv c s" and "\<And>h t. shard_inv c t \<Longrightarrow> shard_inv c (up_meanwhile U h t)"
  shows "shard_inv c (snd (snd (on_upgrade U ctx att s)))"
proof -
  have run: "shard_inv c (snd (snd (run_transport uuid ok now w (up_meanwhile U) h att evs t)))" if t: "shard_inv c t"
    for uuid ok now w h att evs t
  proof -
    obtain ws h' b where l: "transport_loop uuid ok 0 (hnd_context h) h evs = (ws, h', b)" by (cases rule: prod_cases3)
    have m: "shard_inv c (up_meanwhile U h' t)" using assms(2) t by blast
    have "shard_inv c (snd (disconnect_session now (hnd_context h) att w (up_meanwhile U h' t)))"
      unfolding disconnect_session_def
      by (rule shard_sections.keeps_result [OF shard_sections.keeps_operations(2) m]) (rule prod.collapse [symmetric])
    then show ?thesis using l m by (simp add: run_transport_def)
  qed
  obtain r s' where a: "attach_prepared (up_now U) ctx att (up_env U) s = (r, s')" by fastforce
  have "shard_inv c s'" using attach_inv [OF assms(1) a] .
  with a run show ?thesis by (auto simp: on_upgrade_def run_websocket_def Let_def split: sum.split)
qed

lemma realtime_inv:
  assumes inv: "shard_inv c s" and "\<And>t. shard_inv c t \<Longrightarrow> shard_inv c (up_before U t)"
    and "\<And>h t. shard_inv c t \<Longrightarrow> shard_inv c (up_meanwhile U h t)"
  shows "shard_inv c (snd (snd (realtime sha uuid headers now U s)))"
proof -
  obtain r s' where r: "realtime_checks sha uuid headers now s = (r, s')" by fastforce
  have "keeps_inv c (realtime_checks sha uuid headers now)"
    unfolding realtime_checks_def by (intro hoare shard_sections.keeps_basic shard_sections.keeps_operations)
  then have "shard_inv c s'" using inv r by (rule shard_sections.keeps_result)
  with r assms(2) upgrade_inv [OF _ assms(3)] show ?thesis
    by (auto simp: realtime_def Let_def split: sum.split prod.split) (metis snd_conv)
qed

text \<open>
  Whatever is requested, the invariant survives, provided that what other requests do during an upgraded
  connection keeps it.
\<close>

lemma router_keeps_invariant:
  assumes "shard_inv cfg s" and "c_now c \<le> clock_max"
    and "\<And>t. shard_inv cfg t \<Longrightarrow> shard_inv cfg (up_before (c_upgrade c) t)"
    and "\<And>h t. shard_inv cfg t \<Longrightarrow> shard_inv cfg (up_meanwhile (c_upgrade c) h t)"
  shows "shard_inv cfg (snd (snd (router A L build limit c rq s)))"
proof -
  have "keeps_inv cfg (bindE (liftE (admission_from_headers uuid headers)) (\<lambda>ctx.
      if session_id ctx \<noteq> sid then throwE e
      else bindE (liftE (attachment_fingerprint_from_headers sha headers)) (\<lambda>att. shard_cancel_session now ctx att w)))"
    for uuid headers sid e sha now w
    unfolding shard_cancel_session_def by (intro hoare shard_sections.keeps_basic shard_sections.keeps_operations)
  moreover have "keeps_inv cfg (bindE (liftE x) (prepare ser url_scheme resolve (c_now c)))" for x ser url_scheme resolve
    by (intro hoare shard_sections.keeps_basic prepare_inv assms(2))
  ultimately have "shard_inv cfg (snd (snd (run_handler A L app c rq captures h s)))" for app captures h
    using assms(1) realtime_inv [OF assms(1,3,4)]
    by (auto simp: run_handler_def replied_def readiness_def server_load_def prepare_session_def server_cancel_session_def
        split: handler.split sum.split intro!: respond_inv shard_sections.keeps_load)
  then show ?thesis using assms(1) by (auto simp: router_def replied_def split: option.split)
qed

lemma shutdown_keeps_invariant: "shard_inv c s \<Longrightarrow> shard_inv c (serve_shutdown after_grace after_force s)"
  unfolding serve_shutdown_def
  by (rule shard_sections.keeps_result [OF shard_sections.keeps_operations(3) shard_sections.closed]) (auto intro: prod.collapse [symmetric])

end
