(* ===== verification/Sinks.thy ===== *)
theory Sinks
  imports Events
begin

text \<open>
  The sinks that the program brings along for local use (\<open>event.rs\<close>) and the pipeline with its sink in the
  loop. What the trait \<open>EventSink\<close> promises for them is the locale \<open>exact_sink\<close>: a batch that was
  acknowledged has been kept, as the sink views it, and one that was refused has not. What the remote
  endpoint behind \<open>HttpEventSink\<close> keeps is not under the program's control and not modelled: for it the
  theorems about \<open>worker_publish\<close> (theory \<open>Events\<close>) hold for any answers.
\<close>

subsection \<open>The sinks\<close>

record MemoryEventSink =
  mem_events :: "PendingRuntimeEvent list"
  mem_poisoned :: bool

definition memory_sink_publish ::
  "MemoryEventSink \<Rightarrow> PendingRuntimeEvent list \<Rightarrow> (EventSinkError + unit) \<times> MemoryEventSink" where
  "memory_sink_publish k events =
     (if mem_poisoned k then (Inl \<lparr>sink_kind = Permanent, sink_message = ''memory event sink unavailable''\<rparr>, k)
      else (Inr (), k\<lparr>mem_events := mem_events k @ events\<rparr>))"

definition memory_sink_events :: "MemoryEventSink \<Rightarrow> PendingRuntimeEvent list result" where
  "memory_sink_events k =
     (if mem_poisoned k then Inl (Internal ''memory event sink lock poisoned'') else Inr (mem_events k))"

text \<open>The tracing sink logs metadata only: type, version, correlation and privacy.\<close>

type_synonym trace_line = "EventType \<times> nat \<times> string \<times> EventPrivacy"

definition trace_metadata :: "PendingRuntimeEvent \<Rightarrow> trace_line" where
  "trace_metadata ev = (event_type ev, ev_version ev, ev_correlation_id ev, ev_privacy ev)"

definition tracing_sink_publish ::
  "trace_line list \<Rightarrow> PendingRuntimeEvent list \<Rightarrow> (EventSinkError + unit) \<times> trace_line list" where
  "tracing_sink_publish lines events =
     (Inr (), lines @ map trace_metadata events)"

subsection \<open>The pipeline with its sink\<close>

inductive delivery_step ::
  "('k \<Rightarrow> PendingRuntimeEvent list \<Rightarrow> (EventSinkError + unit) \<times> 'k) \<Rightarrow> EventPipeline \<times> 'k \<Rightarrow> EventPipeline \<times> 'k \<Rightarrow> bool"
  for publish :: "'k \<Rightarrow> PendingRuntimeEvent list \<Rightarrow> (EventSinkError + unit) \<times> 'k" where
  produce: "try_publish p ev = Inr p' \<Longrightarrow> delivery_step publish (p, k) (p', k)"
| terminal: "publish_terminal p ev elapsed = Ready (Inr p') \<Longrightarrow> delivery_step publish (p, k) (p', k)"
| close: "delivery_step publish (p, k) (pipeline_close p, k)"
| recv: "worker_recv p = Some p' \<Longrightarrow> delivery_step publish (p, k) (p', k)"
| collect: "worker_collect p = Some p' \<Longrightarrow> delivery_step publish (p, k) (p', k)"
| deliver: "ep_worker p = Publishing batch backoff attempt \<Longrightarrow> publish k batch = (answer, k') \<Longrightarrow>
    worker_publish p answer = Some p' \<Longrightarrow> delivery_step publish (p, k) (p', k')"

inductive delivery_reachable ::
  "('k \<Rightarrow> PendingRuntimeEvent list \<Rightarrow> (EventSinkError + unit) \<times> 'k) \<Rightarrow> 'k \<Rightarrow> usize \<Rightarrow> usize \<Rightarrow> EventRetryPolicy \<Rightarrow>
   EventPipeline \<times> 'k \<Rightarrow> bool"
  for publish :: "'k \<Rightarrow> PendingRuntimeEvent list \<Rightarrow> (EventSinkError + unit) \<times> 'k" and k0 :: 'k
    and capacity :: usize and batch_size :: usize and retry :: EventRetryPolicy where
  spawned: "spawn_with_retry capacity batch_size retry = Some p \<Longrightarrow>
    delivery_reachable publish k0 capacity batch_size retry (p, k0)"
| step: "delivery_reachable publish k0 capacity batch_size retry x \<Longrightarrow> delivery_step publish x y \<Longrightarrow>
    delivery_reachable publish k0 capacity batch_size retry y"

lemma delivery_step_pipeline: "delivery_step publish (p, k) (p', k') \<Longrightarrow> pipeline_step p p'"
  by (auto elim!: delivery_step.cases intro: pipeline_step.intros worker_step.intros)

lemma delivery_pipeline:
  "delivery_reachable publish k0 capacity batch_size retry x \<Longrightarrow> pipeline_reachable capacity batch_size retry (fst x)"
proof (induction rule: delivery_reachable.induct)
  case (step x y)
  then show ?case
    by (cases x; cases y) (auto intro: pipeline_reachable.step delivery_step_pipeline)
qed (simp add: pipeline_reachable.spawned)

subsection \<open>The contract of a sink\<close>

text \<open>The steps that do not reach the sink.\<close>

lemma local_steps:
  "try_publish p ev = Inr p' \<Longrightarrow> ep_published p' = ep_published p \<and> ep_worker p' = ep_worker p \<and> (\<exists>more. accepted p' = accepted p @ more)"
  "publish_terminal p ev elapsed = Ready (Inr p') \<Longrightarrow>
     ep_published p' = ep_published p \<and> ep_worker p' = ep_worker p \<and> (\<exists>more. accepted p' = accepted p @ more)"
  "ep_published (pipeline_close p) = ep_published p \<and> ep_worker (pipeline_close p) = ep_worker p \<and> accepted (pipeline_close p) = accepted p"
  by (auto simp: try_publish_ok publish_terminal_ok enqueue_def pipeline_close_def)

lemma worker_steps:
  "worker_recv p = Some p' \<Longrightarrow> ep_published p' = ep_published p \<and> accepted p' = accepted p \<and> ep_worker p = Receiving \<and>
     (\<forall>batch b n. ep_worker p' \<noteq> Publishing batch b n)"
  "worker_collect p = Some p' \<Longrightarrow> ep_published p' = ep_published p \<and> accepted p' = accepted p \<and> (\<exists>batch. ep_worker p = Collecting batch)"
  by (auto simp: worker_recv_def worker_collect_def take_queued_def chan_recv_def stop_worker_def Let_def
      split: option.splits if_splits worker_state.splits list.splits)

locale exact_sink =
  fixes publish :: "'k \<Rightarrow> PendingRuntimeEvent list \<Rightarrow> (EventSinkError + unit) \<times> 'k"
    and stored :: "'k \<Rightarrow> 'v list"
    and view :: "PendingRuntimeEvent \<Rightarrow> 'v"
  assumes kept: "publish k evs = (Inr u, k') \<Longrightarrow> stored k' = stored k @ map view evs"
    and refused: "publish k evs = (Inl e, k') \<Longrightarrow> stored k' = stored k"
begin

lemma reachable_exact:
  assumes "delivery_reachable publish k0 capacity batch_size retry x" and "stored k0 = []"
  shows "stored (snd x) = map view (concat (ep_published (fst x)))"
  using assms(1)
proof (induction rule: delivery_reachable.induct)
  case (spawned p)
  then show ?case using assms(2) by (auto simp: spawn_with_retry_def split: option.splits if_splits)
next
  case (step x y)
  from step.hyps(2) step.IH show ?case
  proof cases
    case (deliver p batch backoff attempt k answer k' p')
    then show ?thesis using step.IH kept refused
      by (cases answer) (auto simp: worker_publish_def stop_worker_def split: if_splits)
  qed (use local_steps worker_steps in auto)
qed

text \<open>At any time a sink holds a prefix of what was accepted, and all of it once the pipeline has closed well.\<close>

lemma holds_prefix:
  assumes "delivery_reachable publish k0 capacity batch_size retry (p, k)" and "stored k0 = []"
  shows "(\<exists>rest. map view (accepted p) = stored k @ rest) \<and>
    (close_result True p = Ready (Inr ()) \<longrightarrow> stored k = map view (accepted p))"
proof -
  have "pipeline_inv capacity p" using assms(1) delivery_pipeline reachable_inv by fastforce
  then obtain rest where rest: "accepted p = concat (ep_published p) @ rest" "ep_worker p = Stopped (Inr ()) \<longrightarrow> rest = []"
    by (auto simp: pipeline_inv_def delivery_inv_def split: worker_state.splits)
  have st: "stored k = map view (concat (ep_published p))" using reachable_exact [OF assms] by simp
  have all: "map view (accepted p) = stored k @ map view rest" unfolding rest(1) st by simp
  moreover have "stored k = map view (accepted p)" if "close_result True p = Ready (Inr ())"
    unfolding all using rest(2) that by (auto simp: close_result_def split: worker_state.splits)
  ultimately show ?thesis by blast
qed

end

interpretation memory_sink: exact_sink memory_sink_publish mem_events "\<lambda>ev. ev"
  by unfold_locales (auto simp: memory_sink_publish_def split: if_splits)

interpretation tracing_sink: exact_sink tracing_sink_publish "\<lambda>lines. lines" trace_metadata
  by unfold_locales (auto simp: tracing_sink_publish_def)

lemma memory_sink_sound:
  assumes "delivery_reachable memory_sink_publish k0 capacity batch_size retry x" and "\<not> mem_poisoned k0"
  shows "\<not> mem_poisoned (snd x)"
  using assms(1)
proof (induction rule: delivery_reachable.induct)
  case (step x y)
  then show ?case by (auto elim!: delivery_step.cases simp: memory_sink_publish_def)
qed (use assms(2) in simp)

lemma memory_sink_complete:
  assumes "delivery_reachable memory_sink_publish k0 capacity batch_size retry (p, k)" and "mem_events k0 = []" and "\<not> mem_poisoned k0"
    and "close_result True p = Ready (Inr ())"
  shows "memory_sink_events k = Inr (accepted p)"
  using memory_sink.holds_prefix [OF assms(1,2)] memory_sink_sound [OF assms(1,3)] assms(4) by (simp add: memory_sink_events_def)

lemma accepted_distinct: "pipeline_inv capacity p \<Longrightarrow> distinct (accepted p)"
  unfolding pipeline_inv_def sequence_inv_def by (metis distinct_map distinct_upt)

subsection \<open>Schedules\<close>

text \<open>\<open>None\<close> hands the batch to the sink, \<open>Some c\<close> is a command of the pipeline.\<close>

fun delivery_exec ::
  "('k \<Rightarrow> PendingRuntimeEvent list \<Rightarrow> (EventSinkError + unit) \<times> 'k) \<Rightarrow> pipeline_cmd option \<Rightarrow> EventPipeline \<times> 'k \<Rightarrow>
   (EventPipeline \<times> 'k) option" where
  "delivery_exec publish (Some (Sink _)) x = None"
| "delivery_exec publish (Some c) (p, k) = map_option (\<lambda>p'. (p', k)) (pipeline_exec c p)"
| "delivery_exec publish None (p, k) =
     (case ep_worker p of
        Publishing batch _ _ \<Rightarrow>
          (case publish k batch of (answer, k') \<Rightarrow> map_option (\<lambda>p'. (p', k')) (worker_publish p answer))
      | _ \<Rightarrow> None)"

fun delivery_run ::
  "('k \<Rightarrow> PendingRuntimeEvent list \<Rightarrow> (EventSinkError + unit) \<times> 'k) \<Rightarrow> pipeline_cmd option list \<Rightarrow> EventPipeline \<times> 'k \<Rightarrow>
   (EventPipeline \<times> 'k) option" where
  "delivery_run publish [] x = Some x"
| "delivery_run publish (c # cs) x = (case delivery_exec publish c x of None \<Rightarrow> None | Some y \<Rightarrow> delivery_run publish cs y)"

lemma delivery_exec_step: "delivery_exec publish c x = Some y \<Longrightarrow> delivery_step publish x y"
  by (induction publish c x rule: delivery_exec.induct)
    (auto intro: delivery_step.intros split: worker_state.splits prod.splits sum.splits poll.splits)

lemma delivery_run_reachable:
  "delivery_reachable publish k0 cap n retry x \<Longrightarrow> delivery_run publish cs x = Some y \<Longrightarrow>
   delivery_reachable publish k0 cap n retry y"
proof (induction cs arbitrary: x)
  case (Cons c cs)
  then obtain z where "delivery_exec publish c x = Some z" "delivery_run publish cs z = Some y" by (auto split: option.splits)
  with Cons.IH Cons.prems(1) show ?case by (blast intro: delivery_reachable.step delivery_exec_step)
qed simp

subsection \<open>Guarantees\<close>

text \<open>
  C3 (safety). At every moment of a delivery the memory sink holds a prefix of the events the
  pipeline accepted, in order and each once, and the tracing sink has logged the metadata of
  such a prefix and nothing else; once close returns Ok they hold, respectively have logged,
  every accepted event.
\<close>

theorem local_sinks_hold_every_event:
  assumes "delivery_reachable memory_sink_publish \<lparr>mem_events = [], mem_poisoned = False\<rparr> capacity batch_size retry (p, k)"
    and "delivery_reachable tracing_sink_publish [] capacity' batch_size' retry' (q, lines)"
  shows "(\<exists>stored rest. memory_sink_events k = Inr stored \<and> accepted p = stored @ rest \<and> distinct stored) \<and>
    (close_result True p = Ready (Inr ()) \<longrightarrow> memory_sink_events k = Inr (accepted p)) \<and>
    (\<exists>rest. map trace_metadata (accepted q) = lines @ rest) \<and>
    (close_result True q = Ready (Inr ()) \<longrightarrow> lines = map trace_metadata (accepted q))"
proof -
  have k: "memory_sink_events k = Inr (mem_events k)" using memory_sink_sound [OF assms(1)] by (simp add: memory_sink_events_def)
  have "pipeline_inv capacity p" using assms(1) delivery_pipeline reachable_inv by fastforce
  then have "distinct (accepted p)" by (rule accepted_distinct)
  moreover obtain rest where rest: "accepted p = mem_events k @ rest"
    using memory_sink.holds_prefix [OF assms(1)] by (auto simp del: map_map)
  ultimately have "distinct (mem_events k)" by simp
  with k rest show ?thesis using memory_sink.holds_prefix [OF assms(1)] tracing_sink.holds_prefix [OF assms(2)] by auto
qed

theorem local_sinks_hold_every_event_witness:
  "\<exists>p k. close_result True p = Ready (Inr ()) \<and> memory_sink_events k = Inr (accepted p) \<and>
     map event_type (accepted p) = [SessionReady, SessionCompleted]"
proof -
  let ?k0 = "\<lparr>mem_events = [], mem_poisoned = False\<rparr>"
  let ?cs = "[Some (Publish (demo_event SessionReady)), Some Recv, Some Collect, None, Some (Publish (demo_event SessionCompleted)),
    Some Close, Some Recv, Some Collect, None, Some Recv]"
  obtain p0 where p0: "spawn_with_retry 1 2 default_retry = Some p0" by (simp add: pipeline_eval)
  obtain p k where run: "delivery_run memory_sink_publish ?cs (p0, ?k0) = Some (p, k)"
    "close_result True p = Ready (Inr ())" "map event_type (accepted p) = [SessionReady, SessionCompleted]"
    using p0 by (auto simp: pipeline_eval memory_sink_publish_def close_result_def split: if_splits)
  have reached: "delivery_reachable memory_sink_publish ?k0 1 2 default_retry (p, k)"
    by (rule delivery_run_reachable [OF delivery_reachable.spawned [OF p0] run(1)])
  have "delivery_reachable tracing_sink_publish [] 1 2 default_retry (p0, [])" by (rule delivery_reachable.spawned [OF p0])
  from local_sinks_hold_every_event [OF reached this] run(2,3) show ?thesis by (intro exI [of _ p] exI [of _ k] conjI) simp_all
qed

end
