(* ===== verification/Commands.thy ===== *)
theory Commands
  imports CommandLine Routes Sinks
begin

text \<open>
  The commands of the runtime as a whole (\<open>main.rs\<close>): \<open>serve\<close> from its arguments to the end of the
  server, \<open>simulate\<close> from its arguments to the file of semantic events, and \<open>main\<close>. External: the parsing of
  arguments, the tracing subscriber, the signals, the socket, the files and what the clients of the
  server ask for.
\<close>

subsection \<open>Serving\<close>

text \<open>
  \<open>address\<close>: what binding gives, and then the address it is bound to. \<open>stdout\<close>: the error of printing
  the connection. \<open>traffic\<close>: what the connections
  do to the shard until the shutdown signal. \<open>served\<close>: the server ends without an error of its listener.
\<close>

record serve_world =
  sv_boot :: string
  sv_token :: string
  sv_now :: nat
  sv_address :: "string option option"
  sv_stdout :: "string option"
  sv_traffic :: "ShardSupervisor \<Rightarrow> ShardSupervisor"
  sv_after_grace :: "string \<Rightarrow> bool"
  sv_after_force :: "string \<Rightarrow> bool"
  sv_served :: bool

definition serve_listen ::
  "manifest_libs \<Rightarrow> (byte list \<Rightarrow> fingerprint) \<Rightarrow> (AgentManifest \<Rightarrow> string + byte list) \<Rightarrow>
   (AgentManifest \<Rightarrow> 'x option \<Rightarrow> ProviderSet result) \<Rightarrow> ProviderSet \<Rightarrow> serve_world \<Rightarrow> string \<Rightarrow> usize \<Rightarrow> u64 \<Rightarrow> string option \<Rightarrow>
   string + ShardSupervisor" where
  "serve_listen M sha to_vec resolve scripted W bind n shutdown_grace_ms agent_manifest =
     (case serve_supervisor (sv_boot W) scripted n shutdown_grace_ms of
        Inl e \<Rightarrow> Inl e
      | Inr s \<Rightarrow>
          (case sv_address W of
             None \<Rightarrow> Inl (''failed to bind runtime shard to '' @ bind)
           | Some None \<Rightarrow> Inl ''failed to read bound address''
           | Some (Some local_address) \<Rightarrow>
               (case agent_manifest of
                  None \<Rightarrow> Inr s
                | Some arg \<Rightarrow>
                    (case prepare_local_realtime M sha to_vec resolve (sv_stdout W) (sv_token W) (sv_now W) local_address arg s of
                       (Inl e, _) \<Rightarrow> Inl e
                     | (Inr _, s') \<Rightarrow> Inr s'))))"

definition serve_command ::
  "manifest_libs \<Rightarrow> (byte list \<Rightarrow> fingerprint) \<Rightarrow> (AgentManifest \<Rightarrow> string + byte list) \<Rightarrow>
   (AgentManifest \<Rightarrow> 'x option \<Rightarrow> ProviderSet result) \<Rightarrow> ProviderSet \<Rightarrow> serve_world \<Rightarrow> string \<Rightarrow> usize \<Rightarrow> u64 \<Rightarrow> string option \<Rightarrow>
   (string + unit) \<times> ShardSupervisor option" where
  "serve_command M sha to_vec resolve scripted W bind n shutdown_grace_ms agent_manifest =
     (case serve_listen M sha to_vec resolve scripted W bind n shutdown_grace_ms agent_manifest of
        Inl e \<Rightarrow> (Inl e, None)
      | Inr s \<Rightarrow>
          let s' = serve_shutdown (sv_after_grace W) (sv_after_force W) (sv_traffic W s) in
          (if sv_served W then Inr () else Inl ''runtime server failed'', Some s'))"

subsection \<open>Simulating\<close>

text \<open>
  \<open>ready\<close> and \<open>outputs\<close>: what waiting for outputs gives. \<open>before\<close> and \<open>after\<close>: what the actor has made of its
  queues before the caller's messages and before the end. The rest: whether standard output can be
  flushed, whether the actor finishes within two seconds, its sink, whether the file can be written.
\<close>

record simulation_world =
  sw_ready :: received_output
  sw_before :: "SessionHandle \<Rightarrow> SessionHandle"
  sw_outputs :: "received_output list"
  sw_after :: "SessionHandle \<Rightarrow> SessionHandle"
  sw_flushed :: bool
  sw_drained :: bool
  sw_sink :: MemoryEventSink
  sw_written :: bool

fun event_lines :: "(PendingRuntimeEvent \<Rightarrow> string + string) \<Rightarrow> PendingRuntimeEvent list \<Rightarrow> string + string" where
  "event_lines print_event [] = Inr []"
| "event_lines print_event (ev # evs) =
     (case print_event ev of
        Inl e \<Rightarrow> Inl e
      | Inr line \<Rightarrow> map_sum id (\<lambda>rest. line @ [LF] @ rest) (event_lines print_event evs))"

text \<open>The end of a simulation: the result and the content of the event file.\<close>

definition write_events ::
  "(PendingRuntimeEvent \<Rightarrow> string + string) \<Rightarrow> MemoryEventSink \<Rightarrow> bool \<Rightarrow> string option \<Rightarrow> (string + unit) \<times> string option" where
  "write_events print_event sink written event_path =
     (case event_path of
        None \<Rightarrow> (Inr (), None)
      | Some path \<Rightarrow>
          (case memory_sink_events sink of
             Inl e \<Rightarrow> (Inl (error_to_string e), None)
           | Inr evs \<Rightarrow>
               (case event_lines print_event evs of
                  Inl e \<Rightarrow> (Inl e, None)
                | Inr ndjson \<Rightarrow>
                    if written then (Inr (), Some ndjson)
                    else (Inl (''failed to write semantic events to '' @ path), None))))"

definition simulate_finish ::
  "(PendingRuntimeEvent \<Rightarrow> string + string) \<Rightarrow> simulation_world \<Rightarrow> string option \<Rightarrow> SessionHandle \<Rightarrow> (string + unit) \<times> string option" where
  "simulate_finish print_event w event_path h =
     (if \<not> sw_flushed w then (Inl ''failed to flush simulation NDJSON'', None)
      else case session_end h ''simulation_complete'' of
        (Inl e, _) \<Rightarrow> (Inl (error_to_string e), None)
      | (Inr _, _) \<Rightarrow>
          if \<not> sw_drained w then (Inl ''simulation session did not drain'', None)
          else write_events print_event (sw_sink w) (sw_written w) event_path)"

text \<open>From the lease on: the lines printed, how it ended (\<open>None\<close> while it waits for outputs) and the event file.\<close>

definition simulate_session ::
  "ndjson_libs \<Rightarrow> (PendingRuntimeEvent \<Rightarrow> string + string) \<Rightarrow> simulation_world \<Rightarrow> string \<Rightarrow> string option \<Rightarrow> SessionHandle \<Rightarrow>
   string list \<times> (string + unit) option \<times> string option" where
  "simulate_session N print_event w input event_path h =
     (case receive_output (sw_ready w) of
        Inl e \<Rightarrow> ([], Some (Inl e), None)
      | Inr ready \<Rightarrow>
          (case write_ndjson N ready of
             Inl e \<Rightarrow> ([], Some (Inl e), None)
           | Inr line \<Rightarrow>
               (case simulate_messages input (sw_before w h) of
                  (Inl e, _) \<Rightarrow> ([line], Some (Inl (error_to_string e)), None)
                | (Inr _, h') \<Rightarrow>
                    (case simulate_loop N (sw_outputs w) of
                       (ls, None) \<Rightarrow> (line # ls, None, None)
                     | (ls, Some (Inl e)) \<Rightarrow> (line # ls, Some (Inl e), None)
                     | (ls, Some (Inr _)) \<Rightarrow>
                         (case simulate_finish print_event w event_path (sw_after w h') of
                            (r, file) \<Rightarrow> (line # ls, Some r, file))))))"

text \<open>The outer \<open>None\<close> is a panic of the resolver, as in \<open>simulate_lease\<close>.\<close>

definition simulate ::
  "manifest_libs \<Rightarrow> (json \<Rightarrow> string) \<Rightarrow> (string \<Rightarrow> json option) \<Rightarrow> ndjson_libs \<Rightarrow> (PendingRuntimeEvent \<Rightarrow> string + string) \<Rightarrow>
   simulation_world \<Rightarrow> string \<Rightarrow> env_action list list \<Rightarrow> string \<Rightarrow> string \<Rightarrow> string option \<Rightarrow>
   (string list \<times> (string + unit) option \<times> string option) option" where
  "simulate M print from_str N print_event w uuid env manifest_argument input event_path =
     (case simulate_lease M print from_str uuid env manifest_argument input of
        None \<Rightarrow> None
      | Some (Inl e) \<Rightarrow> Some ([], Some (Inl e), None)
      | Some (Inr (h, _)) \<Rightarrow> Some (simulate_session N print_event w input event_path h))"

subsection \<open>The program\<close>

text \<open>
  The libraries of the program and what its environment does: \<open>pw_tracing\<close> is the error of installing
  the tracing subscriber, if any; \<open>pw_probe\<close> whether the probed address is a loopback address, whether
  the exchange ends in time, and the connection.
\<close>

record 'u program_libs =
  pl_manifest :: manifest_libs
  pl_sha :: "byte list \<Rightarrow> fingerprint"
  pl_to_vec :: "AgentManifest \<Rightarrow> string + byte list"
  pl_codecs :: gateway_codecs
  pl_urls :: "'u url_lib"
  pl_http :: "'u http_lib"
  pl_ndjson :: ndjson_libs
  pl_print_event :: "PendingRuntimeEvent \<Rightarrow> string + string"
  pl_from_slice :: "byte list \<Rightarrow> ReadinessContract option"

record program_world =
  pw_tracing :: "string option"
  pw_scripted :: ProviderSet
  pw_serve :: serve_world
  pw_simulation :: simulation_world
  pw_uuid :: string
  pw_env :: "env_action list list"
  pw_probe :: "bool \<times> bool \<times> probe_io"

text \<open>The resolver's panic, which no valid manifest reaches, is an error here as in theory \<open>ServerGuarantees\<close>.\<close>

definition program_resolver ::
  "'u program_libs \<Rightarrow> string option \<Rightarrow> AgentManifest \<Rightarrow> 'u RuntimeServiceAccess option \<Rightarrow> ProviderSet result" where
  "program_resolver L agent_manifest m access =
     (case serve_resolver (pl_codecs L) (pl_urls L) (pl_http L) agent_manifest m access of
        Some r \<Rightarrow> r | None \<Rightarrow> Inl (Internal ''resolver panicked''))"

text \<open>\<open>None\<close>: a simulation still waits for outputs or its resolver panicked.\<close>

definition main :: "'u program_libs \<Rightarrow> program_world \<Rightarrow> Command \<Rightarrow> (string + unit) option" where
  "main L W cmd =
     (case pw_tracing W of
        Some e \<Rightarrow> Some (Inl (''failed to initialize tracing: '' @ e))
      | None \<Rightarrow>
          (case cmd of
             Serve bind n shutdown_grace_ms agent_manifest \<Rightarrow>
               Some (fst (serve_command (pl_manifest L) (pl_sha L) (pl_to_vec L) (program_resolver L agent_manifest)
                 (pw_scripted W) (pw_serve W) bind n shutdown_grace_ms agent_manifest))
           | Simulate agent_manifest input event_path \<Rightarrow>
               Option.bind (simulate (pl_manifest L) (gc_print (pl_codecs L)) (gc_from_str (pl_codecs L)) (pl_ndjson L)
                 (pl_print_event L) (pw_simulation W) (pw_uuid W) (pw_env W) agent_manifest input event_path) (\<lambda>(_, r, _). r)
           | ProbeCommand address probe_ms \<Rightarrow>
               (case pw_probe W of (loopback, in_time, io) \<Rightarrow>
                  Some (probe_run (pl_from_slice L) address loopback (from_millis probe_ms) in_time io))))"

subsection \<open>Guarantees\<close>

text \<open>
  A server that has ended leaves a shard in its invariant, closed and without preparations, whatever its
  clients did that keeps the invariant (which every request does, see theory \<open>Routes\<close>).
\<close>

lemma listening_inv:
  assumes "serve_listen M sha to_vec resolve scripted W bind n grace agent_manifest = Inr s"
    and "shard_bounds (serve_config n grace)" and "sv_now W \<le> clock_max"
  shows "shard_inv (serve_config n grace) s"
proof -
  obtain s0 where s0: "serve_supervisor (sv_boot W) scripted n grace = Inr s0"
    using assms(1) by (auto simp: serve_listen_def split: sum.splits)
  then have start: "shard_inv (serve_config n grace) s0"
    using assms(2) by (auto simp: serve_supervisor_def intro: new_shard_inv split: sum.splits)
  have step: "prepare ser url_scheme resolve (sv_now W) p s0 = (x, t) \<Longrightarrow> shard_inv (serve_config n grace) t" for ser url_scheme p x t
    using shard_sections.keeps_result [OF prepare_inv [OF assms(3)] start] by blast
  have "shard_inv (serve_config n grace) (snd (prepare_local_realtime M sha to_vec resolve stdout uuid (sv_now W) address arg s0))"
    for stdout uuid address arg
    by (auto simp: prepare_local_realtime_def Let_def start step split: sum.split prod.split option.split)
  with start show ?thesis using assms(1) s0
    by (auto simp: serve_listen_def split: option.splits prod.splits sum.splits) (metis snd_conv)
qed

lemma served_shard_closed:
  assumes "serve_command M sha to_vec resolve scripted W bind n grace agent_manifest = (r, Some s')"
    and "shard_bounds (serve_config n grace)" and "sv_now W \<le> clock_max"
    and "\<And>s. shard_inv (serve_config n grace) s \<Longrightarrow> shard_inv (serve_config n grace) (sv_traffic W s)"
  shows "shard_inv (serve_config n grace) s' \<and> \<not> accepting s' \<and> prepared s' = []"
proof -
  obtain s where s: "serve_listen M sha to_vec resolve scripted W bind n grace agent_manifest = Inr s"
    "s' = serve_shutdown (sv_after_grace W) (sv_after_force W) (sv_traffic W s)"
    using assms(1) by (auto simp: serve_command_def Let_def split: sum.splits)
  have t: "shard_inv (serve_config n grace) (sv_traffic W s)" using assms(4) listening_inv [OF s(1) assms(2,3)] by blast
  have open_locks: "\<not> sessions_poisoned (begin_draining (sv_traffic W s))" "\<not> prepared_poisoned (begin_draining (sv_traffic W s))"
    using shard_inv_unpoisoned(2,3) [OF t] by (simp_all add: begin_draining_def)
  then have "\<not> accepting s' \<and> prepared s' = []"
    using drain_closes [OF open_locks] s(2) by (simp add: serve_shutdown_def)
  then show ?thesis using shutdown_keeps_invariant [OF t] s(2) by simp
qed

text \<open>
  The event file of a simulation that ends well holds one line per event its session published, in
  the order of publication, once the pipeline of the session has closed well.
\<close>

lemma event_lines_ok: "event_lines print_event evs = Inr content \<Longrightarrow>
  \<exists>ls. map print_event evs = map Inr ls \<and> content = concat (map (\<lambda>l. l @ [LF]) ls)"
proof (induction evs arbitrary: content)
  case (Cons ev evs)
  then obtain line rest where line: "print_event ev = Inr line" "event_lines print_event evs = Inr rest" "content = line @ [LF] @ rest"
    by (cases "print_event ev"; cases "event_lines print_event evs") auto
  with Cons.IH [OF line(2)] obtain ls where "map print_event evs = map Inr ls" "rest = concat (map (\<lambda>l. l @ [LF]) ls)" by blast
  then show ?case using line(1,3) by (intro exI [of _ "line # ls"]) simp
qed simp

lemma simulation_event_file:
  assumes "simulate M print from_str N print_event w uuid env arg input (Some path) = Some (ls, Some (Inr ()), file)"
    and "delivery_reachable memory_sink_publish k0 capacity batch_size retry (p, sw_sink w)" and "mem_events k0 = []"
    and "\<not> mem_poisoned k0" and "close_result True p = poll.Ready (Inr ())"
  shows "\<exists>event_json. map print_event (accepted p) = map Inr event_json \<and> file = Some (concat (map (\<lambda>l. l @ [LF]) event_json))"
proof -
  have "memory_sink_events (sw_sink w) = Inr (accepted p)" by (rule memory_sink_complete [OF assms(2-5)])
  moreover have "write_events print_event (sw_sink w) (sw_written w) (Some path) = (Inr (), file)"
    using assms(1) by (auto simp: simulate_def simulate_session_def simulate_finish_def split: option.splits sum.splits prod.splits if_splits)
  ultimately have "\<exists>content. event_lines print_event (accepted p) = Inr content \<and> file = Some content"
    by (auto simp: write_events_def split: sum.splits if_splits)
  then show ?thesis using event_lines_ok by blast
qed

end
