(* ===== verification/Spec2Isabelle.thy ===== *)
theory Spec2Isabelle
  imports Terminal Responses SessionBounds ShardLifecycle Gateway Completion Commands
begin

text \<open>
  A verification of the Calluwu realtime runtime (\<open>runtime/calluwu-core\<close>, Rust): a bounded,
  multi-tenant server of voice-agent sessions.

  \<^bold>\<open>The program.\<close> A \<^emph>\<open>shard\<close> (\<open>supervisor.rs\<close>) owns the registries of active and prepared sessions.
  The control plane prepares a session over HTTP (\<open>server.rs\<close>) with a deployment manifest
  (\<open>manifest.rs\<close>); the caller's connection attaches to the preparation by tenant, generation and the
  fingerprint of its ingest capability. Each session is an \<^emph>\<open>actor\<close> (\<open>session.rs\<close>): a loop over a
  control and a media mailbox, deadlines and cancellation, which owns the conversation, starts
  transcription and response tasks, answers over the realtime protocol (\<open>protocol.rs\<close>) and reports
  semantic events through a bounded pipeline with retries (\<open>event.rs\<close>). Tasks use the providers of the
  deployment: the scripted ones (\<open>provider.rs\<close>) or a gateway reached over HTTP
  (\<open>provider/gateway.rs\<close>); tool calls go through a coordinator with a commit-once ledger (\<open>tool.rs\<close>). A
  readiness probe (\<open>probe.rs\<close>) and a command line (\<open>main.rs\<close>) complete it.

  \<^bold>\<open>Theories and sources.\<close>
  \<^item> \<open>Prelude\<close>, \<open>Containers\<close>, \<open>Json\<close>, \<open>Text\<close>: machine integers as bounded naturals with their checked and
    saturating operations, durations, the error monad with its proof collections, the bounded
    channels and maps of the libraries (locales \<open>bounded_lane\<close> and \<open>keyed_table\<close>, interpreted on them), JSON
    values with floats as exact rationals beside the special values, and the string operations of the standard
    library on UTF-8.
  \<^item> \<open>Domain\<close> (\<open>error.rs\<close>, \<open>domain.rs\<close>), \<open>Protocol\<close> (\<open>protocol.rs\<close>), \<open>Events\<close> and \<open>Sinks\<close> (\<open>event.rs\<close>),
    \<open>Provider\<close> and \<open>Scripted\<close> (\<open>provider.rs\<close>), \<open>Tools\<close> (\<open>tool.rs\<close>), \<open>Manifest\<close> (\<open>manifest.rs\<close>). What the
    pipeline relies on in a local sink is the locale \<open>exact_sink\<close>, interpreted on the memory sink and on the
    tracing sink; the endpoint behind the HTTP sink answers as it likes.
  \<^item> \<open>GatewayClient\<close>, \<open>GatewayReason\<close>, \<open>GatewayTts\<close>, \<open>Gateway\<close> (\<open>provider/gateway.rs\<close>): the client and its
    requests, the decoder of server-sent events, the synthesizer, and transcription, tools,
    settings and resolution.
  \<^item> \<open>History\<close>, \<open>Pipeline\<close>, \<open>Session\<close>, \<open>Completion\<close> (\<open>session.rs\<close>): the history, the background tasks, the
    actor with one definition per handler, and the completion guard. \<open>SessionContract\<close> states what any
    invariant of the actor has to satisfy as locales (\<open>actor_contract\<close>, \<open>failing_contract\<close>,
    \<open>ending_contract\<close>) and lifts it to whole runs; \<open>ActorInv\<close>, \<open>Terminal\<close> and \<open>SessionBounds\<close> interpret them;
    \<open>Responses\<close> relates the actor to the tasks it starts.
  \<^item> \<open>Supervisor\<close>, \<open>ShardInv\<close>, \<open>ShardGuarantees\<close>, \<open>ShardLifecycle\<close> (\<open>supervisor.rs\<close>): one definition per lock
    section or signal, the step relations \<open>section_step\<close> (sections that only remove or signal) and \<open>shard_step\<close>
    that interleave them, the shard's invariant, what clients may rely on, and the refinement of an
    abstract registry (\<open>registry_step\<close>). What a removing section does to a shard is the locale
    \<open>section_invariant\<close>; the invariant, the reservation of places and the refinement are its interpretations.
  \<^item> \<open>Server\<close>, \<open>ServerGuarantees\<close>, \<open>Routes\<close> (\<open>server.rs\<close>): the handlers and the transport, their guarantees, and
    the router; \<open>Probe\<close> (\<open>probe.rs\<close>); \<open>CommandLine\<close> and \<open>Commands\<close> (\<open>main.rs\<close>): the parts of the commands
    and \<open>serve\<close>, \<open>simulate\<close> and \<open>main\<close> as a whole. The contract of a
    provider resolver is the locale \<open>deployment_resolver\<close>, interpreted on both resolvers.

  \<^bold>\<open>How code becomes definitions.\<close> A struct is a record, an enum a datatype with the same
  constructors, \<open>u64\<close> and \<open>usize\<close> are naturals below \<open>2^64\<close> with the source's own overflow behaviour,
  bytes are 8-bit words. A method is a function from the state to a result and the new state; every
  early return and every panic is a branch. What runs concurrently is a sequence of steps at the
  granularity of the locks and of the polls of \<open>select!\<close>: the pipeline's commands, the tool
  coordinator's commands, the deliveries to an actor's loop, the lock sections and
  signals of the shard, with the actor behind a handle identified by a number. The moves of the event worker, of the client and of the clock between two steps are explicit lists.
  Libraries the source calls (serde, reqwest, url, sha2, base64, uuid) are parameters; what a
  theorem needs of them is a named hypothesis with a witness.

  \<^bold>\<open>What is proved.\<close>
  \<^item> Events: gapless numbering, the reserved terminal slot, delivery in order, the retry budget and its
    termination (\<open>Events\<close>), for any answers of a sink; and end to end that the memory and the tracing sink
    hold every event, in order and once (\<open>Sinks\<close>).
  \<^item> Protocol: the audio frame is a round trip, the byte strings that decode are characterised exactly, the playout window is monotone and bounded.
  \<^item> Tools and manifests: commit-once execution under every interleaving, replay of completed calls,
    fencing of failed ones, and that a valid manifest cannot trip the coordinator.
  \<^item> Responses: the events of a response task follow a protocol automaton within their bounds, the
    actor refines that automaton, and with any resolved providers a response always ends.
  \<^item> Sessions: exactly one terminal event, complete delivery behind an outcome of \<open>Flushed\<close>, bounds on
    all memory, unique message identifiers, fencing of superseded tasks, and the duplicate filter
    against its specification.
  \<^item> Shards: the registry invariant under interleaving, the refinement of the abstract registry, what
    a reservation is worth, expiry, fencing of stale requests, idempotent stops, and draining that
    reaches every session; and, as lemmas, three races and panics of the code (\<open>reservation_race\<close>,
    \<open>closed_shard_admits\<close>, \<open>ttl_overflow_poisons\<close>).
  \<^item> Gateway: decoding does not depend on how the network cuts a body, streams are authenticated,
    texts are cut without loss, resolution succeeds exactly when it should.
  \<^item> Server and probe: cancel requests that reach only the entry they are entitled to, idempotent
    preparation, fingerprints that identify what was prepared, a transport that closes with the code its
    session earned and leaves a session behind only when it would not die, and a probe that agrees with the
    readiness of the shard. That every request keeps the shard's invariant is \<open>router_keeps_invariant\<close>.

  \<^bold>\<open>Bounds.\<close> No definition uses fuel: every loop of the model recurses on data (a list of deliveries,
  chunks or characters, the nesting of a schema) or has a termination proof, and the numbers in the
  statements (five reasoning rounds, 1,024 identifiers, 500 characters, 16 KiB and so on) are the
  constants of the source. The theorems about reachable shards assume \<open>shard_bounds\<close>: channels within
  tokio's limit of permits and a time to live that fits the clock, since the source panics beyond and its
  configuration check does not exclude it. Whole operations (\<open>stop_session\<close>, \<open>drain\<close>) are their sections in
  sequence; a theorem about one says what it does without interference.

  \<^bold>\<open>Not modelled.\<close> The libraries above and tokio's scheduler, beyond the interleavings stated; axum's
  matching of paths and methods, extractors and sockets, which are parameters, and its layers; argument
  parsing, tracing and signal handlers of \<open>main.rs\<close>; timing other than which deadline passes first.
  The TypeScript packages, scripts, tests and benchmarks of the repository are not part of the
  runtime.
\<close>

end
